theory Spec2Isabelle
  imports Complex_Main "HOL-Library.Word" "HOL-Library.Sublist"
begin

section \<open>JavaScript values\<close>

text \<open>
  A JavaScript string is a sequence of UTF-16 code units; \<open>.length\<close>, \<open>substring\<close>,
  \<open>trim\<close> and the regular expressions (none has the \<open>u\<close> flag) all count and match code
  units. \<open>str\<close> embeds an ASCII literal of the source.
\<close>

type_synonym jschar = "16 word"
type_synonym jsstring = "jschar list"

definition str :: "string \<Rightarrow> jsstring" where
  "str s = map (\<lambda>c. of_nat (of_char c)) s"

text \<open>
  The code units removed by \<open>String.prototype.trim\<close> and matched by \<open>\s\<close>: ECMAScript's
  WhiteSpace and LineTerminator.
\<close>

definition isWhiteSpace :: "jschar \<Rightarrow> bool" where
  "isWhiteSpace c \<longleftrightarrow>
     c \<in> {0x09, 0x0A, 0x0B, 0x0C, 0x0D, 0x20, 0xA0, 0x1680,
          0x2028, 0x2029, 0x202F, 0x205F, 0x3000, 0xFEFF}
     \<or> (0x2000 \<le> c \<and> c \<le> 0x200A)"

definition trim :: "jsstring \<Rightarrow> jsstring" where
  "trim s = rev (dropWhile isWhiteSpace (rev (dropWhile isWhiteSpace s)))"

text \<open>\<open>s.substring(a, b)\<close>: the arguments are swapped when \<open>a > b\<close> and clamped to the length.\<close>

definition substring :: "jsstring \<Rightarrow> nat \<Rightarrow> nat \<Rightarrow> jsstring" where
  "substring s a b = take (max a b - min a b) (drop (min a b) s)"

text \<open>\<open>xs.join(sep)\<close> on an array of strings.\<close>

fun join :: "jsstring \<Rightarrow> jsstring list \<Rightarrow> jsstring" where
  "join sep [] = []"
| "join sep [x] = x"
| "join sep (x # y # ys) = x @ sep @ join sep (y # ys)"

text \<open>
  The values the code handles: what \<open>JSON.parse\<close> returns, what a caller passes and what
  a provider SDK answers. A number is a finite integer (\<open>JNum\<close>), \<open>NaN\<close>, \<open>Infinity\<close> or
  \<open>-Infinity\<close>; fractions are not represented (a token budget and an HTTP status are
  integers, and the sanitizer only asks whether a value is a number at all).
  An object is the list of its own properties.
\<close>

datatype jsval =
    JUndefined
  | JNull
  | JBool bool
  | JNum int
  | JNaN
  | JInfinity
  | JNegInfinity
  | JStr jsstring
  | JArr "jsval list"
  | JObj "(jsstring \<times> jsval) list"

fun typeof :: "jsval \<Rightarrow> jsstring" where
  "typeof JUndefined = str ''undefined''"
| "typeof JNull = str ''object''"
| "typeof (JBool b) = str ''boolean''"
| "typeof (JNum n) = str ''number''"
| "typeof JNaN = str ''number''"
| "typeof JInfinity = str ''number''"
| "typeof JNegInfinity = str ''number''"
| "typeof (JStr s) = str ''string''"
| "typeof (JArr xs) = str ''object''"
| "typeof (JObj kvs) = str ''object''"

text \<open>ToBoolean: what \<open>!v\<close>, \<open>v && ...\<close> and \<open>v || ...\<close> test.\<close>

fun truthy :: "jsval \<Rightarrow> bool" where
  "truthy JUndefined = False"
| "truthy JNull = False"
| "truthy (JBool b) = b"
| "truthy (JNum n) = (n \<noteq> 0)"
| "truthy JNaN = False"
| "truthy JInfinity = True"
| "truthy JNegInfinity = True"
| "truthy (JStr s) = (s \<noteq> [])"
| "truthy (JArr xs) = True"
| "truthy (JObj kvs) = True"

fun isArray :: "jsval \<Rightarrow> bool" where
  "isArray (JArr xs) = True"
| "isArray v = False"

text \<open>
  \<open>v.k\<close> for the property names the source reads (\<open>summary\<close>, \<open>comments\<close>, \<open>patches\<close>,
  \<open>testCases\<close>, \<open>file\<close>, \<open>comment\<close>, \<open>diff\<close>, \<open>content\<close>, \<open>choices\<close>, \<open>message\<close>,
  \<open>response\<close>): none of them is a built-in property of a string, a number, a boolean or
  an array, so the read gives \<open>undefined\<close> there. On \<open>null\<close> and \<open>undefined\<close> JavaScript
  raises a TypeError instead; \<open>getProp\<close> is used only behind a guard (\<open>v &&\<close>, \<open>?.\<close>,
  \<open>typeof v === "object"\<close> after \<open>!v\<close>) that excludes the two, and \<open>readProp\<close> below is
  the unguarded read.
\<close>

fun getProp :: "jsval \<Rightarrow> jsstring \<Rightarrow> jsval" where
  "getProp (JObj kvs) k = (case map_of kvs k of Some v \<Rightarrow> v | None \<Rightarrow> JUndefined)"
| "getProp v k = JUndefined"

section \<open>The review sanitizer (routes/reviewPR: createDefaultReview, validateReview)\<close>

record review =
  summary :: jsstring
  comments :: "jsval list"
  patches :: "jsval list"
  testCases :: "jsstring list"
  status :: jsstring

definition createDefaultReview :: review where
  "createDefaultReview =
     \<lparr> summary = str ''Automated code review completed. Please review for accuracy.'',
       comments = [],
       patches = [],
       testCases = [],
       status = str ''default'' \<rparr>"

text \<open>
  The callback of \<open>data.comments.filter\<close> and of \<open>data.patches.filter\<close>, with the name of
  the payload property (\<open>comment\<close> or \<open>diff\<close>):
  \<^verbatim>\<open>c && typeof c === "object"
    && typeof c.file === "string" && c.file.trim().length > 0
    && typeof c.comment === "string" && c.comment.trim().length > 0\<close>
\<close>

definition nonBlankString :: "jsval \<Rightarrow> bool" where
  "nonBlankString v = (case v of JStr s \<Rightarrow> length (trim s) > 0 | _ \<Rightarrow> False)"

definition keepEntry :: "jsstring \<Rightarrow> jsval \<Rightarrow> bool" where
  "keepEntry payload c \<longleftrightarrow>
     truthy c \<and> typeof c = str ''object''
     \<and> nonBlankString (getProp c (str ''file''))
     \<and> nonBlankString (getProp c payload)"

text \<open>
  \<open>validateReview\<close>. Inside its \<open>try\<close> every property read is on \<open>data\<close> (an object or an
  array once the first test has passed) or behind the callback's own guard, and every
  method call is behind a \<open>typeof\<close> or \<open>Array.isArray\<close> test, so no statement of the body
  can raise on a value of \<open>jsval\<close>: the \<open>catch\<close> branch is not reachable and the function
  returns a document on every input. \<open>testCases\<close> is \<open>filter\<close>, then \<open>map\<close>, then \<open>slice\<close>;
  the comprehension keeps the strings that are not blank and cuts each to 500 code units.
\<close>

definition validateReview :: "jsval \<Rightarrow> review" where
  "validateReview data =
     (if \<not> truthy data \<or> typeof data \<noteq> str ''object'' then createDefaultReview
      else
        \<lparr> summary =
            (case getProp data (str ''summary'') of
               JStr s \<Rightarrow> substring (trim s) 0 3000
             | _ \<Rightarrow> str ''Code review completed.''),
          comments =
            (case getProp data (str ''comments'') of
               JArr cs \<Rightarrow> take 100 (filter (keepEntry (str ''comment'')) cs)
             | _ \<Rightarrow> []),
          patches =
            (case getProp data (str ''patches'') of
               JArr ps \<Rightarrow> take 30 (filter (keepEntry (str ''diff'')) ps)
             | _ \<Rightarrow> []),
          testCases =
            (case getProp data (str ''testCases'') of
               JArr tcs \<Rightarrow> take 20 [substring s 0 500. JStr s \<leftarrow> tcs, length (trim s) > 0]
             | _ \<Rightarrow> []),
          status = str ''validated'' \<rparr>)"

text \<open>A decoded model answer with valid and invalid entries, used to run the sanitizer.\<close>

definition sampleDecoded :: jsval where
  "sampleDecoded =
     JObj [(str ''summary'', JStr (str ''  Looks fine.  '')),
           (str ''comments'',
              JArr [JObj [(str ''file'', JStr (str '' a.js '')), (str ''line'', JNum 42),
                          (str ''comment'', JStr (str '' ok ''))],
                    JObj [(str ''file'', JStr (str '''')), (str ''comment'', JStr (str ''ok''))],
                    JObj [(str ''file'', JStr (str ''b.js'')), (str ''comment'', JStr (str ''''))],
                    JStr (str ''not-an-object'')]),
           (str ''patches'',
              JArr [JNull,
                    JObj [(str ''file'', JStr (str ''a.js'')), (str ''diff'', JStr (str ''+x'')),
                          (str ''hunk'', JNum 3)]]),
           (str ''testCases'', JArr [JStr (str ''t1''), JStr (str ''  ''), JNum 5])]"

section \<open>The model router (services/modelRouter.js)\<close>

definition newline :: jsstring where
  "newline = [0x0A]"

definition quote :: jsstring where
  "quote = [0x27]"

text \<open>
  \<open>String(n)\<close> for an integer: its decimal digits (an HTTP status, a numeric message
  content). This is what JavaScript prints for the integers up to \<open>2^53\<close>; beyond, it
  prints the shortest digits that identify the double, and exponent notation from
  \<open>10^21\<close>.
\<close>

fun natDigits :: "nat \<Rightarrow> jsstring" where
  "natDigits n =
     (if n < 10 then [of_nat (48 + n)] else natDigits (n div 10) @ [of_nat (48 + n mod 10)])"

definition Number_toString :: "int \<Rightarrow> jsstring" where
  "Number_toString n = (if n < 0 then 0x2D # natDigits (nat (- n)) else natDigits (nat n))"

text \<open>
  ToString, and \<open>Array.prototype.join\<close> on arbitrary elements: \<open>undefined\<close> and \<open>null\<close>
  elements give the empty string, every other element its ToString.
\<close>

fun ToString :: "jsval \<Rightarrow> jsstring" where
  "ToString JUndefined = str ''undefined''"
| "ToString JNull = str ''null''"
| "ToString (JBool b) = (if b then str ''true'' else str ''false'')"
| "ToString (JNum n) = Number_toString n"
| "ToString JNaN = str ''NaN''"
| "ToString JInfinity = str ''Infinity''"
| "ToString JNegInfinity = str ''-Infinity''"
| "ToString (JStr s) = s"
| "ToString (JArr xs) =
     join (str '','') (map (\<lambda>x. if x = JUndefined \<or> x = JNull then [] else ToString x) xs)"
| "ToString (JObj kvs) = str ''[object Object]''"

definition joinValues :: "jsstring \<Rightarrow> jsval list \<Rightarrow> jsstring" where
  "joinValues sep xs =
     join sep (map (\<lambda>x. if x = JUndefined \<or> x = JNull then [] else ToString x) xs)"

text \<open>
  \<open>x < k\<close> for a number \<open>x\<close> and an integer \<open>k\<close>: every comparison with \<open>NaN\<close> is false.
  The code compares only what \<open>typeof\<close> has told to be a number.
\<close>

fun lessThan :: "jsval \<Rightarrow> int \<Rightarrow> bool" where
  "lessThan (JNum n) k = (n < k)"
| "lessThan JNegInfinity k = True"
| "lessThan x k = False"

text \<open>
  \<open>Math.min(x, y)\<close> for two numbers: \<open>NaN\<close> when either is \<open>NaN\<close>. (An argument that is not
  a number is first converted, see \<open>ToNumber\<close> below.)
\<close>

fun Math_min :: "jsval \<Rightarrow> jsval \<Rightarrow> jsval" where
  "Math_min (JNum a) (JNum b) = JNum (min a b)"
| "Math_min (JNum a) JInfinity = JNum a"
| "Math_min JInfinity (JNum b) = JNum b"
| "Math_min JInfinity JInfinity = JInfinity"
| "Math_min (JNum a) JNegInfinity = JNegInfinity"
| "Math_min JInfinity JNegInfinity = JNegInfinity"
| "Math_min JNegInfinity (JNum b) = JNegInfinity"
| "Math_min JNegInfinity JInfinity = JNegInfinity"
| "Math_min JNegInfinity JNegInfinity = JNegInfinity"
| "Math_min x y = JNaN"

text \<open>
  ToNumber, which \<open>Math.min\<close> applies to its arguments; a number is left as it is. The
  conversion of a string (StringToNumber of ECMAScript) is the platform's and enters as a
  parameter; an array or an object is converted through its string.
\<close>

definition ToNumber :: "(jsstring \<Rightarrow> jsval) \<Rightarrow> jsval \<Rightarrow> jsval" where
  "ToNumber stringToNumber v =
     (case v of
        JUndefined \<Rightarrow> JNaN
      | JNull \<Rightarrow> JNum 0
      | JBool b \<Rightarrow> JNum (if b then 1 else 0)
      | JStr s \<Rightarrow> stringToNumber s
      | JArr xs \<Rightarrow> stringToNumber (ToString v)
      | JObj kvs \<Rightarrow> stringToNumber (ToString v)
      | _ \<Rightarrow> v)"

text \<open>A thrown value: \<open>new Error(message)\<close>, or a TypeError of the engine (Node, V8).\<close>

datatype error = Error jsstring | TypeError jsstring

fun message :: "error \<Rightarrow> jsstring" where
  "message (Error m) = m"
| "message (TypeError m) = m"

text \<open>The unguarded read \<open>v.k\<close>: a TypeError on \<open>null\<close> and \<open>undefined\<close>.\<close>

fun readProp :: "jsval \<Rightarrow> string \<Rightarrow> error + jsval" where
  "readProp JUndefined k =
     Inl (TypeError (str ''Cannot read properties of undefined (reading '' @ quote @ str k @ quote @ str '')''))"
| "readProp JNull k =
     Inl (TypeError (str ''Cannot read properties of null (reading '' @ quote @ str k @ quote @ str '')''))"
| "readProp v k = Inr (getProp v (str k))"

record attempt =
  provider :: jsstring
  model :: jsstring

definition FALLBACK_MODELS :: "attempt list" where
  "FALLBACK_MODELS =
     [\<lparr> provider = str ''gemini'', model = str ''gemini-2.0-flash'' \<rparr>,
      \<lparr> provider = str ''gemini'', model = str ''gemini-2.0-pro'' \<rparr>,
      \<lparr> provider = str ''groq'', model = str ''llama-3.1-70b-versatile'' \<rparr>,
      \<lparr> provider = str ''openai'', model = str ''gpt-4.1-mini'' \<rparr>,
      \<lparr> provider = str ''ollama'', model = str ''llama3'' \<rparr>]"

text \<open>
  A request handed to a provider client, with what the code puts into it:
  \<^item> \<open>GeminiCall model prompt\<close>:
    \<open>gemini.getGenerativeModel({ model }).generateContent(prompt)\<close>;
  \<^item> \<open>ChatCall provider model messages max_tokens temperature\<close>:
    \<open>groq.chat.completions.create({...})\<close> or \<open>openai.chat.completions.create({...})\<close>;
  \<^item> \<open>OllamaCall url model prompt stream\<close>: \<open>fetch(url, { method: "POST", body:
    JSON.stringify({ model, prompt, stream }), timeout: 30000 })\<close>.
\<close>

datatype provider_call =
    GeminiCall jsstring jsstring
  | ChatCall jsstring jsstring jsval jsval "real option"
  | OllamaCall jsstring jsstring jsstring "bool option"

text \<open>The entry of the fallback list a request belongs to, and the token budget it carries.\<close>

fun call_target :: "provider_call \<Rightarrow> attempt" where
  "call_target (GeminiCall m p) = \<lparr> provider = str ''gemini'', model = m \<rparr>"
| "call_target (ChatCall pr m ms mt t) = \<lparr> provider = pr, model = m \<rparr>"
| "call_target (OllamaCall u m p s) = \<lparr> provider = str ''ollama'', model = m \<rparr>"

fun call_max_tokens :: "provider_call \<Rightarrow> jsval option" where
  "call_max_tokens (GeminiCall m p) = None"
| "call_max_tokens (ChatCall pr m ms mt t) = Some mt"
| "call_max_tokens (OllamaCall u m p s) = None"

text \<open>
  What the outside answers.
  \<^item> Gemini: \<open>GeminiRejects m\<close> when \<open>getGenerativeModel\<close>, \<open>generateContent\<close> or
    \<open>response.text()\<close> raises an Error with message \<open>m\<close>; \<open>GeminiNoResponse\<close> when the
    result has no \<open>response\<close>; \<open>GeminiText t\<close> when \<open>response.text()\<close> returns \<open>t\<close>.
  \<^item> Groq, OpenAI: the promise rejects with a message or resolves to a value.
  \<^item> Ollama: \<open>fetch\<close> rejects, or resolves to a response with its \<open>ok\<close>, its \<open>status\<close>
    and what \<open>json()\<close> does (rejects with a message, or resolves to a value).
\<close>

datatype gemini_result = GeminiRejects jsstring | GeminiNoResponse | GeminiText jsstring

datatype sdk_result = Rejects jsstring | Resolves jsval

datatype fetch_result = FetchRejects jsstring | HttpResponse bool int "jsstring + jsval"

text \<open>
  The process environment, the network and the platform's conversion of a string to a
  number, as one call of \<open>callModel\<close> sees them. A variable of \<open>process.env\<close> that is not
  set is \<open>None\<close>.
\<close>

record world =
  GEMINI_API_KEY :: "jsstring option"
  GROQ_API_KEY :: "jsstring option"
  OPENAI_API_KEY :: "jsstring option"
  OLLAMA_HOST :: "jsstring option"
  MOCK_MODE :: "jsstring option"
  gemini_sdk :: "provider_call \<Rightarrow> gemini_result"
  groq_sdk :: "provider_call \<Rightarrow> sdk_result"
  openai_sdk :: "provider_call \<Rightarrow> sdk_result"
  fetch :: "provider_call \<Rightarrow> fetch_result"
  StringToNumber :: "jsstring \<Rightarrow> jsval"

text \<open>
  The module's variables: a client is \<open>null\<close> (\<open>False\<close>) or constructed (\<open>True\<close>). The
  constructors of the three SDKs only store the key; they are taken not to raise.
\<close>

record clients =
  gemini :: bool
  groq :: bool
  openai :: bool

record router_state = clients +
  clientsInitialized :: bool

definition initial_state :: router_state where
  "initial_state = \<lparr> gemini = False, groq = False, openai = False, clientsInitialized = False \<rparr>"

text \<open>\<open>KEY && KEY.trim().length > 0\<close>\<close>

definition keyPresent :: "jsstring option \<Rightarrow> bool" where
  "keyPresent k = (case k of None \<Rightarrow> False | Some s \<Rightarrow> s \<noteq> [] \<and> length (trim s) > 0)"

definition initializeClients :: "world \<Rightarrow> router_state \<Rightarrow> router_state" where
  "initializeClients w st =
     (if clientsInitialized st then st
      else st \<lparr> gemini := (if keyPresent (GEMINI_API_KEY w) then True else gemini st),
                groq := (if keyPresent (GROQ_API_KEY w) then True else groq st),
                openai := (if keyPresent (OPENAI_API_KEY w) then True else openai st),
                clientsInitialized := True \<rparr>)"

text \<open>\<open>process.env.MOCK_MODE === "true"\<close>\<close>

definition mockMode :: "world \<Rightarrow> bool" where
  "mockMode w \<longleftrightarrow> MOCK_MODE w = Some (str ''true'')"

text \<open>\<open>validateMessages\<close>: \<open>None\<close> when it returns, \<open>Some e\<close> when it throws \<open>e\<close>.\<close>

definition validateMessage :: "jsval \<Rightarrow> error option" where
  "validateMessage msg =
     (if \<not> truthy msg \<or> typeof msg \<noteq> str ''object'' then
        Some (Error (str ''each message must be an object''))
      else if \<not> truthy (getProp msg (str ''content''))
              \<or> typeof (getProp msg (str ''content'')) \<noteq> str ''string'' then
        Some (Error (str ''each message must have a non-empty string content field''))
      else
        (case getProp msg (str ''content'') of
           JStr s \<Rightarrow>
             if length s > 100000 then
               Some (Error (str ''message content exceeds maximum length (100KB)''))
             else None
         | _ \<Rightarrow> None))"

fun validateEach :: "jsval list \<Rightarrow> error option" where
  "validateEach [] = None"
| "validateEach (msg # rest) =
     (case validateMessage msg of Some e \<Rightarrow> Some e | None \<Rightarrow> validateEach rest)"

definition validateMessages :: "jsval \<Rightarrow> error option" where
  "validateMessages messages =
     (case messages of
        JArr ms \<Rightarrow>
          if ms = [] then Some (Error (str ''messages must be a non-empty array''))
          else validateEach ms
      | _ \<Rightarrow> Some (Error (str ''messages must be a non-empty array'')))"

text \<open>
  \<open>validateResponse(response, provider)\<close> (\<open>name\<close> is its second argument): \<open>None\<close> when it returns \<open>true\<close>, \<open>Some e\<close> when it
  throws. \<open>response.choices[0]?.message?.content\<close> reads through \<open>getProp\<close>, which gives
  \<open>undefined\<close> where the optional chaining does.
\<close>

definition validateResponse :: "jsval \<Rightarrow> jsstring \<Rightarrow> error option" where
  "validateResponse response name =
     (if \<not> truthy response then Some (Error (str ''Empty response from '' @ name))
      else
        (case getProp response (str ''choices'') of
           JArr (c # cs) \<Rightarrow>
             (case getProp (getProp c (str ''message'')) (str ''content'') of
                JStr content \<Rightarrow>
                  if content \<noteq> [] \<and> length (trim content) > 0 then None
                  else Some (Error (str ''Invalid response structure from '' @ name))
              | _ \<Rightarrow> Some (Error (str ''Invalid response structure from '' @ name)))
         | _ \<Rightarrow> Some (Error (str ''Invalid response structure from '' @ name))))"

text \<open>\<open>{ choices: [{ message: { content } }] }\<close>\<close>

definition completion :: "jsval \<Rightarrow> jsval" where
  "completion content =
     JObj [(str ''choices'', JArr [JObj [(str ''message'', JObj [(str ''content'', content)])]])]"

text \<open>\<open>[{ role: "user", content: prompt }]\<close>\<close>

definition userMessage :: "jsstring \<Rightarrow> jsval" where
  "userMessage prompt =
     JArr [JObj [(str ''role'', JStr (str ''user'')), (str ''content'', JStr prompt)]]"

text \<open>\<open>process.env.OLLAMA_HOST || "http://localhost:11434"\<close>, then \<open>/api/generate\<close>.\<close>

definition ollamaUrl :: "world \<Rightarrow> jsstring" where
  "ollamaUrl w =
     (case OLLAMA_HOST w of
        Some h \<Rightarrow> if h \<noteq> [] then h else str ''http://localhost:11434''
      | None \<Rightarrow> str ''http://localhost:11434'') @ str ''/api/generate''"

text \<open>
  One iteration of the \<open>for (const attempt of FALLBACK_MODELS)\<close> loop: the entry is
  skipped (no branch applies: the loop goes on), fails (an Error is caught, by the
  loop's \<open>catch\<close> or by Ollama's own, and the loop goes on) or succeeds (\<open>return\<close>).
  The second component lists the requests issued.
\<close>

datatype attempt_result = Skipped | Failed jsstring | Succeeded jsval

definition tryGemini :: "world \<Rightarrow> attempt \<Rightarrow> jsstring \<Rightarrow> attempt_result" where
  "tryGemini w a prompt =
     (case gemini_sdk w (GeminiCall (model a) prompt) of
        GeminiRejects m \<Rightarrow> Failed m
      | GeminiNoResponse \<Rightarrow> Failed (str ''Invalid response structure from Gemini'')
      | GeminiText text \<Rightarrow>
          if text = [] \<or> length (trim text) = 0 then Failed (str ''Empty response from Gemini'')
          else Succeeded (completion (JStr text)))"

definition tryChat :: "sdk_result \<Rightarrow> jsstring \<Rightarrow> attempt_result" where
  "tryChat answer name =
     (case answer of
        Rejects m \<Rightarrow> Failed m
      | Resolves res \<Rightarrow>
          (case validateResponse res name of
             Some e \<Rightarrow> Failed (message e)
           | None \<Rightarrow> Succeeded res))"

definition tryOllama :: "fetch_result \<Rightarrow> attempt_result" where
  "tryOllama answer =
     (case answer of
        FetchRejects m \<Rightarrow> Failed m
      | HttpResponse ok code body \<Rightarrow>
          if \<not> ok then Failed (str ''HTTP '' @ Number_toString code)
          else
            (case body of
               Inl m \<Rightarrow> Failed m
             | Inr res \<Rightarrow>
                 (case getProp res (str ''response'') of
                    JStr text \<Rightarrow>
                      if text = [] then Failed (str ''Invalid response from Ollama'')
                      else if length (trim text) = 0 then Failed (str ''Empty response from Ollama'')
                      else Succeeded (completion (JStr text))
                  | _ \<Rightarrow> Failed (str ''Invalid response from Ollama''))))"

definition attemptProvider ::
  "world \<Rightarrow> router_state \<Rightarrow> jsstring \<Rightarrow> jsval \<Rightarrow> attempt \<Rightarrow> attempt_result \<times> provider_call list"
where
  "attemptProvider w st prompt maxTokens a =
     (if provider a = str ''gemini'' \<and> gemini st then
        (tryGemini w a prompt, [GeminiCall (model a) prompt])
      else if provider a = str ''groq'' \<and> groq st then
        (let c = ChatCall (str ''groq'') (model a) (userMessage prompt)
                   (Math_min maxTokens (JNum 2000)) (Some 0.7)
         in (tryChat (groq_sdk w c) (str ''Groq''), [c]))
      else if provider a = str ''openai'' \<and> openai st then
        (let c = ChatCall (str ''openai'') (model a) (userMessage prompt)
                   (Math_min maxTokens (JNum 2000)) (Some 0.7)
         in (tryChat (openai_sdk w c) (str ''OpenAI''), [c]))
      else if provider a = str ''ollama'' then
        (let c = OllamaCall (ollamaUrl w) (model a) prompt (Some False)
         in (tryOllama (fetch w c), [c]))
      else (Skipped, []))"

definition allFailed :: error where
  "allFailed =
     Error (0x274C # str '' All AI providers failed - no response generated. Check API keys and connectivity.'')"

fun fallbackLoop ::
  "world \<Rightarrow> router_state \<Rightarrow> jsstring \<Rightarrow> jsval \<Rightarrow> attempt list \<Rightarrow> (error + jsval) \<times> provider_call list"
where
  "fallbackLoop w st prompt maxTokens [] = (Inl allFailed, [])"
| "fallbackLoop w st prompt maxTokens (a # rest) =
     (case attemptProvider w st prompt maxTokens a of
        (Succeeded res, cs) \<Rightarrow> (Inr res, cs)
      | (_, cs) \<Rightarrow>
          (case fallbackLoop w st prompt maxTokens rest of (r, cs') \<Rightarrow> (r, cs @ cs')))"

text \<open>
  What a call of \<open>callModel\<close> leaves: what it returns (\<open>Inr\<close>) or throws (\<open>Inl\<close>), the requests
  it issued in their order, and the module's variables afterwards.
\<close>

record 'st outcome =
  result :: "error + jsval"
  calls :: "provider_call list"
  state :: 'st

text \<open>
  \<open>messages.map(m => m.content).join(newline)\<close> on messages that have passed
  \<open>validateMessages\<close> (each is an object, so the read is safe).
\<close>

definition promptOf :: "jsval \<Rightarrow> jsstring" where
  "promptOf messages =
     joinValues newline
       (case messages of
          JArr ms \<Rightarrow> map (\<lambda>m. getProp m (str ''content'')) ms
        | _ \<Rightarrow> [])"

definition mockResponse :: jsval where
  "mockResponse = completion (JStr (str ''Mock response (MOCK_MODE=true)''))"

text \<open>A default parameter: the default applies when the argument is \<open>undefined\<close> (omitted).\<close>

definition withDefault :: "jsval \<Rightarrow> jsval \<Rightarrow> jsval" where
  "withDefault v d = (if v = JUndefined then d else v)"

text \<open>
  \<open>callModel(modelName, messages, maxTokens = 200)\<close>. The outer \<open>try ... catch\<close> logs and
  rethrows. \<open>modelName\<close> is only logged. The test of the budget is
  \<open>typeof maxTokens !== "number" || maxTokens < 1\<close>; past it the budget is a number, which
  \<open>Math.min\<close> takes as it is.
\<close>

definition callModel ::
  "world \<Rightarrow> router_state \<Rightarrow> jsval \<Rightarrow> jsval \<Rightarrow> jsval \<Rightarrow> router_state outcome"
where
  "callModel w st modelName messages maxTokens =
     (case validateMessages messages of
        Some e \<Rightarrow> \<lparr> result = Inl e, calls = [], state = st \<rparr>
      | None \<Rightarrow>
          (let budget = withDefault maxTokens (JNum 200)
           in if typeof budget \<noteq> str ''number'' \<or> lessThan budget 1 then
                \<lparr> result = Inl (Error (str ''maxTokens must be a positive number'')),
                  calls = [], state = st \<rparr>
              else
                (let st' = initializeClients w st;
                     prompt = promptOf messages
                 in if prompt = [] \<or> length (trim prompt) = 0 then
                      \<lparr> result = Inl (Error (str ''Empty prompt generated from messages'')),
                        calls = [], state = st' \<rparr>
                    else if mockMode w then
                      \<lparr> result = Inr mockResponse, calls = [], state = st' \<rparr>
                    else
                      (case fallbackLoop w st' prompt budget FALLBACK_MODELS of
                         (r, cs) \<Rightarrow> \<lparr> result = r, calls = cs, state = st' \<rparr>))))"

section \<open>The second router (services/modelRouter_optimized.js)\<close>

text \<open>
  The module has its own three client variables and no \<open>clientsInitialized\<close> flag:
  \<open>if (!gemini && GEMINI_KEY) gemini = new ...\<close> runs on every call.
\<close>

definition keySet :: "jsstring option \<Rightarrow> bool" where
  "keySet k = (case k of None \<Rightarrow> False | Some s \<Rightarrow> s \<noteq> [])"

definition initializeClients_optimized :: "world \<Rightarrow> clients \<Rightarrow> clients" where
  "initializeClients_optimized w cl =
     cl \<lparr> gemini := (if \<not> gemini cl \<and> keySet (GEMINI_API_KEY w) then True else gemini cl),
          groq := (if \<not> groq cl \<and> keySet (GROQ_API_KEY w) then True else groq cl),
          openai := (if \<not> openai cl \<and> keySet (OPENAI_API_KEY w) then True else openai cl) \<rparr>"

text \<open>
  \<open>validateResponse(response)\<close> of this module: the truth value of the \<open>&&\<close> chain, or the
  TypeError of an unguarded step (\<open>response.choices[0].message\<close> on a \<open>null\<close> element,
  \<open>content.trim()\<close> on a content that is not a string).
\<close>

definition validateResponse_optimized :: "jsval \<Rightarrow> error + bool" where
  "validateResponse_optimized response =
     (if \<not> truthy response then Inr False
      else
        (case getProp response (str ''choices'') of
           JArr (c # cs) \<Rightarrow>
             (case readProp c ''message'' of
                Inl e \<Rightarrow> Inl e
              | Inr msg \<Rightarrow>
                  if \<not> truthy msg then Inr False
                  else if \<not> truthy (getProp msg (str ''content'')) then Inr False
                  else
                    (case getProp msg (str ''content'') of
                       JStr content \<Rightarrow> Inr (length (trim content) > 0)
                     | _ \<Rightarrow>
                         Inl (TypeError
                           (str ''response.choices[0].message.content.trim is not a function''))))
         | _ \<Rightarrow> Inr False))"

text \<open>\<open>messages.map(m => m.content)\<close>: the read is not guarded.\<close>

fun readContents :: "jsval list \<Rightarrow> error + jsval list" where
  "readContents [] = Inr []"
| "readContents (m # ms) =
     (case readProp m ''content'' of
        Inl e \<Rightarrow> Inl e
      | Inr c \<Rightarrow> (case readContents ms of Inl e \<Rightarrow> Inl e | Inr cs \<Rightarrow> Inr (c # cs)))"

text \<open>
  The four helpers. Each wraps what it catches in a new Error, \<open>"Gemini error: " +
  error.message\<close> and so on. They return the result and the request issued.
\<close>

definition callGemini :: "world \<Rightarrow> jsstring \<Rightarrow> jsstring \<Rightarrow> (error + jsval) \<times> provider_call list" where
  "callGemini w modelName prompt =
     (let c = GeminiCall modelName prompt
      in (case gemini_sdk w c of
            GeminiRejects m \<Rightarrow> Inl (Error (str ''Gemini error: '' @ m))
          | GeminiNoResponse \<Rightarrow>
              Inl (Error (str ''Gemini error: '' @
                   str ''Cannot read properties of undefined (reading '' @ quote @ str ''text''
                   @ quote @ str '')''))
          | GeminiText text \<Rightarrow> Inr (completion (JStr text)),
          [c]))"

definition callGroq ::
  "world \<Rightarrow> jsstring \<Rightarrow> jsval list \<Rightarrow> jsval \<Rightarrow> (error + jsval) \<times> provider_call list"
where
  "callGroq w modelName messages maxTokens =
     (case readContents messages of
        Inl e \<Rightarrow> (Inl (Error (str ''Groq error: '' @ message e)), [])
      | Inr contents \<Rightarrow>
          (let c = ChatCall (str ''groq'') modelName (userMessage (joinValues newline contents))
                     (Math_min (ToNumber (StringToNumber w) maxTokens) (JNum 2000)) None
           in (case groq_sdk w c of
                 Rejects m \<Rightarrow> Inl (Error (str ''Groq error: '' @ m))
               | Resolves response \<Rightarrow> Inr response,
               [c])))"

definition callOpenAI ::
  "world \<Rightarrow> jsstring \<Rightarrow> jsval list \<Rightarrow> jsval \<Rightarrow> (error + jsval) \<times> provider_call list"
where
  "callOpenAI w modelName messages maxTokens =
     (let c = ChatCall (str ''openai'') modelName (JArr messages)
                (Math_min (ToNumber (StringToNumber w) maxTokens) (JNum 2000)) None
      in (case openai_sdk w c of
            Rejects m \<Rightarrow> Inl (Error (str ''OpenAI error: '' @ m))
          | Resolves response \<Rightarrow> Inr response,
          [c]))"

definition callOllama :: "world \<Rightarrow> jsstring \<Rightarrow> jsstring \<Rightarrow> (error + jsval) \<times> provider_call list" where
  "callOllama w modelName prompt =
     (let c = OllamaCall (ollamaUrl w) modelName prompt None
      in (case fetch w c of
            FetchRejects m \<Rightarrow> Inl (Error (str ''Ollama error: '' @ m))
          | HttpResponse ok code body \<Rightarrow>
              if \<not> ok then Inl (Error (str ''Ollama error: '' @ str ''HTTP '' @ Number_toString code))
              else
                (case body of
                   Inl m \<Rightarrow> Inl (Error (str ''Ollama error: '' @ m))
                 | Inr data \<Rightarrow>
                     (case readProp data ''response'' of
                        Inl e \<Rightarrow> Inl (Error (str ''Ollama error: '' @ message e))
                      | Inr r \<Rightarrow> Inr (completion (if truthy r then r else JStr [])))),
          [c]))"

text \<open>
  One iteration of the loop of this module: route to the helper of the entry's provider or
  skip the entry (\<open>continue\<close>, nothing recorded); validate the response; an Error thrown on
  the way is caught and its message is the reason of the failure.
\<close>

definition checkResponse :: "error + jsval \<Rightarrow> attempt_result" where
  "checkResponse r =
     (case r of
        Inl e \<Rightarrow> Failed (message e)
      | Inr response \<Rightarrow>
          (case validateResponse_optimized response of
             Inl e \<Rightarrow> Failed (message e)
           | Inr ok \<Rightarrow> if ok then Succeeded response else Failed (str ''Invalid response structure'')))"

definition attemptProvider_optimized ::
  "world \<Rightarrow> clients \<Rightarrow> jsstring \<Rightarrow> jsval list \<Rightarrow> jsval \<Rightarrow> attempt \<Rightarrow> attempt_result \<times> provider_call list"
where
  "attemptProvider_optimized w cl prompt messages maxTokens a =
     (if provider a = str ''gemini'' \<and> gemini cl then
        (case callGemini w (model a) prompt of (r, cs) \<Rightarrow> (checkResponse r, cs))
      else if provider a = str ''groq'' \<and> groq cl then
        (case callGroq w (model a) messages maxTokens of (r, cs) \<Rightarrow> (checkResponse r, cs))
      else if provider a = str ''openai'' \<and> openai cl then
        (case callOpenAI w (model a) messages maxTokens of (r, cs) \<Rightarrow> (checkResponse r, cs))
      else if provider a = str ''ollama'' then
        (case callOllama w (model a) prompt of (r, cs) \<Rightarrow> (checkResponse r, cs))
      else (Skipped, []))"

text \<open>\<open>`${attempt.provider}:${attempt.model} (${err.message})`\<close>\<close>

definition failureEntry :: "attempt \<Rightarrow> jsstring \<Rightarrow> jsstring" where
  "failureEntry a reason = provider a @ str '':'' @ model a @ str '' ('' @ reason @ str '')''"

text \<open>\<open>`All AI providers failed. Attempted: ${failedAttempts.join(", ")}`\<close>\<close>

definition aggregateFailure :: "jsstring list \<Rightarrow> error" where
  "aggregateFailure failedAttempts =
     Error (str ''All AI providers failed. Attempted: '' @ join (str '', '') failedAttempts)"

fun fallbackLoop_optimized ::
  "world \<Rightarrow> clients \<Rightarrow> jsstring \<Rightarrow> jsval list \<Rightarrow> jsval \<Rightarrow> jsstring list \<Rightarrow> attempt list
     \<Rightarrow> (error + jsval) \<times> provider_call list"
where
  "fallbackLoop_optimized w cl prompt messages maxTokens failedAttempts [] =
     (Inl (aggregateFailure failedAttempts), [])"
| "fallbackLoop_optimized w cl prompt messages maxTokens failedAttempts (a # rest) =
     (case attemptProvider_optimized w cl prompt messages maxTokens a of
        (Succeeded response, cs) \<Rightarrow> (Inr response, cs)
      | (Failed reason, cs) \<Rightarrow>
          (case fallbackLoop_optimized w cl prompt messages maxTokens
                  (failedAttempts @ [failureEntry a reason]) rest
           of (r, cs') \<Rightarrow> (r, cs @ cs'))
      | (Skipped, cs) \<Rightarrow>
          (case fallbackLoop_optimized w cl prompt messages maxTokens failedAttempts rest
           of (r, cs') \<Rightarrow> (r, cs @ cs')))"

definition mockResponse_optimized :: jsval where
  "mockResponse_optimized =
     completion (JStr (str ''Mock response generated. Enable real API by setting MOCK_MODE=false and providing valid API keys.''))"

text \<open>
  \<open>callModel(modelName, messages, maxTokens = 200)\<close> of this module. It checks only that
  \<open>messages\<close> is a non-empty array; the budget is never tested, so it reaches \<open>Math.min\<close>
  as whatever value the caller gave.
\<close>

definition callModel_optimized ::
  "world \<Rightarrow> clients \<Rightarrow> jsval \<Rightarrow> jsval \<Rightarrow> jsval \<Rightarrow> clients outcome"
where
  "callModel_optimized w cl modelName messages maxTokens =
     (case messages of
        JArr (m # ms) \<Rightarrow>
          (let cl' = initializeClients_optimized w cl
           in (case readContents (m # ms) of
                 Inl e \<Rightarrow> \<lparr> result = Inl e, calls = [], state = cl' \<rparr>
               | Inr contents \<Rightarrow>
                   (let prompt = joinValues newline contents
                    in if prompt = [] \<or> length (trim prompt) = 0 then
                         \<lparr> result = Inl (Error (str ''Empty prompt: no content in messages'')),
                           calls = [], state = cl' \<rparr>
                       else if mockMode w then
                         \<lparr> result = Inr mockResponse_optimized, calls = [], state = cl' \<rparr>
                       else
                         (case fallbackLoop_optimized w cl' prompt (m # ms)
                                 (withDefault maxTokens (JNum 200)) [] FALLBACK_MODELS
                          of (r, cs) \<Rightarrow> \<lparr> result = r, calls = cs, state = cl' \<rparr>))))
      | _ \<Rightarrow>
          \<lparr> result = Inl (Error (str ''Invalid messages array: must be non-empty array'')),
            calls = [], state = cl \<rparr>)"

section \<open>The decoder (routes/reviewPR: extractJSON)\<close>

text \<open>
  \<open>text.match(re)\<close> for the three regular expressions of \<open>extractJSON\<close>. A pattern is a list
  of alternatives, each a sequence of atoms; the matcher is the backtracking one of
  ECMAScript: the leftmost start wins, at a start the alternatives are tried in order,
  a greedy quantifier tries the longest repetition first and a lazy one the shortest.
  \<^item> \<open>Lit s\<close>: the text \<open>s\<close>;
  \<^item> \<open>Opt s\<close>: \<open>(?:s)?\<close>;
  \<^item> \<open>Star C\<close>: \<open>C*\<close> for a character class \<open>C\<close>;
  \<^item> \<open>Lazy C\<close>: \<open>C*?\<close>;
  \<^item> \<open>Open\<close>, \<open>Close\<close>: the parentheses of capture group 1.
  \<open>matchHere\<close> carries the input at \<open>Open\<close> (\<open>mark\<close>) and the text of the group (\<open>grp\<close>); it
  gives the text of group 1 when the atoms match a prefix of the input.
\<close>

datatype atom =
    Lit jsstring
  | Opt jsstring
  | Star "jschar \<Rightarrow> bool"
  | Lazy "jschar \<Rightarrow> bool"
  | Open
  | Close

fun matchHere :: "atom list \<Rightarrow> jsstring \<Rightarrow> jsstring \<Rightarrow> jsstring \<Rightarrow> jsstring option" where
  "matchHere [] s mark grp = Some grp"
| "matchHere (Lit l # r) s mark grp =
     (if take (length l) s = l then matchHere r (drop (length l) s) mark grp else None)"
| "matchHere (Opt l # r) s mark grp =
     (if take (length l) s = l then
        (case matchHere r (drop (length l) s) mark grp of
           Some g \<Rightarrow> Some g
         | None \<Rightarrow> matchHere r s mark grp)
      else matchHere r s mark grp)"
| "matchHere (Star C # r) [] mark grp = matchHere r [] mark grp"
| "matchHere (Star C # r) (c # s) mark grp =
     (if C c then
        (case matchHere (Star C # r) s mark grp of
           Some g \<Rightarrow> Some g
         | None \<Rightarrow> matchHere r (c # s) mark grp)
      else matchHere r (c # s) mark grp)"
| "matchHere (Lazy C # r) [] mark grp = matchHere r [] mark grp"
| "matchHere (Lazy C # r) (c # s) mark grp =
     (case matchHere r (c # s) mark grp of
        Some g \<Rightarrow> Some g
      | None \<Rightarrow> if C c then matchHere (Lazy C # r) s mark grp else None)"
| "matchHere (Open # r) s mark grp = matchHere r s s grp"
| "matchHere (Close # r) s mark grp = matchHere r s mark (take (length mark - length s) mark)"

fun matchAlternatives :: "atom list list \<Rightarrow> jsstring \<Rightarrow> jsstring option" where
  "matchAlternatives [] s = None"
| "matchAlternatives (alt # alts) s =
     (case matchHere alt s s [] of Some g \<Rightarrow> Some g | None \<Rightarrow> matchAlternatives alts s)"

text \<open>Group 1 of the first match, \<open>None\<close> when \<open>match\<close> returns \<open>null\<close>.\<close>

fun regexMatch :: "atom list list \<Rightarrow> jsstring \<Rightarrow> jsstring option" where
  "regexMatch re [] = matchAlternatives re []"
| "regexMatch re (c # s) =
     (case matchAlternatives re (c # s) of Some g \<Rightarrow> Some g | None \<Rightarrow> regexMatch re s)"

definition anyChar :: "jschar \<Rightarrow> bool" where
  "anyChar = (\<lambda>c. True)"

definition dquote :: jsstring where
  "dquote = [0x22]"

text \<open>\<^verbatim>\<open>/```(?:json)?\s*([\s\S]*?)\s*```/\<close>\<close>

definition codeBlockPattern :: "atom list list" where
  "codeBlockPattern =
     [[Lit (str ''```''), Opt (str ''json''), Star isWhiteSpace,
       Open, Lazy anyChar, Close, Star isWhiteSpace, Lit (str ''```'')]]"

text \<open>
  \<^verbatim>\<open>/(\{[\s\S]*\}|\[[\s\S]*\])/\<close>: the group encloses the alternation, so each
  alternative carries the parentheses.
\<close>

definition bracketPattern :: "atom list list" where
  "bracketPattern =
     [[Open, Lit (str ''{''), Star anyChar, Lit (str ''}''), Close],
      [Open, Lit (str ''[''), Star anyChar, Lit (str '']''), Close]]"

text \<open>
  \<^verbatim>\<open>/(?:"summary"|"comments"|"patches"|"testCases")\s*:[\s\S]*?(\{[\s\S]*?\})/\<close>: the
  alternation of the four labels, distributed over the rest of the sequence (the
  alternatives are tried in the same order at each start).
\<close>

definition labeledTail :: "atom list" where
  "labeledTail =
     [Star isWhiteSpace, Lit (str '':''), Lazy anyChar,
      Open, Lit (str ''{''), Lazy anyChar, Lit (str ''}''), Close]"

definition labeledPattern :: "atom list list" where
  "labeledPattern =
     [Lit (dquote @ str ''summary'' @ dquote) # labeledTail,
      Lit (dquote @ str ''comments'' @ dquote) # labeledTail,
      Lit (dquote @ str ''patches'' @ dquote) # labeledTail,
      Lit (dquote @ str ''testCases'' @ dquote) # labeledTail]"

text \<open>
  The second, third and fourth try: \<open>m && m[1]\<close> asks for a match with a non-empty group 1,
  and a failure of \<open>JSON.parse\<close> is caught and logged. \<open>JSON.parse\<close> is the platform's: it is
  a parameter, \<open>None\<close> when it throws. The second try trims the group before parsing.
\<close>

definition parseGroup ::
  "(jsstring \<Rightarrow> jsval option) \<Rightarrow> atom list list \<Rightarrow> (jsstring \<Rightarrow> jsstring) \<Rightarrow> jsstring
     \<Rightarrow> jsval option"
where
  "parseGroup JSON_parse re prepare text =
     (case regexMatch re text of
        Some g \<Rightarrow> if g \<noteq> [] then JSON_parse (prepare g) else None
      | None \<Rightarrow> None)"

definition extractJSON :: "(jsstring \<Rightarrow> jsval option) \<Rightarrow> jsval \<Rightarrow> error + jsval" where
  "extractJSON JSON_parse text =
     (case text of
        JStr t \<Rightarrow>
          if t = [] then Inl (Error (str ''Invalid input: expected string''))
          else if length (trim t) = 0 then Inl (Error (str ''Empty text provided''))
          else
            (case JSON_parse (trim t) of
               Some v \<Rightarrow> Inr v
             | None \<Rightarrow>
                 (case parseGroup JSON_parse codeBlockPattern trim t of
                    Some v \<Rightarrow> Inr v
                  | None \<Rightarrow>
                      (case parseGroup JSON_parse bracketPattern (\<lambda>g. g) t of
                         Some v \<Rightarrow> Inr v
                       | None \<Rightarrow>
                           (case parseGroup JSON_parse labeledPattern (\<lambda>g. g) t of
                              Some v \<Rightarrow> Inr v
                            | None \<Rightarrow>
                                Inl (Error (str ''Could not extract valid JSON from response after multiple attempts''))))))
      | _ \<Rightarrow> Inl (Error (str ''Invalid input: expected string'')))"

text \<open>\<open>"```json\n" + s + "\n```"\<close>\<close>

definition fenced :: "jsstring \<Rightarrow> jsstring" where
  "fenced s = str ''```json'' @ newline @ s @ newline @ str ''```''"

section \<open>Notions the claims use\<close>

text \<open>
  A valid request, in the words of the specification: \<open>messages\<close> is a non-empty array,
  each message carries a non-empty string content of at most 100000 code units, and
  \<open>maxTokens\<close> (200 when the argument is omitted) is a positive number of tokens.
\<close>

definition validMessage :: "jsval \<Rightarrow> bool" where
  "validMessage m =
     (case getProp m (str ''content'') of
        JStr s \<Rightarrow> s \<noteq> [] \<and> length s \<le> 100000
      | _ \<Rightarrow> False)"

definition validRequest :: "jsval \<Rightarrow> jsval \<Rightarrow> bool" where
  "validRequest messages maxTokens =
     ((case messages of JArr ms \<Rightarrow> ms \<noteq> [] \<and> list_all validMessage ms | _ \<Rightarrow> False)
      \<and> (case withDefault maxTokens (JNum 200) of JNum n \<Rightarrow> n > 0 | _ \<Rightarrow> False))"

text \<open>The first half of a valid request: the messages alone.\<close>

definition validMessages :: "jsval \<Rightarrow> bool" where
  "validMessages messages =
     (case messages of JArr ms \<Rightarrow> ms \<noteq> [] \<and> list_all validMessage ms | _ \<Rightarrow> False)"

text \<open>
  The budgets with which a call of \<open>callModel\<close> of \<open>modelRouter.js\<close> gets past the test of
  \<open>maxTokens\<close>: a number that is at least 1 (200 when the argument is omitted), \<open>Infinity\<close>,
  and also \<open>NaN\<close>, of which no comparison holds.
\<close>

definition budgetAccepted :: "jsval \<Rightarrow> bool" where
  "budgetAccepted maxTokens =
     (case withDefault maxTokens (JNum 200) of
        JNum n \<Rightarrow> n \<ge> 1
      | JInfinity \<Rightarrow> True
      | JNaN \<Rightarrow> True
      | _ \<Rightarrow> False)"

text \<open>
  The invariant of a GenerationRequest: the contents, joined, are not empty after
  trimming.
\<close>

definition nonBlankPrompt :: "jsval \<Rightarrow> bool" where
  "nonBlankPrompt messages \<longleftrightarrow> trim (promptOf messages) \<noteq> []"

text \<open>The Errors of the input validation of \<open>modelRouter.js\<close> (lines 87 to 103 and 131 to 133).\<close>

definition inputValidationErrors :: "error list" where
  "inputValidationErrors =
     [Error (str ''messages must be a non-empty array''),
      Error (str ''each message must be an object''),
      Error (str ''each message must have a non-empty string content field''),
      Error (str ''message content exceeds maximum length (100KB)''),
      Error (str ''maxTokens must be a positive number'')]"

text \<open>
  An entry of the fallback list is attempted when one of the four branches of the loop
  applies to it: its provider's client variable is set, or the provider is Ollama (which
  needs no client). Otherwise the entry is skipped.
\<close>

definition clientReady :: "'a clients_scheme \<Rightarrow> attempt \<Rightarrow> bool" where
  "clientReady cl a \<longleftrightarrow>
     provider a = str ''gemini'' \<and> gemini cl
     \<or> provider a = str ''groq'' \<and> groq cl
     \<or> provider a = str ''openai'' \<and> openai cl
     \<or> provider a = str ''ollama''"

text \<open>\<open>response.choices[0]?.message?.content\<close>: the content a caller reads from a result.\<close>

definition responseContent :: "jsval \<Rightarrow> jsval" where
  "responseContent response =
     (case getProp response (str ''choices'') of
        JArr (c # cs) \<Rightarrow> getProp (getProp c (str ''message'')) (str ''content'')
      | _ \<Rightarrow> JUndefined)"

text \<open>
  What a provider answers to a request, in the words of the specification: the content of
  the response it returns, or \<open>undefined\<close> when it returns none (the SDK's promise rejects,
  Gemini gives no text, the HTTP status of Ollama is not a success or its body is not
  JSON). Gemini answers with its text, Groq and OpenAI with a completion object, Ollama
  with the \<open>response\<close> field of its JSON body. The response validates when this content
  is a string that is not blank.
\<close>

definition answerContent :: "world \<Rightarrow> provider_call \<Rightarrow> jsval" where
  "answerContent w c =
     (case c of
        GeminiCall m p \<Rightarrow>
          (case gemini_sdk w c of GeminiText t \<Rightarrow> JStr t | _ \<Rightarrow> JUndefined)
      | ChatCall name m ms mt t \<Rightarrow>
          (case (if name = str ''groq'' then groq_sdk w c else openai_sdk w c) of
             Resolves response \<Rightarrow> responseContent response
           | Rejects e \<Rightarrow> JUndefined)
      | OllamaCall u m p s \<Rightarrow>
          (case fetch w c of
             HttpResponse ok code body \<Rightarrow>
               (case body of
                  Inr data \<Rightarrow> if ok then getProp data (str ''response'') else JUndefined
                | Inl e \<Rightarrow> JUndefined)
           | FetchRejects e \<Rightarrow> JUndefined))"

definition validAnswer :: "world \<Rightarrow> provider_call \<Rightarrow> bool" where
  "validAnswer w c \<longleftrightarrow> nonBlankString (answerContent w c)"

fun succeeded :: "attempt_result \<Rightarrow> bool" where
  "succeeded (Succeeded r) = True"
| "succeeded r = False"

fun failureReason :: "attempt_result \<Rightarrow> jsstring" where
  "failureReason (Failed reason) = reason"
| "failureReason r = []"

text \<open>The elements of an array value.\<close>

fun elements :: "jsval \<Rightarrow> jsval list" where
  "elements (JArr xs) = xs"
| "elements v = []"

text \<open>
  The entries \<open>failedAttempts\<close> collects over a list of entries whose outcomes are \<open>att\<close>:
  one for each entry that was not skipped, in order.
\<close>

definition failureEntries ::
  "(attempt \<Rightarrow> attempt_result) \<Rightarrow> attempt list \<Rightarrow> jsstring list" where
  "failureEntries att as =
     map (\<lambda>a. failureEntry a (failureReason (att a))) (filter (\<lambda>a. att a \<noteq> Skipped) as)"

section \<open>A sample environment\<close>

text \<open>
  The conversion of a string of decimal digits to a number, which is all of StringToNumber
  that the sample environment provides: it takes every other string to \<open>NaN\<close>, which
  JavaScript does only for a string that is no numeric literal. The sample runs convert
  no string.
\<close>

definition isDigit :: "jschar \<Rightarrow> bool" where
  "isDigit c \<longleftrightarrow> 0x30 \<le> c \<and> c \<le> 0x39"

definition digitsToNumber :: "jsstring \<Rightarrow> jsval" where
  "digitsToNumber s =
     (if s \<noteq> [] \<and> list_all isDigit s
      then JNum (foldl (\<lambda>n c. 10 * n + (uint c - 48)) 0 s)
      else JNaN)"

text \<open>
  No Gemini key, keys for Groq and OpenAI; Groq answers with a rate limit, OpenAI with a
  completion, no Ollama server listens.
\<close>

definition sampleWorld :: world where
  "sampleWorld =
     \<lparr> GEMINI_API_KEY = None,
       GROQ_API_KEY = Some (str ''gsk-1''),
       OPENAI_API_KEY = Some (str ''sk-1''),
       OLLAMA_HOST = None,
       MOCK_MODE = None,
       gemini_sdk = (\<lambda>c. GeminiText (str ''Hi from Gemini'')),
       groq_sdk = (\<lambda>c. Rejects (str ''429 rate limit'')),
       openai_sdk = (\<lambda>c. Resolves (completion (JStr (str ''Hello!'')))),
       fetch = (\<lambda>c. FetchRejects (str ''connect ECONNREFUSED'')),
       StringToNumber = digitsToNumber \<rparr>"

text \<open>The same environment with an OpenAI that answers a blank completion: every attempt fails.\<close>

definition failingWorld :: world where
  "failingWorld = sampleWorld \<lparr> openai_sdk := (\<lambda>c. Resolves (completion (JStr (str ''  '')))) \<rparr>"

text \<open>\<open>[{ role: "user", content: "hello" }]\<close>\<close>

definition sampleMessages :: jsval where
  "sampleMessages = userMessage (str ''hello'')"

text \<open>
  A model answer that is JSON as a whole and carries a fenced block with other JSON inside
  a string: \<^verbatim>\<open>{"note":"```json[1]```"}\<close>.
\<close>

definition sampleText :: jsstring where
  "sampleText =
     str ''{'' @ dquote @ str ''note'' @ dquote @ str '':'' @ dquote @ str ''```json[1]```''
     @ dquote @ str ''}''"

text \<open>
  Two serialized objects: \<^verbatim>\<open>{"summary":"ok"}\<close> and \<^verbatim>\<open>{"a":"```"}\<close>, whose string
  holds a fence.
\<close>

definition sampleSerialized :: jsstring where
  "sampleSerialized =
     str ''{'' @ (dquote @ str ''summary'' @ dquote @ str '':'' @ dquote @ str ''ok'' @ dquote)
     @ str ''}''"

definition sampleBackticks :: jsstring where
  "sampleBackticks =
     str ''{'' @ (dquote @ str ''a'' @ dquote @ str '':'' @ dquote @ str ''```'' @ dquote)
     @ str ''}''"

text \<open>The module variables of \<open>modelRouter_optimized.js\<close> when the module is loaded.\<close>

definition initial_clients :: clients where
  "initial_clients = \<lparr> gemini = False, groq = False, openai = False \<rparr>"

section \<open>Facts about strings\<close>

lemma of_char_less_65536: "(of_char c :: nat) < 2 ^ 16"
proof -
  have "(of_char c :: nat) mod 256 = of_char c"
    by simp
  then have "(of_char c :: nat) < 256"
    by (metis mod_less_divisor zero_less_numeral)
  also have "(256 :: nat) < 2 ^ 16"
    by simp
  finally show ?thesis .
qed

lemma str_eq_iff [simp]: "str a = str b \<longleftrightarrow> a = b"
proof -
  have "inj (\<lambda>c::char. (of_nat (of_char c) :: jschar))"
  proof (rule injI)
    fix x y :: char
    assume h: "(of_nat (of_char x) :: jschar) = of_nat (of_char y)"
    have "take_bit 16 (of_char x :: nat) = take_bit 16 (of_char y :: nat)"
      using h by (simp add: word_of_nat_eq_iff)
    moreover have "take_bit 16 (of_char x :: nat) = of_char x"
      by (rule take_bit_nat_eq_self) (rule of_char_less_65536)
    moreover have "take_bit 16 (of_char y :: nat) = of_char y"
      by (rule take_bit_nat_eq_self) (rule of_char_less_65536)
    ultimately have "(of_char x :: nat) = of_char y"
      by (simp only:)
    then show "x = y" by simp
  qed
  then show ?thesis
    unfolding str_def by simp
qed

lemma length_trim_le: "length (trim s) \<le> length s"
proof -
  have "length (trim s) \<le> length (dropWhile isWhiteSpace s)"
    unfolding trim_def by (metis length_dropWhile_le length_rev)
  also have "\<dots> \<le> length s"
    by (rule length_dropWhile_le)
  finally show ?thesis .
qed

lemma trim_id:
  assumes "s \<noteq> []" and "\<not> isWhiteSpace (hd s)" and "\<not> isWhiteSpace (last s)"
  shows "trim s = s"
proof -
  have a: "dropWhile isWhiteSpace s = s"
    using assms(1,2) by (cases s) simp_all
  have "rev s \<noteq> []" and "\<not> isWhiteSpace (hd (rev s))"
    using assms(1,3) by (simp_all add: hd_rev)
  then have "dropWhile isWhiteSpace (rev s) = rev s"
    by (cases "rev s") simp_all
  with a show ?thesis
    by (simp add: trim_def)
qed

lemma trim_blank:
  assumes "\<forall>c \<in> set s. isWhiteSpace c"
  shows "trim s = []"
proof -
  have "dropWhile isWhiteSpace s = []"
    using assms by simp
  then show ?thesis
    by (simp only: trim_def rev.simps dropWhile.simps)
qed

lemma length_substring_le: "length (substring s 0 n) \<le> n"
  by (simp add: substring_def)

lemma substring_0: "substring s 0 n = take n s"
  by (simp add: substring_def)

lemma validateReview_object:
  assumes "truthy data" and "typeof data = str ''object''"
  shows "summary (validateReview data) =
           (case getProp data (str ''summary'') of
              JStr s \<Rightarrow> take 3000 (trim s) | _ \<Rightarrow> str ''Code review completed.'')"
    and "comments (validateReview data) =
           (case getProp data (str ''comments'') of
              JArr cs \<Rightarrow> take 100 (filter (keepEntry (str ''comment'')) cs) | _ \<Rightarrow> [])"
    and "patches (validateReview data) =
           (case getProp data (str ''patches'') of
              JArr ps \<Rightarrow> take 30 (filter (keepEntry (str ''diff'')) ps) | _ \<Rightarrow> [])"
  using assms by (simp_all add: validateReview_def substring_0 cong: jsval.case_cong)

lemma getProp_defined_object:
  assumes "getProp data k \<noteq> JUndefined"
  shows "truthy data" and "typeof data = str ''object''"
  using assms by (cases data; simp)+

lemma trim_Nil [simp]: "trim [] = []"
  by (simp add: trim_def)

section \<open>Facts about the two routers\<close>

lemma withDefault_simps [simp]:
  "withDefault JUndefined d = d"
  "withDefault JNull d = JNull"
  "withDefault (JBool b) d = JBool b"
  "withDefault (JNum n) d = JNum n"
  "withDefault JNaN d = JNaN"
  "withDefault JInfinity d = JInfinity"
  "withDefault JNegInfinity d = JNegInfinity"
  "withDefault (JStr s) d = JStr s"
  "withDefault (JArr xs) d = JArr xs"
  "withDefault (JObj kvs) d = JObj kvs"
  by (simp_all add: withDefault_def)

lemma validateMessage_None_iff: "validateMessage m = None \<longleftrightarrow> validMessage m"
  by (cases m; cases "getProp m (str ''content'')")
     (auto simp: validateMessage_def validMessage_def split: option.splits)

lemma validateMessage_errors: "validateMessage m = Some e \<Longrightarrow> e \<in> set inputValidationErrors"
  by (auto simp: validateMessage_def inputValidationErrors_def split: if_splits jsval.splits)

lemma validateEach_None_iff: "validateEach ms = None \<longleftrightarrow> list_all validMessage ms"
  by (induction ms) (auto simp: validateMessage_None_iff [symmetric] split: option.splits)

lemma validateEach_errors: "validateEach ms = Some e \<Longrightarrow> e \<in> set inputValidationErrors"
  by (induction ms) (auto dest: validateMessage_errors split: option.splits)

lemma validateMessages_None_iff:
  "validateMessages messages = None
     \<longleftrightarrow> (case messages of JArr ms \<Rightarrow> ms \<noteq> [] \<and> list_all validMessage ms | _ \<Rightarrow> False)"
  by (cases messages) (auto simp: validateMessages_def validateEach_None_iff)

lemma validateMessages_errors:
  "validateMessages messages = Some e \<Longrightarrow> e \<in> set inputValidationErrors"
  by (cases messages)
     (auto simp: validateMessages_def inputValidationErrors_def dest: validateEach_errors
           split: if_splits)

lemma validateMessages_valid: "validateMessages messages = None \<longleftrightarrow> validMessages messages"
  by (simp add: validateMessages_None_iff validMessages_def)

lemma validRequest_messages: "validRequest messages maxTokens \<Longrightarrow> validMessages messages"
  by (simp add: validRequest_def validMessages_def)

lemma validRequest_budget: "validRequest messages maxTokens \<Longrightarrow> budgetAccepted maxTokens"
  by (cases "withDefault maxTokens (JNum 200)") (auto simp: validRequest_def budgetAccepted_def)

text \<open>The test of the budget in \<open>callModel\<close> of \<open>modelRouter.js\<close>.\<close>

lemma budget_test:
  "typeof (withDefault maxTokens (JNum 200)) \<noteq> str ''number''
     \<or> lessThan (withDefault maxTokens (JNum 200)) 1
   \<longleftrightarrow> \<not> budgetAccepted maxTokens"
  by (cases "withDefault maxTokens (JNum 200)") (auto simp: budgetAccepted_def)

lemma nonBlankPrompt_test:
  "promptOf messages = [] \<or> length (trim (promptOf messages)) = 0 \<longleftrightarrow> \<not> nonBlankPrompt messages"
  by (auto simp: nonBlankPrompt_def)

text \<open>The steps of \<open>callModel\<close> of \<open>modelRouter.js\<close>, one after the other.\<close>

lemma callModel_steps:
  "callModel w st modelName messages maxTokens =
     (if \<not> validMessages messages then
        \<lparr> result = Inl (the (validateMessages messages)), calls = [], state = st \<rparr>
      else if \<not> budgetAccepted maxTokens then
        \<lparr> result = Inl (Error (str ''maxTokens must be a positive number'')),
          calls = [], state = st \<rparr>
      else if \<not> nonBlankPrompt messages then
        \<lparr> result = Inl (Error (str ''Empty prompt generated from messages'')),
          calls = [], state = initializeClients w st \<rparr>
      else if mockMode w then
        \<lparr> result = Inr mockResponse, calls = [], state = initializeClients w st \<rparr>
      else
        (case fallbackLoop w (initializeClients w st) (promptOf messages)
                (withDefault maxTokens (JNum 200)) FALLBACK_MODELS of
           (r, cs) \<Rightarrow> \<lparr> result = r, calls = cs, state = initializeClients w st \<rparr>))"
proof (cases "validateMessages messages")
  case None
  then have v: "validMessages messages"
    by (simp add: validateMessages_valid)
  show ?thesis
    unfolding callModel_def None option.case Let_def budget_test nonBlankPrompt_test
    using v by simp
next
  case (Some e)
  then have "\<not> validMessages messages"
    by (simp add: validateMessages_valid [symmetric])
  with Some show ?thesis
    by (simp add: callModel_def)
qed

lemma attemptProvider_target:
  "map call_target (snd (attemptProvider w st prompt n a)) = (if clientReady st a then [a] else [])"
  by (auto simp: attemptProvider_def clientReady_def Let_def)

lemma attemptProvider_skipped:
  "fst (attemptProvider w st prompt n a) = Skipped \<longleftrightarrow> \<not> clientReady st a"
  by (auto simp: attemptProvider_def clientReady_def Let_def tryGemini_def tryChat_def tryOllama_def
      split: gemini_result.splits sdk_result.splits fetch_result.splits option.splits sum.splits jsval.splits)

lemma fallbackLoop_none:
  assumes "\<forall>a \<in> set as. \<not> succeeded (fst (attemptProvider w st prompt n a))"
  shows "fallbackLoop w st prompt n as
           = (Inl allFailed, concat (map (\<lambda>a. snd (attemptProvider w st prompt n a)) as))"
  using assms
proof (induction as)
  case Nil
  then show ?case by simp
next
  case (Cons a as)
  obtain r cs where att: "attemptProvider w st prompt n a = (r, cs)"
    by (cases "attemptProvider w st prompt n a")
  with Cons.prems have "\<not> succeeded r" by simp
  with att Cons show ?case
    by (cases r) simp_all
qed

lemma fallbackLoop_first:
  assumes "\<forall>a \<in> set pre. \<not> succeeded (fst (attemptProvider w st prompt n a))"
    and "fst (attemptProvider w st prompt n b) = Succeeded r"
  shows "fallbackLoop w st prompt n (pre @ b # post)
           = (Inr r, concat (map (\<lambda>a. snd (attemptProvider w st prompt n a)) (pre @ [b])))"
  using assms(1)
proof (induction pre)
  case Nil
  obtain cs where "attemptProvider w st prompt n b = (Succeeded r, cs)"
    using assms(2) by (cases "attemptProvider w st prompt n b") simp
  then show ?case by simp
next
  case (Cons a pre)
  obtain x cs where att: "attemptProvider w st prompt n a = (x, cs)"
    by (cases "attemptProvider w st prompt n a")
  with Cons.prems have "\<not> succeeded x" by simp
  with att Cons show ?case
    by (cases x) simp_all
qed

lemma targets_concat:
  "map call_target (concat (map (\<lambda>a. snd (attemptProvider w st prompt n a)) as))
     = filter (clientReady st) as"
  by (induction as) (simp_all add: attemptProvider_target)

lemma readContents_valid:
  "list_all validMessage ms \<Longrightarrow> readContents ms = Inr (map (\<lambda>m. getProp m (str ''content'')) ms)"
proof (induction ms)
  case Nil
  then show ?case by simp
next
  case (Cons m ms)
  then have "validMessage m" by simp
  then have "readProp m ''content'' = Inr (getProp m (str ''content''))"
    by (cases m) (simp_all add: validMessage_def)
  with Cons show ?case by simp
qed

lemma readProp_Inr: "readProp v k = Inr x \<Longrightarrow> x = getProp v (str k)"
  by (cases v) auto

lemma readContents_Inr:
  "readContents ms = Inr contents \<Longrightarrow> contents = map (\<lambda>m. getProp m (str ''content'')) ms"
proof (induction ms arbitrary: contents)
  case Nil
  then show ?case by simp
next
  case (Cons m ms)
  then show ?case
    by (auto dest: readProp_Inr split: sum.splits)
qed

text \<open>
  The steps of \<open>callModel\<close> of \<open>modelRouter_optimized.js\<close>: it stops before the loop
  without a request, or runs the loop on messages whose contents could all be read.
\<close>

lemma callModel_optimized_steps:
  "(calls (callModel_optimized w cl modelName messages maxTokens) = []
      \<and> (\<forall>r. result (callModel_optimized w cl modelName messages maxTokens) = Inr r
              \<longrightarrow> r = mockResponse_optimized)
      \<and> \<not> (validMessages messages \<and> nonBlankPrompt messages \<and> \<not> mockMode w))
   \<or> ((\<exists>contents. readContents (elements messages) = Inr contents)
      \<and> callModel_optimized w cl modelName messages maxTokens
          = (case fallbackLoop_optimized w (initializeClients_optimized w cl) (promptOf messages)
                    (elements messages) (withDefault maxTokens (JNum 200)) [] FALLBACK_MODELS of
               (r, cs) \<Rightarrow> \<lparr> result = r, calls = cs, state = initializeClients_optimized w cl \<rparr>))"
proof (cases "\<exists>m ms. messages = JArr (m # ms)")
  case False
  then have "callModel_optimized w cl modelName messages maxTokens
     = \<lparr> result = Inl (Error (str ''Invalid messages array: must be non-empty array'')),
         calls = [], state = cl \<rparr>"
    by (cases messages; cases "elements messages") (simp_all add: callModel_optimized_def)
  moreover have "\<not> validMessages messages"
    using False by (cases messages; cases "elements messages") (simp_all add: validMessages_def)
  ultimately show ?thesis
    by simp
next
  case True
  then obtain m ms where ms: "messages = JArr (m # ms)"
    by blast
  show ?thesis
  proof (cases "readContents (m # ms)")
    case (Inl e)
    then have "callModel_optimized w cl modelName messages maxTokens
       = \<lparr> result = Inl e, calls = [], state = initializeClients_optimized w cl \<rparr>"
      unfolding callModel_optimized_def ms jsval.case list.case Let_def by simp
    moreover have "\<not> validMessages messages"
      using Inl readContents_valid [of "m # ms"] by (auto simp: validMessages_def ms)
    ultimately show ?thesis
      by simp
  next
    case (Inr contents)
    have pr: "joinValues newline contents = promptOf messages"
      using readContents_Inr [OF Inr] by (simp add: promptOf_def ms)
    show ?thesis
    proof (cases "nonBlankPrompt messages \<and> \<not> mockMode w")
      case True
      then have "callModel_optimized w cl modelName messages maxTokens
          = (case fallbackLoop_optimized w (initializeClients_optimized w cl) (promptOf messages)
                    (elements messages) (withDefault maxTokens (JNum 200)) [] FALLBACK_MODELS of
               (r, cs) \<Rightarrow> \<lparr> result = r, calls = cs, state = initializeClients_optimized w cl \<rparr>)"
        unfolding callModel_optimized_def ms jsval.case list.case Let_def Inr sum.case pr
          nonBlankPrompt_test
        by (simp add: ms)
      moreover have "\<exists>contents. readContents (elements messages) = Inr contents"
        using Inr by (simp add: ms)
      ultimately show ?thesis
        by blast
    next
      case False
      then have "calls (callModel_optimized w cl modelName messages maxTokens) = []
        \<and> (\<forall>r. result (callModel_optimized w cl modelName messages maxTokens) = Inr r
              \<longrightarrow> r = mockResponse_optimized)"
        unfolding callModel_optimized_def ms jsval.case list.case Let_def Inr sum.case pr
          nonBlankPrompt_test
        by auto
      with False show ?thesis
        by blast
    qed
  qed
qed

lemma callModel_optimized_runs:
  assumes "validMessages messages" and "nonBlankPrompt messages" and "\<not> mockMode w"
  shows "callModel_optimized w cl modelName messages maxTokens
           = (case fallbackLoop_optimized w (initializeClients_optimized w cl) (promptOf messages)
                     (elements messages) (withDefault maxTokens (JNum 200)) [] FALLBACK_MODELS of
                (r, cs) \<Rightarrow> \<lparr> result = r, calls = cs, state = initializeClients_optimized w cl \<rparr>)"
  using callModel_optimized_steps [of w cl modelName messages maxTokens] assms by blast

lemma readContents_request:
  assumes "validMessages messages"
  shows "\<exists>contents. readContents (elements messages) = Inr contents"
  using assms readContents_valid [of "elements messages"]
  by (cases messages) (auto simp: validMessages_def)

lemma checkResponse_not_skipped [simp]: "checkResponse r \<noteq> Skipped"
  by (auto simp: checkResponse_def split: sum.splits)

lemma attemptProvider_optimized_skipped:
  "fst (attemptProvider_optimized w cl prompt ms n a) = Skipped \<longleftrightarrow> \<not> clientReady cl a"
  by (auto simp: attemptProvider_optimized_def clientReady_def split: prod.splits)

lemma attemptProvider_optimized_target:
  assumes "readContents ms = Inr contents"
  shows "map call_target (snd (attemptProvider_optimized w cl prompt ms n a))
           = (if clientReady cl a then [a] else [])"
  using assms
  by (auto simp: attemptProvider_optimized_def clientReady_def Let_def
        callGemini_def callGroq_def callOpenAI_def callOllama_def split: prod.splits)

lemma fallbackLoop_optimized_none:
  assumes "\<forall>a \<in> set as. \<not> succeeded (fst (attemptProvider_optimized w cl prompt ms n a))"
  shows "fallbackLoop_optimized w cl prompt ms n failed as
           = (Inl (aggregateFailure
                     (failed @ failureEntries (\<lambda>a. fst (attemptProvider_optimized w cl prompt ms n a)) as)),
              concat (map (\<lambda>a. snd (attemptProvider_optimized w cl prompt ms n a)) as))"
  using assms
proof (induction as arbitrary: failed)
  case Nil
  then show ?case by (simp add: failureEntries_def)
next
  case (Cons a as)
  obtain r cs where att: "attemptProvider_optimized w cl prompt ms n a = (r, cs)"
    by (cases "attemptProvider_optimized w cl prompt ms n a")
  with Cons.prems have "\<not> succeeded r" by simp
  with att Cons show ?case
    by (cases r) (simp_all add: failureEntries_def)
qed

lemma fallbackLoop_optimized_first:
  assumes "\<forall>a \<in> set pre. \<not> succeeded (fst (attemptProvider_optimized w cl prompt ms n a))"
    and "fst (attemptProvider_optimized w cl prompt ms n b) = Succeeded r"
  shows "fallbackLoop_optimized w cl prompt ms n failed (pre @ b # post)
           = (Inr r, concat (map (\<lambda>a. snd (attemptProvider_optimized w cl prompt ms n a)) (pre @ [b])))"
  using assms(1)
proof (induction pre arbitrary: failed)
  case Nil
  obtain cs where "attemptProvider_optimized w cl prompt ms n b = (Succeeded r, cs)"
    using assms(2) by (cases "attemptProvider_optimized w cl prompt ms n b") simp
  then show ?case by simp
next
  case (Cons a pre)
  obtain x cs where att: "attemptProvider_optimized w cl prompt ms n a = (x, cs)"
    by (cases "attemptProvider_optimized w cl prompt ms n a")
  with Cons.prems have "\<not> succeeded x" by simp
  with att Cons show ?case
    by (cases x) simp_all
qed

lemma targets_concat_optimized:
  assumes "readContents ms = Inr contents"
  shows "map call_target (concat (map (\<lambda>a. snd (attemptProvider_optimized w cl prompt ms n a)) as))
     = filter (clientReady cl) as"
  by (induction as) (simp_all add: attemptProvider_optimized_target [OF assms])

text \<open>The equations that evaluate the routers on the sample environment.\<close>

lemmas router_eval =
  callModel_def sampleWorld_def sampleMessages_def initial_state_def
  validateMessages_def validateMessage_def userMessage_def promptOf_def joinValues_def
  initializeClients_def keyPresent_def mockMode_def FALLBACK_MODELS_def attemptProvider_def
  tryChat_def tryOllama_def tryGemini_def validateResponse_def completion_def newline_def
  trim_def isWhiteSpace_def str_def Let_def

lemmas request_eval =
  validRequest_def validMessages_def budgetAccepted_def validMessage_def nonBlankPrompt_def
  sampleMessages_def userMessage_def
  promptOf_def joinValues_def newline_def trim_def isWhiteSpace_def str_def

lemmas optimized_eval =
  callModel_optimized_def initializeClients_optimized_def initial_clients_def keySet_def
  attemptProvider_optimized_def callGemini_def callGroq_def callOpenAI_def callOllama_def
  checkResponse_def validateResponse_optimized_def failureEntry_def aggregateFailure_def
  sampleWorld_def sampleMessages_def userMessage_def promptOf_def joinValues_def mockMode_def
  FALLBACK_MODELS_def completion_def newline_def trim_def isWhiteSpace_def str_def Let_def
  ToNumber_def

section \<open>The sanitizer: truncation of the summary\<close>

text \<open>
  C3 (as amended). For a \<open>summary\<close> string of 5000 code units the sanitized summary has
  \<open>min 3000 (length of the trimmed string)\<close> code units, because the string is trimmed
  before it is cut; it has exactly 3000 when the string neither starts nor ends with
  white space.
\<close>

theorem summary_truncation:
  assumes "getProp data (str ''summary'') = JStr s" and "length s = 5000"
  shows "length (summary (validateReview data)) = min 3000 (length (trim s))
         \<and> (\<not> isWhiteSpace (hd s) \<and> \<not> isWhiteSpace (last s)
              \<longrightarrow> length (summary (validateReview data)) = 3000)"
proof -
  have obj: "truthy data" "typeof data = str ''object''"
    using assms(1) getProp_defined_object [of data "str ''summary''"] by simp_all
  have len: "length (summary (validateReview data)) = min 3000 (length (trim s))"
    using assms(1) by (simp add: validateReview_object(1) [OF obj])
  have "length (summary (validateReview data)) = 3000"
    if "\<not> isWhiteSpace (hd s) \<and> \<not> isWhiteSpace (last s)"
  proof -
    have "s \<noteq> []"
      using assms(2) by auto
    with that have "trim s = s"
      by (simp add: trim_id)
    with len assms(2) show ?thesis
      by simp
  qed
  with len show ?thesis
    by blast
qed

theorem summary_truncation_witness:
  "getProp (JObj [(str ''summary'', JStr (replicate 5000 0x61))]) (str ''summary'')
      = JStr (replicate 5000 0x61)
   \<and> length (replicate 5000 (0x61 :: jschar)) = 5000
   \<and> \<not> isWhiteSpace (hd (replicate 5000 0x61)) \<and> \<not> isWhiteSpace (last (replicate 5000 0x61))
   \<and> length (summary (validateReview (JObj [(str ''summary'', JStr (replicate 5000 0x61))]))) = 3000"
proof -
  have a: "getProp (JObj [(str ''summary'', JStr (replicate 5000 0x61))]) (str ''summary'')
      = JStr (replicate 5000 0x61)"
    by simp
  have b: "length (replicate 5000 (0x61 :: jschar)) = 5000"
    by simp
  have c: "\<not> isWhiteSpace (hd (replicate 5000 0x61)) \<and> \<not> isWhiteSpace (last (replicate 5000 0x61))"
    by (simp add: isWhiteSpace_def)
  from summary_truncation [OF a b] a b c show ?thesis
    by blast
qed

text \<open>
  C3 as stated fails: a summary of 5000 spaces has 5000 code units and is sanitized to the
  empty string.
\<close>

theorem summary_blank_counterexample:
  "length (replicate 5000 (0x20 :: jschar)) = 5000
   \<and> length (summary (validateReview (JObj [(str ''summary'', JStr (replicate 5000 0x20))]))) \<noteq> 3000"
proof -
  have "trim (replicate 5000 (0x20 :: jschar)) = []"
    by (rule trim_blank) (simp add: isWhiteSpace_def)
  then show ?thesis
    by (simp add: validateReview_def substring_0)
qed

section \<open>The sanitizer: the invariants of the returned document\<close>

lemma keepEntry_fields:
  assumes "keepEntry payload c"
  shows "\<exists>f p. getProp c (str ''file'') = JStr f \<and> f \<noteq> [] \<and> trim f \<noteq> []
           \<and> getProp c payload = JStr p \<and> p \<noteq> [] \<and> trim p \<noteq> []"
proof -
  have "\<exists>f. v = JStr f \<and> f \<noteq> [] \<and> trim f \<noteq> []" if "nonBlankString v" for v
    using that by (cases v) (auto simp: nonBlankString_def trim_def)
  with assms show ?thesis
    unfolding keepEntry_def by blast
qed

lemma testCases_bound:
  "t \<in> set [substring s 0 500. JStr s \<leftarrow> tcs, length (trim s) > 0] \<Longrightarrow> length t \<le> 500"
  by (auto simp: substring_0 split: jsval.splits)

text \<open>
  C5. \<open>validateReview\<close> returns a document on every value (it is a total function: see the
  remark at its definition for why the body cannot raise), and the document satisfies
  the bounds: at most 100 comments, 30 patches and 20 test cases, a summary of at most
  3000 code units, test cases of at most 500, every retained comment and patch with a
  non-empty (also after trimming) string \<open>file\<close> and payload, and a status that is
  \<open>validated\<close> or \<open>default\<close>.
\<close>

theorem validateReview_total:
  "length (comments (validateReview data)) \<le> 100
   \<and> length (patches (validateReview data)) \<le> 30
   \<and> length (testCases (validateReview data)) \<le> 20
   \<and> length (summary (validateReview data)) \<le> 3000
   \<and> (\<forall>t \<in> set (testCases (validateReview data)). length t \<le> 500)
   \<and> (\<forall>c \<in> set (comments (validateReview data)).
         \<exists>f p. getProp c (str ''file'') = JStr f \<and> f \<noteq> [] \<and> trim f \<noteq> []
              \<and> getProp c (str ''comment'') = JStr p \<and> p \<noteq> [] \<and> trim p \<noteq> [])
   \<and> (\<forall>c \<in> set (patches (validateReview data)).
         \<exists>f p. getProp c (str ''file'') = JStr f \<and> f \<noteq> [] \<and> trim f \<noteq> []
              \<and> getProp c (str ''diff'') = JStr p \<and> p \<noteq> [] \<and> trim p \<noteq> [])
   \<and> status (validateReview data) \<in> {str ''validated'', str ''default''}"
proof (intro conjI)
  show "length (comments (validateReview data)) \<le> 100"
    by (simp add: validateReview_def createDefaultReview_def split: jsval.splits)
  show "length (patches (validateReview data)) \<le> 30"
    by (simp add: validateReview_def createDefaultReview_def split: jsval.splits)
  show "length (testCases (validateReview data)) \<le> 20"
    by (simp add: validateReview_def createDefaultReview_def split: jsval.splits)
  show "length (summary (validateReview data)) \<le> 3000"
    by (simp add: validateReview_def createDefaultReview_def str_def substring_0 split: jsval.splits)
  show "\<forall>t \<in> set (testCases (validateReview data)). length t \<le> 500"
    using testCases_bound
    by (auto simp: validateReview_def createDefaultReview_def split: jsval.splits dest!: in_set_takeD)
  show "\<forall>c \<in> set (comments (validateReview data)).
         \<exists>f p. getProp c (str ''file'') = JStr f \<and> f \<noteq> [] \<and> trim f \<noteq> []
              \<and> getProp c (str ''comment'') = JStr p \<and> p \<noteq> [] \<and> trim p \<noteq> []"
    using keepEntry_fields [of "str ''comment''"]
    by (auto simp: validateReview_def createDefaultReview_def split: jsval.splits dest!: in_set_takeD)
  show "\<forall>c \<in> set (patches (validateReview data)).
         \<exists>f p. getProp c (str ''file'') = JStr f \<and> f \<noteq> [] \<and> trim f \<noteq> []
              \<and> getProp c (str ''diff'') = JStr p \<and> p \<noteq> [] \<and> trim p \<noteq> []"
    using keepEntry_fields [of "str ''diff''"]
    by (auto simp: validateReview_def createDefaultReview_def split: jsval.splits dest!: in_set_takeD)
  show "status (validateReview data) \<in> {str ''validated'', str ''default''}"
    by (simp add: validateReview_def createDefaultReview_def)
qed

lemma sample_eval:
  "validateReview sampleDecoded =
     \<lparr> summary = str ''Looks fine.'',
       comments = [JObj [(str ''file'', JStr (str '' a.js '')), (str ''line'', JNum 42),
                          (str ''comment'', JStr (str '' ok ''))]],
       patches = [JObj [(str ''file'', JStr (str ''a.js'')), (str ''diff'', JStr (str ''+x'')),
                          (str ''hunk'', JNum 3)]],
       testCases = [str ''t1''],
       status = str ''validated'' \<rparr>"
  by (simp add: sampleDecoded_def validateReview_def keepEntry_def nonBlankString_def
      substring_def trim_def isWhiteSpace_def str_def)

text \<open>
  The theorem at \<open>sampleDecoded\<close>: one comment, one patch and one test case are retained,
  and each satisfies its bound.
\<close>

theorem validateReview_total_witness:
  "comments (validateReview sampleDecoded)
     = [JObj [(str ''file'', JStr (str '' a.js '')), (str ''line'', JNum 42),
              (str ''comment'', JStr (str '' ok ''))]]
   \<and> patches (validateReview sampleDecoded)
     = [JObj [(str ''file'', JStr (str ''a.js'')), (str ''diff'', JStr (str ''+x'')),
              (str ''hunk'', JNum 3)]]
   \<and> testCases (validateReview sampleDecoded) = [str ''t1'']
   \<and> length (comments (validateReview sampleDecoded)) \<le> 100
   \<and> length (patches (validateReview sampleDecoded)) \<le> 30
   \<and> length (testCases (validateReview sampleDecoded)) \<le> 20
   \<and> length (summary (validateReview sampleDecoded)) \<le> 3000
   \<and> length (hd (testCases (validateReview sampleDecoded))) \<le> 500
   \<and> (\<exists>f p. getProp (hd (comments (validateReview sampleDecoded))) (str ''file'') = JStr f
           \<and> f \<noteq> [] \<and> trim f \<noteq> []
           \<and> getProp (hd (comments (validateReview sampleDecoded))) (str ''comment'') = JStr p
           \<and> p \<noteq> [] \<and> trim p \<noteq> [])
   \<and> (\<exists>f p. getProp (hd (patches (validateReview sampleDecoded))) (str ''file'') = JStr f
           \<and> f \<noteq> [] \<and> trim f \<noteq> []
           \<and> getProp (hd (patches (validateReview sampleDecoded))) (str ''diff'') = JStr p
           \<and> p \<noteq> [] \<and> trim p \<noteq> [])
   \<and> status (validateReview sampleDecoded) = str ''validated''"
proof -
  have mem: "hd (comments (validateReview sampleDecoded)) \<in> set (comments (validateReview sampleDecoded))"
    "hd (patches (validateReview sampleDecoded)) \<in> set (patches (validateReview sampleDecoded))"
    "hd (testCases (validateReview sampleDecoded)) \<in> set (testCases (validateReview sampleDecoded))"
    by (simp_all add: sample_eval)
  have ev: "comments (validateReview sampleDecoded)
     = [JObj [(str ''file'', JStr (str '' a.js '')), (str ''line'', JNum 42),
              (str ''comment'', JStr (str '' ok ''))]]"
    "patches (validateReview sampleDecoded)
     = [JObj [(str ''file'', JStr (str ''a.js'')), (str ''diff'', JStr (str ''+x'')),
              (str ''hunk'', JNum 3)]]"
    "testCases (validateReview sampleDecoded) = [str ''t1'']"
    "status (validateReview sampleDecoded) = str ''validated''"
    by (simp_all add: sample_eval)
  from validateReview_total [of sampleDecoded] mem ev show ?thesis
    by blast
qed

section \<open>The sanitizer: retained entries are the original objects\<close>

text \<open>
  C10. The \<open>comments\<close> and \<open>patches\<close> of the sanitized document are the entries of the
  input arrays that pass the filter, in their order, cut to 100 and 30 entries: each
  retained entry is the input entry itself (extra properties kept, strings neither
  trimmed nor cut).
\<close>

theorem retained_entries_unchanged:
  "(getProp data (str ''comments'') = JArr cs \<longrightarrow>
      comments (validateReview data) = take 100 (filter (keepEntry (str ''comment'')) cs)
      \<and> subseq (comments (validateReview data)) cs
      \<and> set (comments (validateReview data)) \<subseteq> set cs)
   \<and> (getProp data (str ''patches'') = JArr ps \<longrightarrow>
      patches (validateReview data) = take 30 (filter (keepEntry (str ''diff'')) ps)
      \<and> subseq (patches (validateReview data)) ps
      \<and> set (patches (validateReview data)) \<subseteq> set ps)"
proof -
  have sub: "subseq (take n (filter P xs)) xs" "set (take n (filter P xs)) \<subseteq> set xs"
    for n P and xs :: "jsval list"
  proof -
    have "subseq (take n (filter P xs)) (filter P xs)"
      by (metis append_take_drop_id prefix_def prefix_imp_subseq)
    then show "subseq (take n (filter P xs)) xs"
      using subseq_filter_left subseq_order.order_trans by blast
    show "set (take n (filter P xs)) \<subseteq> set xs"
      by (auto dest: in_set_takeD)
  qed
  have c: "comments (validateReview data) = take 100 (filter (keepEntry (str ''comment'')) cs)"
    if "getProp data (str ''comments'') = JArr cs"
    using that getProp_defined_object [of data "str ''comments''"]
    by (simp add: validateReview_object(2))
  have p: "patches (validateReview data) = take 30 (filter (keepEntry (str ''diff'')) ps)"
    if "getProp data (str ''patches'') = JArr ps"
    using that getProp_defined_object [of data "str ''patches''"]
    by (simp add: validateReview_object(3))
  from c p sub show ?thesis
    by simp
qed

theorem retained_entries_unchanged_witness:
  "getProp sampleDecoded (str ''comments'')
     = JArr [JObj [(str ''file'', JStr (str '' a.js '')), (str ''line'', JNum 42),
                   (str ''comment'', JStr (str '' ok ''))],
             JObj [(str ''file'', JStr (str '''')), (str ''comment'', JStr (str ''ok''))],
             JObj [(str ''file'', JStr (str ''b.js'')), (str ''comment'', JStr (str ''''))],
             JStr (str ''not-an-object'')]
   \<and> getProp sampleDecoded (str ''patches'')
     = JArr [JNull,
             JObj [(str ''file'', JStr (str ''a.js'')), (str ''diff'', JStr (str ''+x'')),
                   (str ''hunk'', JNum 3)]]
   \<and> comments (validateReview sampleDecoded)
     = [JObj [(str ''file'', JStr (str '' a.js '')), (str ''line'', JNum 42),
              (str ''comment'', JStr (str '' ok ''))]]
   \<and> patches (validateReview sampleDecoded)
     = [JObj [(str ''file'', JStr (str ''a.js'')), (str ''diff'', JStr (str ''+x'')),
              (str ''hunk'', JNum 3)]]"
proof -
  let ?cs = "[JObj [(str ''file'', JStr (str '' a.js '')), (str ''line'', JNum 42),
                   (str ''comment'', JStr (str '' ok ''))],
             JObj [(str ''file'', JStr (str '''')), (str ''comment'', JStr (str ''ok''))],
             JObj [(str ''file'', JStr (str ''b.js'')), (str ''comment'', JStr (str ''''))],
             JStr (str ''not-an-object'')]"
  let ?ps = "[JNull,
             JObj [(str ''file'', JStr (str ''a.js'')), (str ''diff'', JStr (str ''+x'')),
                   (str ''hunk'', JNum 3)]]"
  have c: "getProp sampleDecoded (str ''comments'') = JArr ?cs"
    by (simp add: sampleDecoded_def)
  have p: "getProp sampleDecoded (str ''patches'') = JArr ?ps"
    by (simp add: sampleDecoded_def)
  have fc: "take 100 (filter (keepEntry (str ''comment'')) ?cs) = [hd ?cs]"
    by (simp add: keepEntry_def nonBlankString_def trim_def isWhiteSpace_def str_def)
  have fp: "take 30 (filter (keepEntry (str ''diff'')) ?ps) = [last ?ps]"
    by (simp add: keepEntry_def nonBlankString_def trim_def isWhiteSpace_def str_def)
  from retained_entries_unchanged [of sampleDecoded ?cs ?ps] c p
  have "comments (validateReview sampleDecoded) = take 100 (filter (keepEntry (str ''comment'')) ?cs)"
    and "patches (validateReview sampleDecoded) = take 30 (filter (keepEntry (str ''diff'')) ?ps)"
    by blast+
  with c p fc fp show ?thesis
    by simp
qed
section \<open>The routers: when an attempt succeeds\<close>

text \<open>
  In both modules an attempt succeeds exactly when the provider's answer to the request
  validates, and the response returned then carries the content the provider answered.
\<close>

lemma completion_content [simp]: "responseContent (completion v) = v"
  by (simp add: responseContent_def completion_def)

lemma valid_string: "nonBlankString (JStr s) \<longleftrightarrow> trim s \<noteq> []"
  by (simp add: nonBlankString_def)

lemma valid_truthy: "nonBlankString v \<Longrightarrow> truthy v"
  by (cases v) (auto simp: nonBlankString_def)

lemma getProp_object: "getProp v k \<noteq> JUndefined \<Longrightarrow> \<exists>kvs. v = JObj kvs"
  by (cases v) simp_all

lemma responseContent_object:
  "nonBlankString (responseContent response) \<Longrightarrow> \<exists>kvs. response = JObj kvs"
  by (cases response) (simp_all add: responseContent_def nonBlankString_def)

lemma validateResponse_iff:
  "validateResponse response name = None \<longleftrightarrow> nonBlankString (responseContent response)"
proof (cases "truthy response")
  case True
  then show ?thesis
    by (auto simp: validateResponse_def responseContent_def nonBlankString_def
          split: jsval.splits list.splits)
next
  case False
  then have "\<not> nonBlankString (responseContent response)"
    using responseContent_object [of response] by auto
  with False show ?thesis
    by (simp add: validateResponse_def)
qed

lemma tryGemini_answer:
  "(validAnswer w (GeminiCall (model a) prompt)
      \<longrightarrow> tryGemini w a prompt
            = Succeeded (completion (answerContent w (GeminiCall (model a) prompt))))
   \<and> (\<not> validAnswer w (GeminiCall (model a) prompt) \<longrightarrow> \<not> succeeded (tryGemini w a prompt))"
  by (cases "gemini_sdk w (GeminiCall (model a) prompt)")
     (auto simp: validAnswer_def answerContent_def tryGemini_def nonBlankString_def)

lemma tryChat_answer:
  "(nonBlankString (case answer of Resolves response \<Rightarrow> responseContent response
                                   | Rejects e \<Rightarrow> JUndefined)
      \<longrightarrow> (\<exists>response. answer = Resolves response \<and> tryChat answer name = Succeeded response))
   \<and> (\<not> nonBlankString (case answer of Resolves response \<Rightarrow> responseContent response
                                      | Rejects e \<Rightarrow> JUndefined)
      \<longrightarrow> \<not> succeeded (tryChat answer name))"
proof (cases answer)
  case (Rejects e)
  then show ?thesis
    by (simp add: tryChat_def nonBlankString_def)
next
  case (Resolves response)
  then show ?thesis
    using validateResponse_iff [of response name]
    by (cases "validateResponse response name") (auto simp: tryChat_def)
qed

lemma tryOllama_answer:
  "(nonBlankString (answerContent w (OllamaCall u m p s))
      \<longrightarrow> tryOllama (fetch w (OllamaCall u m p s))
            = Succeeded (completion (answerContent w (OllamaCall u m p s))))
   \<and> (\<not> nonBlankString (answerContent w (OllamaCall u m p s))
      \<longrightarrow> \<not> succeeded (tryOllama (fetch w (OllamaCall u m p s))))"
proof (cases "fetch w (OllamaCall u m p s)")
  case (FetchRejects e)
  then show ?thesis
    by (simp add: answerContent_def tryOllama_def nonBlankString_def)
next
  case (HttpResponse ok code body)
  show ?thesis
  proof (cases body)
    case (Inl e)
    with HttpResponse show ?thesis
      by (simp add: answerContent_def tryOllama_def nonBlankString_def)
  next
    case (Inr data)
    with HttpResponse show ?thesis
      by (cases "getProp data (str ''response'')")
         (auto simp: answerContent_def tryOllama_def nonBlankString_def)
  qed
qed

lemma attemptProvider_answer:
  assumes "c \<in> set (snd (attemptProvider w st prompt b a))"
  shows "(validAnswer w c
            \<longrightarrow> (\<exists>r. fst (attemptProvider w st prompt b a) = Succeeded r
                     \<and> responseContent r = answerContent w c))
       \<and> (\<not> validAnswer w c \<longrightarrow> \<not> succeeded (fst (attemptProvider w st prompt b a)))"
proof -
  consider (gemini) "provider a = str ''gemini'' \<and> gemini st"
    | (groq) "\<not> (provider a = str ''gemini'' \<and> gemini st)" "provider a = str ''groq'' \<and> groq st"
    | (openai) "\<not> (provider a = str ''gemini'' \<and> gemini st)"
        "\<not> (provider a = str ''groq'' \<and> groq st)" "provider a = str ''openai'' \<and> openai st"
    | (ollama) "\<not> (provider a = str ''gemini'' \<and> gemini st)"
        "\<not> (provider a = str ''groq'' \<and> groq st)" "\<not> (provider a = str ''openai'' \<and> openai st)"
        "provider a = str ''ollama''"
    | (skipped) "\<not> (provider a = str ''gemini'' \<and> gemini st)"
        "\<not> (provider a = str ''groq'' \<and> groq st)" "\<not> (provider a = str ''openai'' \<and> openai st)"
        "provider a \<noteq> str ''ollama''"
    by blast
  then show ?thesis
  proof cases
    case gemini
    then have att: "attemptProvider w st prompt b a
                     = (tryGemini w a prompt, [GeminiCall (model a) prompt])"
      by (simp add: attemptProvider_def)
    with assms have c: "c = GeminiCall (model a) prompt"
      by simp
    show ?thesis
      using tryGemini_answer [of w a prompt] by (auto simp: att c)
  next
    case groq
    define c' where "c' = ChatCall (str ''groq'') (model a) (userMessage prompt)
                            (Math_min b (JNum 2000)) (Some 0.7)"
    from groq have att: "attemptProvider w st prompt b a
                          = (tryChat (groq_sdk w c') (str ''Groq''), [c'])"
      by (simp add: attemptProvider_def Let_def c'_def)
    with assms have c: "c = c'"
      by simp
    have ac: "answerContent w c'
               = (case groq_sdk w c' of Resolves response \<Rightarrow> responseContent response
                                       | Rejects e \<Rightarrow> JUndefined)"
      by (simp add: answerContent_def c'_def)
    show ?thesis
      using tryChat_answer [of "groq_sdk w c'" "str ''Groq''"]
      by (auto simp: att c validAnswer_def ac)
  next
    case openai
    define c' where "c' = ChatCall (str ''openai'') (model a) (userMessage prompt)
                            (Math_min b (JNum 2000)) (Some 0.7)"
    from openai have att: "attemptProvider w st prompt b a
                          = (tryChat (openai_sdk w c') (str ''OpenAI''), [c'])"
      by (simp add: attemptProvider_def Let_def c'_def)
    with assms have c: "c = c'"
      by simp
    have ac: "answerContent w c'
               = (case openai_sdk w c' of Resolves response \<Rightarrow> responseContent response
                                         | Rejects e \<Rightarrow> JUndefined)"
      by (simp add: answerContent_def c'_def)
    show ?thesis
      using tryChat_answer [of "openai_sdk w c'" "str ''OpenAI''"]
      by (auto simp: att c validAnswer_def ac)
  next
    case ollama
    then have att: "attemptProvider w st prompt b a
                     = (tryOllama (fetch w (OllamaCall (ollamaUrl w) (model a) prompt (Some False))),
                        [OllamaCall (ollamaUrl w) (model a) prompt (Some False)])"
      by (simp add: attemptProvider_def Let_def)
    with assms have c: "c = OllamaCall (ollamaUrl w) (model a) prompt (Some False)"
      by simp
    show ?thesis
      using tryOllama_answer [of w "ollamaUrl w" "model a" prompt "Some False"]
      by (auto simp: att c validAnswer_def)
  next
    case skipped
    then have "attemptProvider w st prompt b a = (Skipped, [])"
      by (auto simp: attemptProvider_def)
    with assms show ?thesis
      by simp
  qed
qed

lemma single_target: "map call_target cs = [a] \<Longrightarrow> \<exists>c. cs = [c]"
  by (cases cs) simp_all

lemma attemptProvider_succeeded_iff:
  "succeeded (fst (attemptProvider w st prompt b a))
     \<longleftrightarrow> (\<exists>c \<in> set (snd (attemptProvider w st prompt b a)). validAnswer w c)"
proof (cases "clientReady st a")
  case True
  then obtain c where c: "snd (attemptProvider w st prompt b a) = [c]"
    using attemptProvider_target [of w st prompt b a] single_target by auto
  then have "c \<in> set (snd (attemptProvider w st prompt b a))"
    by simp
  from attemptProvider_answer [OF this] show ?thesis
    by (auto simp: c)
next
  case False
  then have "fst (attemptProvider w st prompt b a) = Skipped"
    by (simp add: attemptProvider_skipped)
  moreover have "snd (attemptProvider w st prompt b a) = []"
    using attemptProvider_target [of w st prompt b a] False by simp
  ultimately show ?thesis
    by simp
qed

lemma attemptProvider_content:
  "fst (attemptProvider w st prompt b a) = Succeeded r \<Longrightarrow> nonBlankString (responseContent r)"
proof -
  assume s: "fst (attemptProvider w st prompt b a) = Succeeded r"
  then have "succeeded (fst (attemptProvider w st prompt b a))"
    by simp
  then obtain c where c: "c \<in> set (snd (attemptProvider w st prompt b a))" and v: "validAnswer w c"
    by (auto simp: attemptProvider_succeeded_iff)
  from attemptProvider_answer [OF c] v s show ?thesis
    by (auto simp: validAnswer_def)
qed

text \<open>The same for \<open>modelRouter_optimized.js\<close>.\<close>

lemma validateResponse_optimized_iff:
  "validateResponse_optimized response = Inr True \<longleftrightarrow> nonBlankString (responseContent response)"
proof
  assume "validateResponse_optimized response = Inr True"
  then show "nonBlankString (responseContent response)"
    by (auto simp: validateResponse_optimized_def responseContent_def nonBlankString_def
          dest!: readProp_Inr split: if_splits jsval.splits list.splits sum.splits)
next
  assume v: "nonBlankString (responseContent response)"
  then obtain kvs where r: "response = JObj kvs"
    using responseContent_object by blast
  from v obtain c cs where ch: "getProp response (str ''choices'') = JArr (c # cs)"
    by (cases "getProp response (str ''choices'')"; cases "elements (getProp response (str ''choices''))")
       (auto simp: responseContent_def nonBlankString_def)
  with v obtain s where s: "getProp (getProp c (str ''message'')) (str ''content'') = JStr s"
    and t: "trim s \<noteq> []"
    by (cases "getProp (getProp c (str ''message'')) (str ''content'')")
       (auto simp: responseContent_def nonBlankString_def)
  then obtain mkvs where m: "getProp c (str ''message'') = JObj mkvs"
    using getProp_object [of "getProp c (str ''message'')" "str ''content''"] by auto
  then obtain ckvs where c: "c = JObj ckvs"
    using getProp_object [of c "str ''message''"] by auto
  have rp: "readProp c ''message'' = Inr (JObj mkvs)"
    using m by (simp add: c)
  have ne: "s \<noteq> []"
    using t by auto
  show "validateResponse_optimized response = Inr True"
    unfolding validateResponse_optimized_def
    using ch rp s t ne m by (simp add: r)
qed

lemma checkResponse_answer:
  "(nonBlankString (case x of Inr response \<Rightarrow> responseContent response | Inl e \<Rightarrow> JUndefined)
      \<longrightarrow> (\<exists>response. x = Inr response \<and> checkResponse x = Succeeded response))
   \<and> (\<not> nonBlankString (case x of Inr response \<Rightarrow> responseContent response | Inl e \<Rightarrow> JUndefined)
      \<longrightarrow> \<not> succeeded (checkResponse x))"
proof (cases x)
  case (Inl e)
  then show ?thesis
    by (simp add: checkResponse_def nonBlankString_def)
next
  case (Inr response)
  show ?thesis
  proof (cases "validateResponse_optimized response")
    case (Inl e)
    then have "\<not> nonBlankString (responseContent response)"
      using validateResponse_optimized_iff [of response] by auto
    with Inl Inr show ?thesis
      by (simp add: checkResponse_def)
  next
    case ok: (Inr ok)
    with Inr show ?thesis
      using validateResponse_optimized_iff [of response] by (auto simp: checkResponse_def)
  qed
qed

lemma callGemini_answer:
  "snd (callGemini w m prompt) = [GeminiCall m prompt]
   \<and> (case fst (callGemini w m prompt) of
         Inr response \<Rightarrow> responseContent response | Inl e \<Rightarrow> JUndefined)
       = answerContent w (GeminiCall m prompt)"
  by (cases "gemini_sdk w (GeminiCall m prompt)")
     (simp_all add: callGemini_def Let_def answerContent_def)

lemma callGroq_answer:
  assumes "readContents ms = Inr contents"
  shows "\<exists>c. snd (callGroq w m ms b) = [c]
     \<and> (case fst (callGroq w m ms b) of
          Inr response \<Rightarrow> responseContent response | Inl e \<Rightarrow> JUndefined)
        = answerContent w c"
proof -
  define c where "c = ChatCall (str ''groq'') m (userMessage (joinValues newline contents))
                        (Math_min (ToNumber (StringToNumber w) b) (JNum 2000)) None"
  have "snd (callGroq w m ms b) = [c]
     \<and> (case fst (callGroq w m ms b) of
          Inr response \<Rightarrow> responseContent response | Inl e \<Rightarrow> JUndefined)
        = answerContent w c"
    using assms
    by (cases "groq_sdk w c") (simp_all add: callGroq_def Let_def answerContent_def c_def)
  then show ?thesis
    by blast
qed

lemma callOpenAI_answer:
  "\<exists>c. snd (callOpenAI w m ms b) = [c]
     \<and> (case fst (callOpenAI w m ms b) of
          Inr response \<Rightarrow> responseContent response | Inl e \<Rightarrow> JUndefined)
        = answerContent w c"
proof -
  define c where "c = ChatCall (str ''openai'') m (JArr ms)
                        (Math_min (ToNumber (StringToNumber w) b) (JNum 2000)) None"
  have "snd (callOpenAI w m ms b) = [c]
     \<and> (case fst (callOpenAI w m ms b) of
          Inr response \<Rightarrow> responseContent response | Inl e \<Rightarrow> JUndefined)
        = answerContent w c"
    by (cases "openai_sdk w c") (simp_all add: callOpenAI_def Let_def answerContent_def c_def)
  then show ?thesis
    by blast
qed

text \<open>
  Ollama: the helper replaces a falsy \<open>data.response\<close> by the empty string, which does not
  validate either.
\<close>

lemma callOllama_answer:
  "snd (callOllama w m prompt) = [OllamaCall (ollamaUrl w) m prompt None]
   \<and> (nonBlankString (case fst (callOllama w m prompt) of
         Inr response \<Rightarrow> responseContent response | Inl e \<Rightarrow> JUndefined)
       \<longleftrightarrow> nonBlankString (answerContent w (OllamaCall (ollamaUrl w) m prompt None)))
   \<and> (nonBlankString (answerContent w (OllamaCall (ollamaUrl w) m prompt None))
       \<longrightarrow> (case fst (callOllama w m prompt) of
         Inr response \<Rightarrow> responseContent response | Inl e \<Rightarrow> JUndefined)
           = answerContent w (OllamaCall (ollamaUrl w) m prompt None))"
proof (cases "fetch w (OllamaCall (ollamaUrl w) m prompt None)")
  case (FetchRejects e)
  then show ?thesis
    by (simp add: callOllama_def Let_def answerContent_def nonBlankString_def)
next
  case (HttpResponse ok code body)
  show ?thesis
  proof (cases body)
    case (Inl e)
    with HttpResponse show ?thesis
      by (simp add: callOllama_def Let_def answerContent_def nonBlankString_def)
  next
    case (Inr data)
    show ?thesis
    proof (cases "readProp data ''response''")
      case e: (Inl e)
      then have "getProp data (str ''response'') = JUndefined"
        by (cases data) simp_all
      with e Inr HttpResponse show ?thesis
        by (simp add: callOllama_def Let_def answerContent_def nonBlankString_def)
    next
      case r: (Inr r)
      then have g: "getProp data (str ''response'') = r"
        by (auto dest: readProp_Inr)
      show ?thesis
        using valid_truthy [of r]
        by (auto simp: callOllama_def Let_def answerContent_def HttpResponse Inr r g
              nonBlankString_def)
    qed
  qed
qed

lemma attemptProvider_optimized_answer:
  assumes "readContents ms = Inr contents"
    and "c \<in> set (snd (attemptProvider_optimized w cl prompt ms b a))"
  shows "(validAnswer w c
            \<longrightarrow> (\<exists>r. fst (attemptProvider_optimized w cl prompt ms b a) = Succeeded r
                     \<and> responseContent r = answerContent w c))
       \<and> (\<not> validAnswer w c \<longrightarrow> \<not> succeeded (fst (attemptProvider_optimized w cl prompt ms b a)))"
proof -
  consider (gemini) "provider a = str ''gemini'' \<and> gemini cl"
    | (groq) "\<not> (provider a = str ''gemini'' \<and> gemini cl)" "provider a = str ''groq'' \<and> groq cl"
    | (openai) "\<not> (provider a = str ''gemini'' \<and> gemini cl)"
        "\<not> (provider a = str ''groq'' \<and> groq cl)" "provider a = str ''openai'' \<and> openai cl"
    | (ollama) "\<not> (provider a = str ''gemini'' \<and> gemini cl)"
        "\<not> (provider a = str ''groq'' \<and> groq cl)" "\<not> (provider a = str ''openai'' \<and> openai cl)"
        "provider a = str ''ollama''"
    | (skipped) "\<not> (provider a = str ''gemini'' \<and> gemini cl)"
        "\<not> (provider a = str ''groq'' \<and> groq cl)" "\<not> (provider a = str ''openai'' \<and> openai cl)"
        "provider a \<noteq> str ''ollama''"
    by blast
  then show ?thesis
  proof cases
    case gemini
    obtain x cs where x: "callGemini w (model a) prompt = (x, cs)"
      by (cases "callGemini w (model a) prompt")
    with gemini have att: "attemptProvider_optimized w cl prompt ms b a = (checkResponse x, cs)"
      by (simp add: attemptProvider_optimized_def)
    from callGemini_answer [of w "model a" prompt] x assms(2) att
    have "(case x of Inr response \<Rightarrow> responseContent response | Inl e \<Rightarrow> JUndefined)
            = answerContent w c"
      by simp
    with checkResponse_answer [of x] show ?thesis
      by (auto simp: att validAnswer_def)
  next
    case groq
    obtain x cs where x: "callGroq w (model a) ms b = (x, cs)"
      by (cases "callGroq w (model a) ms b")
    with groq have att: "attemptProvider_optimized w cl prompt ms b a = (checkResponse x, cs)"
      by (simp add: attemptProvider_optimized_def)
    from callGroq_answer [OF assms(1), of w "model a" b] x assms(2) att
    have "(case x of Inr response \<Rightarrow> responseContent response | Inl e \<Rightarrow> JUndefined)
            = answerContent w c"
      by auto
    with checkResponse_answer [of x] show ?thesis
      by (auto simp: att validAnswer_def)
  next
    case openai
    obtain x cs where x: "callOpenAI w (model a) ms b = (x, cs)"
      by (cases "callOpenAI w (model a) ms b")
    with openai have att: "attemptProvider_optimized w cl prompt ms b a = (checkResponse x, cs)"
      by (simp add: attemptProvider_optimized_def)
    from callOpenAI_answer [of w "model a" ms b] x assms(2) att
    have "(case x of Inr response \<Rightarrow> responseContent response | Inl e \<Rightarrow> JUndefined)
            = answerContent w c"
      by auto
    with checkResponse_answer [of x] show ?thesis
      by (auto simp: att validAnswer_def)
  next
    case ollama
    obtain x cs where x: "callOllama w (model a) prompt = (x, cs)"
      by (cases "callOllama w (model a) prompt")
    with ollama have att: "attemptProvider_optimized w cl prompt ms b a = (checkResponse x, cs)"
      by (simp add: attemptProvider_optimized_def)
    from callOllama_answer [of w "model a" prompt] x assms(2) att
    have c: "c = OllamaCall (ollamaUrl w) (model a) prompt None"
      and v: "nonBlankString (case x of Inr response \<Rightarrow> responseContent response | Inl e \<Rightarrow> JUndefined)
                \<longleftrightarrow> validAnswer w c"
      and e: "validAnswer w c
                \<longrightarrow> (case x of Inr response \<Rightarrow> responseContent response | Inl e \<Rightarrow> JUndefined)
                     = answerContent w c"
      by (simp_all add: validAnswer_def)
    with checkResponse_answer [of x] show ?thesis
      by (auto simp: att)
  next
    case skipped
    then have "attemptProvider_optimized w cl prompt ms b a = (Skipped, [])"
      by (auto simp: attemptProvider_optimized_def)
    with assms show ?thesis
      by simp
  qed
qed

lemma attemptProvider_optimized_succeeded_iff:
  assumes "readContents ms = Inr contents"
  shows "succeeded (fst (attemptProvider_optimized w cl prompt ms b a))
     \<longleftrightarrow> (\<exists>c \<in> set (snd (attemptProvider_optimized w cl prompt ms b a)). validAnswer w c)"
proof (cases "clientReady cl a")
  case True
  then obtain c where c: "snd (attemptProvider_optimized w cl prompt ms b a) = [c]"
    using attemptProvider_optimized_target [OF assms, of w cl prompt b a] single_target by auto
  then have "c \<in> set (snd (attemptProvider_optimized w cl prompt ms b a))"
    by simp
  from attemptProvider_optimized_answer [OF assms this] show ?thesis
    by (auto simp: c)
next
  case False
  then have "fst (attemptProvider_optimized w cl prompt ms b a) = Skipped"
    by (simp add: attemptProvider_optimized_skipped)
  moreover have "snd (attemptProvider_optimized w cl prompt ms b a) = []"
    using attemptProvider_optimized_target [OF assms, of w cl prompt b a] False by simp
  ultimately show ?thesis
    by simp
qed

lemma checkResponse_content:
  "checkResponse x = Succeeded r \<Longrightarrow> nonBlankString (responseContent r)"
  using checkResponse_answer [of x] by (cases x) auto

lemma attemptProvider_optimized_content:
  "fst (attemptProvider_optimized w cl prompt ms n a) = Succeeded r
     \<Longrightarrow> nonBlankString (responseContent r)"
  by (auto simp: attemptProvider_optimized_def dest: checkResponse_content
        split: if_splits prod.splits)

section \<open>The router: input validation\<close>

text \<open>
  A request that is not valid (\<open>messages\<close> not a non-empty array, a message without a
  non-empty string content, a content of more than 100000 code units, or \<open>maxTokens\<close> not
  a positive number) makes \<open>callModel\<close> of \<open>modelRouter.js\<close> throw one of the Errors of
  its input validation, with no request issued and the module's variables untouched,
  unless the budget is \<open>NaN\<close> or \<open>Infinity\<close>.
\<close>

lemma invalid_input_rejected:
  assumes "\<not> validRequest messages maxTokens" and "maxTokens \<noteq> JNaN" and "maxTokens \<noteq> JInfinity"
  shows "\<exists>e. e \<in> set inputValidationErrors
             \<and> callModel w st modelName messages maxTokens
                 = \<lparr> result = Inl e, calls = [], state = st \<rparr>"
proof (cases "validMessages messages")
  case False
  then obtain e where e: "validateMessages messages = Some e"
    by (cases "validateMessages messages") (auto simp: validateMessages_valid)
  with False show ?thesis
    using validateMessages_errors [OF e] by (simp add: callModel_steps)
next
  case True
  then have "\<not> (case withDefault maxTokens (JNum 200) of JNum n \<Rightarrow> n > 0 | _ \<Rightarrow> False)"
    using assms(1) by (simp add: validRequest_def validMessages_def)
  then have "\<not> budgetAccepted maxTokens"
    using assms(2,3)
    by (cases "withDefault maxTokens (JNum 200)"; cases maxTokens)
       (auto simp: budgetAccepted_def)
  with True show ?thesis
    by (simp add: callModel_steps inputValidationErrors_def)
qed

lemma invalid_input_rejected_examples:
  "\<not> validRequest (JArr []) (JNum 200)
   \<and> \<not> validRequest (JArr [JNull]) (JNum 200)
   \<and> \<not> validRequest (userMessage []) (JNum 200)
   \<and> \<not> validRequest sampleMessages (JNum 0)
   \<and> \<not> validRequest sampleMessages (JStr (str ''200''))
   \<and> callModel sampleWorld initial_state (JStr (str ''gemini-2.0-pro'')) (JArr []) (JNum 200)
       = \<lparr> result = Inl (Error (str ''messages must be a non-empty array'')), calls = [],
           state = initial_state \<rparr>
   \<and> (\<exists>e. e \<in> set inputValidationErrors
          \<and> callModel sampleWorld initial_state (JStr (str ''gemini-2.0-pro'')) (JArr [JNull]) (JNum 200)
              = \<lparr> result = Inl e, calls = [], state = initial_state \<rparr>)
   \<and> (\<exists>e. e \<in> set inputValidationErrors
          \<and> callModel sampleWorld initial_state (JStr (str ''gemini-2.0-pro'')) (userMessage []) (JNum 200)
              = \<lparr> result = Inl e, calls = [], state = initial_state \<rparr>)
   \<and> (\<exists>e. e \<in> set inputValidationErrors
          \<and> callModel sampleWorld initial_state (JStr (str ''gemini-2.0-pro'')) sampleMessages (JNum 0)
              = \<lparr> result = Inl e, calls = [], state = initial_state \<rparr>)
   \<and> (\<exists>e. e \<in> set inputValidationErrors
          \<and> callModel sampleWorld initial_state (JStr (str ''gemini-2.0-pro'')) sampleMessages
                (JStr (str ''200''))
              = \<lparr> result = Inl e, calls = [], state = initial_state \<rparr>)"
proof -
  have a: "\<not> validRequest (JArr []) (JNum 200)"
    and b: "\<not> validRequest (JArr [JNull]) (JNum 200)"
    and c: "\<not> validRequest (userMessage []) (JNum 200)"
    and d: "\<not> validRequest sampleMessages (JNum 0)"
    and e: "\<not> validRequest sampleMessages (JStr (str ''200''))"
    by (simp_all add: request_eval)
  have f: "callModel sampleWorld initial_state (JStr (str ''gemini-2.0-pro'')) (JArr []) (JNum 200)
       = \<lparr> result = Inl (Error (str ''messages must be a non-empty array'')), calls = [],
           state = initial_state \<rparr>"
    by (simp add: callModel_def validateMessages_def)
  show ?thesis
    using a b c d e f
      invalid_input_rejected [OF b, of sampleWorld initial_state "JStr (str ''gemini-2.0-pro'')"]
      invalid_input_rejected [OF c, of sampleWorld initial_state "JStr (str ''gemini-2.0-pro'')"]
      invalid_input_rejected [OF d, of sampleWorld initial_state "JStr (str ''gemini-2.0-pro'')"]
      invalid_input_rejected [OF e, of sampleWorld initial_state "JStr (str ''gemini-2.0-pro'')"]
    by simp
qed

text \<open>
  C6. The claim fails at the budget \<open>NaN\<close>, which is not a positive number: the test
  \<open>typeof maxTokens !== "number" || maxTokens < 1\<close> lets it through (\<open>typeof NaN\<close> is
  \<open>"number"\<close> and \<open>NaN < 1\<close> is false), so that \<open>callModel\<close> of \<open>modelRouter.js\<close> throws no
  input-validation Error, constructs the clients and issues requests to Groq and to
  OpenAI with \<open>max_tokens: NaN\<close>.
\<close>

theorem nan_budget_not_rejected:
  "\<not> validRequest sampleMessages JNaN
   \<and> typeof JNaN = str ''number'' \<and> \<not> lessThan JNaN 1
   \<and> callModel sampleWorld initial_state (JStr (str ''gemini-2.0-pro'')) sampleMessages JNaN
       = \<lparr> result = Inr (completion (JStr (str ''Hello!''))),
           calls = [ChatCall (str ''groq'') (str ''llama-3.1-70b-versatile'')
                      (userMessage (str ''hello'')) JNaN (Some 0.7),
                    ChatCall (str ''openai'') (str ''gpt-4.1-mini'')
                      (userMessage (str ''hello'')) JNaN (Some 0.7)],
           state = \<lparr> gemini = False, groq = True, openai = True, clientsInitialized = True \<rparr> \<rparr>"
  by (simp add: router_eval validRequest_def)

text \<open>
  So the call with the budget \<open>NaN\<close> throws none of the Errors of the input validation,
  and both Groq and OpenAI are invoked, each with \<open>max_tokens: NaN\<close>.
\<close>

theorem nan_budget_not_rejected_witness:
  "(\<nexists>e. e \<in> set inputValidationErrors
         \<and> result (callModel sampleWorld initial_state (JStr (str ''gemini-2.0-pro''))
                     sampleMessages JNaN) = Inl e)
   \<and> map call_target
         (calls (callModel sampleWorld initial_state (JStr (str ''gemini-2.0-pro''))
                   sampleMessages JNaN))
       = [\<lparr> provider = str ''groq'', model = str ''llama-3.1-70b-versatile'' \<rparr>,
          \<lparr> provider = str ''openai'', model = str ''gpt-4.1-mini'' \<rparr>]
   \<and> map call_max_tokens
         (calls (callModel sampleWorld initial_state (JStr (str ''gemini-2.0-pro''))
                   sampleMessages JNaN))
       = [Some JNaN, Some JNaN]"
  using nan_budget_not_rejected by simp

section \<open>The router: mock mode\<close>

text \<open>
  C9 (as amended). For a valid request whose contents, joined, are not blank (the
  invariant of a GenerationRequest), \<open>callModel\<close> of \<open>modelRouter.js\<close> in mock mode returns
  the fixed placeholder and issues no request to a provider.
\<close>

theorem mock_mode_placeholder:
  assumes "validRequest messages maxTokens" and "nonBlankPrompt messages" and "mockMode w"
  shows "callModel w st modelName messages maxTokens
           = \<lparr> result = Inr (completion (JStr (str ''Mock response (MOCK_MODE=true)''))),
               calls = [], state = initializeClients w st \<rparr>"
proof -
  have "validMessages messages" and "budgetAccepted maxTokens"
    using assms(1) by (simp_all add: validRequest_messages validRequest_budget)
  then show ?thesis
    using assms(2,3) by (simp add: callModel_steps mockResponse_def)
qed

theorem mock_mode_placeholder_witness:
  "validRequest sampleMessages (JNum 50) \<and> nonBlankPrompt sampleMessages
   \<and> mockMode (sampleWorld \<lparr> MOCK_MODE := Some (str ''true'') \<rparr>)
   \<and> callModel (sampleWorld \<lparr> MOCK_MODE := Some (str ''true'') \<rparr>) initial_state
         (JStr (str ''gemini-2.0-pro'')) sampleMessages (JNum 50)
       = \<lparr> result = Inr (completion (JStr (str ''Mock response (MOCK_MODE=true)''))),
           calls = [],
           state = \<lparr> gemini = False, groq = True, openai = True, clientsInitialized = True \<rparr> \<rparr>"
proof -
  have a: "validRequest sampleMessages (JNum 50)" and b: "nonBlankPrompt sampleMessages"
    by (simp_all add: request_eval)
  have c: "mockMode (sampleWorld \<lparr> MOCK_MODE := Some (str ''true'') \<rparr>)"
    by (simp add: mockMode_def)
  have d: "initializeClients (sampleWorld \<lparr> MOCK_MODE := Some (str ''true'') \<rparr>) initial_state
             = \<lparr> gemini = False, groq = True, openai = True, clientsInitialized = True \<rparr>"
    by (simp add: initializeClients_def initial_state_def sampleWorld_def keyPresent_def
        trim_def isWhiteSpace_def str_def)
  show ?thesis
    using a b c mock_mode_placeholder [OF a b c, of initial_state "JStr (str ''gemini-2.0-pro'')"]
    by (simp add: d)
qed

text \<open>
  C9 as stated fails: the test for an empty prompt comes before the test of the mock
  flag, so a valid request whose only content is a space throws in mock mode.
\<close>

theorem mock_mode_blank_counterexample:
  "validRequest (userMessage (str '' '')) (JNum 200)
   \<and> mockMode (sampleWorld \<lparr> MOCK_MODE := Some (str ''true'') \<rparr>)
   \<and> result (callModel (sampleWorld \<lparr> MOCK_MODE := Some (str ''true'') \<rparr>) initial_state
         (JStr (str ''gemini-2.0-pro'')) (userMessage (str '' '')) (JNum 200))
       = Inl (Error (str ''Empty prompt generated from messages''))"
  by (simp add: router_eval validRequest_def validMessage_def)

section \<open>The router: the token budget\<close>

lemma attemptProvider_budget:
  assumes "c \<in> set (snd (attemptProvider w st prompt b a))"
  shows "(provider (call_target c) = str ''groq'' \<or> provider (call_target c) = str ''openai''
            \<longrightarrow> call_max_tokens c = Some (Math_min b (JNum 2000)))
       \<and> (provider (call_target c) = str ''gemini'' \<or> provider (call_target c) = str ''ollama''
            \<longrightarrow> call_max_tokens c = None)
       \<and> provider (call_target c) \<in> {str ''gemini'', str ''groq'', str ''openai'', str ''ollama''}"
  using assms by (auto simp: attemptProvider_def Let_def split: if_splits)

lemma fallbackLoop_calls:
  "c \<in> set (snd (fallbackLoop w st prompt b as))
     \<Longrightarrow> \<exists>a \<in> set as. c \<in> set (snd (attemptProvider w st prompt b a))"
proof (induction as)
  case Nil
  then show ?case by simp
next
  case (Cons a as)
  obtain r cs where att: "attemptProvider w st prompt b a = (r, cs)"
    by (cases "attemptProvider w st prompt b a")
  obtain r' cs' where rest: "fallbackLoop w st prompt b as = (r', cs')"
    by (cases "fallbackLoop w st prompt b as")
  from Cons.prems att rest have "c \<in> set cs \<or> c \<in> set cs'"
    by (cases r) auto
  with Cons.IH att rest show ?case
    by auto
qed

lemma callModel_calls:
  assumes "c \<in> set (calls (callModel w st modelName messages maxTokens))"
  shows "budgetAccepted maxTokens
       \<and> (\<exists>a \<in> set FALLBACK_MODELS.
           c \<in> set (snd (attemptProvider w (initializeClients w st) (promptOf messages)
                          (withDefault maxTokens (JNum 200)) a)))"
  using assms
    fallbackLoop_calls [of c w "initializeClients w st" "promptOf messages"
      "withDefault maxTokens (JNum 200)" FALLBACK_MODELS]
  by (auto simp: callModel_steps split: if_splits prod.splits)

lemma budgetAccepted_cases:
  "budgetAccepted maxTokens
     \<longleftrightarrow> maxTokens = JUndefined \<or> (\<exists>n\<ge>1. maxTokens = JNum n) \<or> maxTokens = JInfinity
         \<or> maxTokens = JNaN"
  by (cases maxTokens) (auto simp: budgetAccepted_def)

text \<open>
  C2 (as amended). In \<open>modelRouter.js\<close> every request to Groq and to OpenAI carries
  \<open>max_tokens = Math.min(maxTokens, 2000)\<close>, where \<open>maxTokens\<close> is 200 when the caller gave
  none: 200 for the default, \<open>min n 2000\<close> for a budget \<open>n\<close> (which is then at least 1),
  that is at most 2000 and the caller's budget when that is at most 2000, and 2000 for
  \<open>Infinity\<close>. A request to Gemini or to Ollama carries no token budget. The budget \<open>NaN\<close>,
  which the input validation lets through, is sent on as it is; a request is issued with
  no other budget.
\<close>

theorem token_budget:
  "\<forall>c \<in> set (calls (callModel w st modelName messages maxTokens)).
     (provider (call_target c) = str ''groq'' \<or> provider (call_target c) = str ''openai''
        \<longrightarrow> call_max_tokens c = Some (Math_min (withDefault maxTokens (JNum 200)) (JNum 2000))
            \<and> (maxTokens = JUndefined \<longrightarrow> call_max_tokens c = Some (JNum 200))
            \<and> (\<forall>n. maxTokens = JNum n
                  \<longrightarrow> 1 \<le> n \<and> call_max_tokens c = Some (JNum (min n 2000)) \<and> min n 2000 \<le> 2000
                      \<and> (n \<le> 2000 \<longrightarrow> call_max_tokens c = Some (JNum n)))
            \<and> (maxTokens = JInfinity \<longrightarrow> call_max_tokens c = Some (JNum 2000))
            \<and> (maxTokens = JNaN \<longrightarrow> call_max_tokens c = Some JNaN))
     \<and> (provider (call_target c) = str ''gemini'' \<or> provider (call_target c) = str ''ollama''
          \<longrightarrow> call_max_tokens c = None)
     \<and> provider (call_target c) \<in> {str ''gemini'', str ''groq'', str ''openai'', str ''ollama''}
     \<and> (maxTokens = JUndefined \<or> (\<exists>n\<ge>1. maxTokens = JNum n) \<or> maxTokens = JInfinity
          \<or> maxTokens = JNaN)"
proof
  fix c
  assume "c \<in> set (calls (callModel w st modelName messages maxTokens))"
  from callModel_calls [OF this] obtain a
    where b: "budgetAccepted maxTokens"
      and c: "c \<in> set (snd (attemptProvider w (initializeClients w st) (promptOf messages)
                              (withDefault maxTokens (JNum 200)) a))"
    by blast
  have m: "call_max_tokens c = Some (Math_min (withDefault maxTokens (JNum 200)) (JNum 2000))
            \<Longrightarrow> (maxTokens = JUndefined \<longrightarrow> call_max_tokens c = Some (JNum 200))
            \<and> (\<forall>n. maxTokens = JNum n
                  \<longrightarrow> 1 \<le> n \<and> call_max_tokens c = Some (JNum (min n 2000)) \<and> min n 2000 \<le> 2000
                      \<and> (n \<le> 2000 \<longrightarrow> call_max_tokens c = Some (JNum n)))
            \<and> (maxTokens = JInfinity \<longrightarrow> call_max_tokens c = Some (JNum 2000))
            \<and> (maxTokens = JNaN \<longrightarrow> call_max_tokens c = Some JNaN)"
    using b by (auto simp: budgetAccepted_def)
  from attemptProvider_budget [OF c] m b
  show "(provider (call_target c) = str ''groq'' \<or> provider (call_target c) = str ''openai''
        \<longrightarrow> call_max_tokens c = Some (Math_min (withDefault maxTokens (JNum 200)) (JNum 2000))
            \<and> (maxTokens = JUndefined \<longrightarrow> call_max_tokens c = Some (JNum 200))
            \<and> (\<forall>n. maxTokens = JNum n
                  \<longrightarrow> 1 \<le> n \<and> call_max_tokens c = Some (JNum (min n 2000)) \<and> min n 2000 \<le> 2000
                      \<and> (n \<le> 2000 \<longrightarrow> call_max_tokens c = Some (JNum n)))
            \<and> (maxTokens = JInfinity \<longrightarrow> call_max_tokens c = Some (JNum 2000))
            \<and> (maxTokens = JNaN \<longrightarrow> call_max_tokens c = Some JNaN))
     \<and> (provider (call_target c) = str ''gemini'' \<or> provider (call_target c) = str ''ollama''
          \<longrightarrow> call_max_tokens c = None)
     \<and> provider (call_target c) \<in> {str ''gemini'', str ''groq'', str ''openai'', str ''ollama''}
     \<and> (maxTokens = JUndefined \<or> (\<exists>n\<ge>1. maxTokens = JNum n) \<or> maxTokens = JInfinity
          \<or> maxTokens = JNaN)"
    unfolding budgetAccepted_cases by blast
qed

lemma sample_run_5000:
  "callModel sampleWorld initial_state (JStr (str ''gemini-2.0-pro'')) sampleMessages (JNum 5000)
     = \<lparr> result = Inr (completion (JStr (str ''Hello!''))),
         calls = [ChatCall (str ''groq'') (str ''llama-3.1-70b-versatile'')
                    (userMessage (str ''hello'')) (JNum 2000) (Some 0.7),
                  ChatCall (str ''openai'') (str ''gpt-4.1-mini'')
                    (userMessage (str ''hello'')) (JNum 2000) (Some 0.7)],
         state = \<lparr> gemini = False, groq = True, openai = True, clientsInitialized = True \<rparr> \<rparr>"
  by (simp add: router_eval)

text \<open>The call of \<open>routes/chat.js\<close>, which gives no budget.\<close>

lemma sample_run_default:
  "callModel sampleWorld initial_state (JStr (str ''gemini-2.0-pro'')) sampleMessages JUndefined
     = \<lparr> result = Inr (completion (JStr (str ''Hello!''))),
         calls = [ChatCall (str ''groq'') (str ''llama-3.1-70b-versatile'')
                    (userMessage (str ''hello'')) (JNum 200) (Some 0.7),
                  ChatCall (str ''openai'') (str ''gpt-4.1-mini'')
                    (userMessage (str ''hello'')) (JNum 200) (Some 0.7)],
         state = \<lparr> gemini = False, groq = True, openai = True, clientsInitialized = True \<rparr> \<rparr>"
  by (simp add: router_eval)

theorem token_budget_witness:
  "calls (callModel sampleWorld initial_state (JStr (str ''gemini-2.0-pro'')) sampleMessages (JNum 5000))
     = [ChatCall (str ''groq'') (str ''llama-3.1-70b-versatile'')
                    (userMessage (str ''hello'')) (JNum 2000) (Some 0.7),
        ChatCall (str ''openai'') (str ''gpt-4.1-mini'')
                    (userMessage (str ''hello'')) (JNum 2000) (Some 0.7)]
   \<and> call_max_tokens (ChatCall (str ''groq'') (str ''llama-3.1-70b-versatile'')
                    (userMessage (str ''hello'')) (JNum 2000) (Some 0.7)) = Some (JNum (min 5000 2000))
   \<and> call_max_tokens (ChatCall (str ''openai'') (str ''gpt-4.1-mini'')
                    (userMessage (str ''hello'')) (JNum 2000) (Some 0.7)) = Some (JNum (min 5000 2000))
   \<and> calls (callModel sampleWorld initial_state (JStr (str ''gemini-2.0-pro'')) sampleMessages JUndefined)
     = [ChatCall (str ''groq'') (str ''llama-3.1-70b-versatile'')
                    (userMessage (str ''hello'')) (JNum 200) (Some 0.7),
        ChatCall (str ''openai'') (str ''gpt-4.1-mini'')
                    (userMessage (str ''hello'')) (JNum 200) (Some 0.7)]
   \<and> call_max_tokens (ChatCall (str ''groq'') (str ''llama-3.1-70b-versatile'')
                    (userMessage (str ''hello'')) (JNum 200) (Some 0.7)) = Some (JNum 200)
   \<and> call_max_tokens (ChatCall (str ''openai'') (str ''gpt-4.1-mini'')
                    (userMessage (str ''hello'')) (JNum 200) (Some 0.7)) = Some (JNum 200)"
proof -
  let ?out = "callModel sampleWorld initial_state (JStr (str ''gemini-2.0-pro'')) sampleMessages (JNum 5000)"
  let ?g = "ChatCall (str ''groq'') (str ''llama-3.1-70b-versatile'')
                    (userMessage (str ''hello'')) (JNum 2000) (Some 0.7)"
  let ?o = "ChatCall (str ''openai'') (str ''gpt-4.1-mini'')
                    (userMessage (str ''hello'')) (JNum 2000) (Some 0.7)"
  let ?out' = "callModel sampleWorld initial_state (JStr (str ''gemini-2.0-pro'')) sampleMessages JUndefined"
  let ?g' = "ChatCall (str ''groq'') (str ''llama-3.1-70b-versatile'')
                    (userMessage (str ''hello'')) (JNum 200) (Some 0.7)"
  let ?o' = "ChatCall (str ''openai'') (str ''gpt-4.1-mini'')
                    (userMessage (str ''hello'')) (JNum 200) (Some 0.7)"
  have cs: "calls ?out = [?g, ?o]"
    by (simp add: sample_run_5000)
  then have "?g \<in> set (calls ?out)" and "?o \<in> set (calls ?out)"
    by simp_all
  with token_budget [of sampleWorld initial_state "JStr (str ''gemini-2.0-pro'')" sampleMessages "JNum 5000"]
  have a: "call_max_tokens ?g = Some (JNum (min 5000 2000))"
    and b: "call_max_tokens ?o = Some (JNum (min 5000 2000))"
    by (auto simp del: call_max_tokens.simps)
  have cs': "calls ?out' = [?g', ?o']"
    by (simp add: sample_run_default)
  then have "?g' \<in> set (calls ?out')" and "?o' \<in> set (calls ?out')"
    by simp_all
  with token_budget [of sampleWorld initial_state "JStr (str ''gemini-2.0-pro'')" sampleMessages JUndefined]
  have c: "call_max_tokens ?g' = Some (JNum 200)" and d: "call_max_tokens ?o' = Some (JNum 200)"
    by (auto simp del: call_max_tokens.simps)
  from cs a b cs' c d show ?thesis
    by blast
qed

text \<open>
  C2 as stated fails for Gemini (and for Ollama): the request carries no budget at all.
\<close>

theorem gemini_budget_counterexample:
  "calls (callModel (sampleWorld \<lparr> GEMINI_API_KEY := Some (str ''g-1'') \<rparr>) initial_state
            (JStr (str ''gemini-2.0-pro'')) sampleMessages (JNum 50))
     = [GeminiCall (str ''gemini-2.0-flash'') (str ''hello'')]
   \<and> call_max_tokens (GeminiCall (str ''gemini-2.0-flash'') (str ''hello'')) \<noteq> Some (JNum (min 50 2000))"
  by (simp add: router_eval)

section \<open>The routers: order of the traversal and first success\<close>

lemma fallbackLoop_result:
  "fst (fallbackLoop w st prompt b as) = Inr r
     \<Longrightarrow> \<exists>a \<in> set as. fst (attemptProvider w st prompt b a) = Succeeded r"
proof (induction as)
  case Nil
  then show ?case by simp
next
  case (Cons a as)
  obtain x cs where att: "attemptProvider w st prompt b a = (x, cs)"
    by (cases "attemptProvider w st prompt b a")
  obtain r' cs' where rest: "fallbackLoop w st prompt b as = (r', cs')"
    by (cases "fallbackLoop w st prompt b as")
  from Cons att rest show ?case
    by (cases x) auto
qed

lemma fallbackLoop_optimized_result:
  "fst (fallbackLoop_optimized w cl prompt ms b failed as) = Inr r
     \<Longrightarrow> \<exists>a \<in> set as. fst (attemptProvider_optimized w cl prompt ms b a) = Succeeded r"
proof (induction as arbitrary: failed)
  case Nil
  then show ?case by simp
next
  case (Cons a as)
  obtain x cs where att: "attemptProvider_optimized w cl prompt ms b a = (x, cs)"
    by (cases "attemptProvider_optimized w cl prompt ms b a")
  show ?case
  proof (cases x)
    case Skipped
    obtain r' cs' where rest: "fallbackLoop_optimized w cl prompt ms b failed as = (r', cs')"
      by (cases "fallbackLoop_optimized w cl prompt ms b failed as")
    from Cons.prems att Skipped rest Cons.IH [of failed] show ?thesis
      by auto
  next
    case (Failed reason)
    obtain r' cs' where rest: "fallbackLoop_optimized w cl prompt ms b
                                 (failed @ [failureEntry a reason]) as = (r', cs')"
      by (cases "fallbackLoop_optimized w cl prompt ms b (failed @ [failureEntry a reason]) as")
    from Cons.prems att Failed rest Cons.IH [of "failed @ [failureEntry a reason]"] show ?thesis
      by auto
  next
    case (Succeeded response)
    with Cons.prems att show ?thesis
      by auto
  qed
qed

lemma mock_contents:
  "nonBlankString (responseContent mockResponse)"
  "nonBlankString (responseContent mockResponse_optimized)"
  by (simp_all add: mockResponse_def mockResponse_optimized_def nonBlankString_def
        trim_def isWhiteSpace_def str_def)

text \<open>What either module returns is a response whose content is a string that is not blank.\<close>

lemma callModel_content:
  assumes "result (callModel w st modelName messages maxTokens) = Inr r"
  shows "nonBlankString (responseContent r)"
proof (cases "validMessages messages \<and> budgetAccepted maxTokens \<and> nonBlankPrompt messages
              \<and> \<not> mockMode w")
  case True
  with assms have "fst (fallbackLoop w (initializeClients w st) (promptOf messages)
                          (withDefault maxTokens (JNum 200)) FALLBACK_MODELS) = Inr r"
    by (simp add: callModel_steps split: prod.splits)
  from fallbackLoop_result [OF this] show ?thesis
    by (auto dest: attemptProvider_content)
next
  case False
  with assms have "r = mockResponse"
    by (auto simp: callModel_steps split: if_splits)
  then show ?thesis
    by (simp add: mock_contents)
qed

lemma callModel_optimized_content:
  assumes "result (callModel_optimized w cl modelName messages maxTokens) = Inr r"
  shows "nonBlankString (responseContent r)"
proof -
  from callModel_optimized_steps [of w cl modelName messages maxTokens]
  consider (stop) "r = mockResponse_optimized"
    | (loop) "fst (fallbackLoop_optimized w (initializeClients_optimized w cl) (promptOf messages)
                    (elements messages) (withDefault maxTokens (JNum 200)) [] FALLBACK_MODELS) = Inr r"
    using assms by (auto split: prod.splits)
  then show ?thesis
  proof cases
    case stop
    then show ?thesis
      by (simp add: mock_contents)
  next
    case loop
    from fallbackLoop_optimized_result [OF this] show ?thesis
      by (auto dest: attemptProvider_optimized_content)
  qed
qed

text \<open>
  The loop in general: \<open>run\<close> is the loop, \<open>att\<close> the outcome of the attempt of an entry,
  \<open>issued\<close> the requests the attempt issues and \<open>valid\<close> tells whether a request is answered
  with a response that validates.
\<close>

lemma traversal_generic:
  fixes att :: "attempt \<Rightarrow> attempt_result"
    and issued :: "attempt \<Rightarrow> provider_call list"
    and run :: "attempt list \<Rightarrow> (error + jsval) \<times> provider_call list"
  assumes none: "\<And>as. \<forall>a \<in> set as. \<not> succeeded (att a)
                   \<Longrightarrow> \<exists>e. run as = (Inl e, concat (map issued as))"
    and first: "\<And>pre b post r. \<forall>a \<in> set pre. \<not> succeeded (att a) \<Longrightarrow> att b = Succeeded r
                   \<Longrightarrow> run (pre @ b # post) = (Inr r, concat (map issued (pre @ [b])))"
    and tg: "\<And>as. map call_target (concat (map issued as)) = filter ready as"
    and iff: "\<And>a. succeeded (att a) \<longleftrightarrow> (\<exists>c \<in> set (issued a). valid c)"
    and answer: "\<And>a c. c \<in> set (issued a) \<Longrightarrow> valid c
                   \<Longrightarrow> \<exists>r. att a = Succeeded r \<and> responseContent r = content c"
  shows "(\<exists>k \<le> length F. map call_target (snd (run F)) = filter ready (take k F))
       \<and> (\<forall>i c. i < length F \<and> c \<in> set (issued (F ! i)) \<and> valid c
                 \<and> (\<forall>j<i. \<forall>c' \<in> set (issued (F ! j)). \<not> valid c')
              \<longrightarrow> (\<exists>r. fst (run F) = Inr r \<and> responseContent r = content c)
                  \<and> map call_target (snd (run F)) = filter ready (take (Suc i) F))"
proof (intro conjI allI impI)
  show "\<exists>k \<le> length F. map call_target (snd (run F)) = filter ready (take k F)"
  proof (cases "\<exists>a \<in> set F. succeeded (att a)")
    case True
    then obtain pre b post where F: "F = pre @ b # post" and b: "succeeded (att b)"
      and pre: "\<forall>a \<in> set pre. \<not> succeeded (att a)"
      using split_list_first_prop [of F "\<lambda>a. succeeded (att a)"] by blast
    from b obtain r where "att b = Succeeded r"
      by (cases "att b") simp_all
    from first [OF pre this, of post] have "map call_target (snd (run F)) = filter ready (pre @ [b])"
      by (simp add: F tg del: map_append filter_append)
    moreover have "pre @ [b] = take (Suc (length pre)) F"
      by (simp add: F)
    moreover have "Suc (length pre) \<le> length F"
      by (simp add: F)
    ultimately show ?thesis
      by metis
  next
    case False
    then obtain e where "run F = (Inl e, concat (map issued F))"
      using none [of F] by blast
    then have "map call_target (snd (run F)) = filter ready (take (length F) F)"
      by (simp add: tg)
    then show ?thesis
      by blast
  qed
next
  fix i c
  assume h: "i < length F \<and> c \<in> set (issued (F ! i)) \<and> valid c
               \<and> (\<forall>j<i. \<forall>c' \<in> set (issued (F ! j)). \<not> valid c')"
  then obtain r where r: "att (F ! i) = Succeeded r" and rc: "responseContent r = content c"
    using answer [of c "F ! i"] by blast
  have F: "F = take i F @ F ! i # drop (Suc i) F"
    using h by (simp add: id_take_nth_drop)
  have pre: "\<forall>a \<in> set (take i F). \<not> succeeded (att a)"
  proof
    fix a
    assume "a \<in> set (take i F)"
    then obtain j where "j < i" and "a = F ! j"
      using h by (auto simp: in_set_conv_nth)
    with h show "\<not> succeeded (att a)"
      by (simp add: iff)
  qed
  have "run (take i F @ F ! i # drop (Suc i) F)
          = (Inr r, concat (map issued (take i F @ [F ! i])))"
    using first [OF pre r, of "drop (Suc i) F"] by simp
  moreover have "take i F @ [F ! i] = take (Suc i) F"
    using h by (simp add: take_Suc_conv_app_nth)
  ultimately have run: "run F = (Inr r, concat (map issued (take (Suc i) F)))"
    using F by simp
  show "\<exists>r. fst (run F) = Inr r \<and> responseContent r = content c"
    by (simp add: run rc)
  show "map call_target (snd (run F)) = filter ready (take (Suc i) F)"
    by (simp add: run tg)
qed

lemma traversal_modelRouter:
  assumes "validMessages messages" and "budgetAccepted maxTokens" and "nonBlankPrompt messages"
    and "\<not> mockMode w"
  shows "\<forall>i c. i < length FALLBACK_MODELS
               \<and> c \<in> set (snd (attemptProvider w (initializeClients w st) (promptOf messages)
                                 (withDefault maxTokens (JNum 200)) (FALLBACK_MODELS ! i)))
               \<and> validAnswer w c
               \<and> (\<forall>j<i. \<forall>c' \<in> set (snd (attemptProvider w (initializeClients w st)
                                              (promptOf messages) (withDefault maxTokens (JNum 200))
                                              (FALLBACK_MODELS ! j))). \<not> validAnswer w c')
            \<longrightarrow> (\<exists>r. result (callModel w st modelName messages maxTokens) = Inr r
                      \<and> responseContent r = answerContent w c)
                \<and> map call_target (calls (callModel w st modelName messages maxTokens))
                    = filter (clientReady (initializeClients w st)) (take (Suc i) FALLBACK_MODELS)"
proof -
  let ?run = "fallbackLoop w (initializeClients w st) (promptOf messages)
                (withDefault maxTokens (JNum 200))"
  have r: "result (callModel w st modelName messages maxTokens) = fst (?run FALLBACK_MODELS)"
    and c: "calls (callModel w st modelName messages maxTokens) = snd (?run FALLBACK_MODELS)"
    using assms by (simp_all add: callModel_steps split: prod.splits)
  have "(\<exists>k \<le> length FALLBACK_MODELS. map call_target (snd (?run FALLBACK_MODELS))
            = filter (clientReady (initializeClients w st)) (take k FALLBACK_MODELS))
       \<and> (\<forall>i c. i < length FALLBACK_MODELS
               \<and> c \<in> set (snd (attemptProvider w (initializeClients w st) (promptOf messages)
                                 (withDefault maxTokens (JNum 200)) (FALLBACK_MODELS ! i)))
               \<and> validAnswer w c
               \<and> (\<forall>j<i. \<forall>c' \<in> set (snd (attemptProvider w (initializeClients w st)
                                              (promptOf messages) (withDefault maxTokens (JNum 200))
                                              (FALLBACK_MODELS ! j))). \<not> validAnswer w c')
            \<longrightarrow> (\<exists>r. fst (?run FALLBACK_MODELS) = Inr r \<and> responseContent r = answerContent w c)
                \<and> map call_target (snd (?run FALLBACK_MODELS))
                    = filter (clientReady (initializeClients w st)) (take (Suc i) FALLBACK_MODELS))"
  proof (rule traversal_generic
          [where att = "\<lambda>a. fst (attemptProvider w (initializeClients w st) (promptOf messages)
                                   (withDefault maxTokens (JNum 200)) a)"
             and issued = "\<lambda>a. snd (attemptProvider w (initializeClients w st) (promptOf messages)
                                   (withDefault maxTokens (JNum 200)) a)"
             and valid = "validAnswer w" and content = "answerContent w"])
    fix a c
    assume "c \<in> set (snd (attemptProvider w (initializeClients w st) (promptOf messages)
                            (withDefault maxTokens (JNum 200)) a))"
      and "validAnswer w c"
    then show "\<exists>r. fst (attemptProvider w (initializeClients w st) (promptOf messages)
                          (withDefault maxTokens (JNum 200)) a) = Succeeded r
                  \<and> responseContent r = answerContent w c"
      using attemptProvider_answer by blast
  qed (simp_all add: fallbackLoop_none fallbackLoop_first targets_concat
         attemptProvider_succeeded_iff)
  then show ?thesis
    unfolding r c by blast
qed

lemma order_modelRouter:
  "\<exists>k \<le> length FALLBACK_MODELS.
      map call_target (calls (callModel w st modelName messages maxTokens))
        = filter (clientReady (initializeClients w st)) (take k FALLBACK_MODELS)"
proof (cases "validMessages messages \<and> budgetAccepted maxTokens \<and> nonBlankPrompt messages
              \<and> \<not> mockMode w")
  case True
  let ?run = "fallbackLoop w (initializeClients w st) (promptOf messages)
                (withDefault maxTokens (JNum 200))"
  have c: "calls (callModel w st modelName messages maxTokens) = snd (?run FALLBACK_MODELS)"
    using True by (simp add: callModel_steps split: prod.splits)
  have "(\<exists>k \<le> length FALLBACK_MODELS. map call_target (snd (?run FALLBACK_MODELS))
            = filter (clientReady (initializeClients w st)) (take k FALLBACK_MODELS))
       \<and> (\<forall>i c. i < length FALLBACK_MODELS
               \<and> c \<in> set (snd (attemptProvider w (initializeClients w st) (promptOf messages)
                                 (withDefault maxTokens (JNum 200)) (FALLBACK_MODELS ! i)))
               \<and> validAnswer w c
               \<and> (\<forall>j<i. \<forall>c' \<in> set (snd (attemptProvider w (initializeClients w st)
                                              (promptOf messages) (withDefault maxTokens (JNum 200))
                                              (FALLBACK_MODELS ! j))). \<not> validAnswer w c')
            \<longrightarrow> (\<exists>r. fst (?run FALLBACK_MODELS) = Inr r \<and> responseContent r = answerContent w c)
                \<and> map call_target (snd (?run FALLBACK_MODELS))
                    = filter (clientReady (initializeClients w st)) (take (Suc i) FALLBACK_MODELS))"
  proof (rule traversal_generic
          [where att = "\<lambda>a. fst (attemptProvider w (initializeClients w st) (promptOf messages)
                                   (withDefault maxTokens (JNum 200)) a)"
             and issued = "\<lambda>a. snd (attemptProvider w (initializeClients w st) (promptOf messages)
                                   (withDefault maxTokens (JNum 200)) a)"
             and valid = "validAnswer w" and content = "answerContent w"])
    fix a c
    assume "c \<in> set (snd (attemptProvider w (initializeClients w st) (promptOf messages)
                            (withDefault maxTokens (JNum 200)) a))"
      and "validAnswer w c"
    then show "\<exists>r. fst (attemptProvider w (initializeClients w st) (promptOf messages)
                          (withDefault maxTokens (JNum 200)) a) = Succeeded r
                  \<and> responseContent r = answerContent w c"
      using attemptProvider_answer by blast
  qed (simp_all add: fallbackLoop_none fallbackLoop_first targets_concat
         attemptProvider_succeeded_iff)
  then show ?thesis
    unfolding c by blast
next
  case False
  then have "calls (callModel w st modelName messages maxTokens) = []"
    by (auto simp: callModel_steps)
  then have "map call_target (calls (callModel w st modelName messages maxTokens))
               = filter (clientReady (initializeClients w st)) (take 0 FALLBACK_MODELS)"
    by simp
  then show ?thesis
    by blast
qed

lemma traversal_optimized_loop:
  assumes "readContents ms = Inr contents"
  shows "(\<exists>k \<le> length FALLBACK_MODELS.
            map call_target (snd (fallbackLoop_optimized w cl prompt ms b [] FALLBACK_MODELS))
              = filter (clientReady cl) (take k FALLBACK_MODELS))
       \<and> (\<forall>i c. i < length FALLBACK_MODELS
               \<and> c \<in> set (snd (attemptProvider_optimized w cl prompt ms b (FALLBACK_MODELS ! i)))
               \<and> validAnswer w c
               \<and> (\<forall>j<i. \<forall>c' \<in> set (snd (attemptProvider_optimized w cl prompt ms b
                                              (FALLBACK_MODELS ! j))). \<not> validAnswer w c')
            \<longrightarrow> (\<exists>r. fst (fallbackLoop_optimized w cl prompt ms b [] FALLBACK_MODELS) = Inr r
                      \<and> responseContent r = answerContent w c)
                \<and> map call_target (snd (fallbackLoop_optimized w cl prompt ms b [] FALLBACK_MODELS))
                    = filter (clientReady cl) (take (Suc i) FALLBACK_MODELS))"
proof (rule traversal_generic
          [where att = "\<lambda>a. fst (attemptProvider_optimized w cl prompt ms b a)"
             and issued = "\<lambda>a. snd (attemptProvider_optimized w cl prompt ms b a)"
             and valid = "validAnswer w" and content = "answerContent w"])
  fix a c
  assume "c \<in> set (snd (attemptProvider_optimized w cl prompt ms b a))" and "validAnswer w c"
  then show "\<exists>r. fst (attemptProvider_optimized w cl prompt ms b a) = Succeeded r
                \<and> responseContent r = answerContent w c"
    using attemptProvider_optimized_answer [OF assms] by blast
next
  fix a
  show "succeeded (fst (attemptProvider_optimized w cl prompt ms b a))
          \<longleftrightarrow> (\<exists>c \<in> set (snd (attemptProvider_optimized w cl prompt ms b a)). validAnswer w c)"
    by (rule attemptProvider_optimized_succeeded_iff [OF assms])
qed (simp_all add: fallbackLoop_optimized_none fallbackLoop_optimized_first
       targets_concat_optimized [OF assms])

lemma traversal_optimized:
  assumes "validMessages messages" and "nonBlankPrompt messages" and "\<not> mockMode w"
  shows "\<forall>i c. i < length FALLBACK_MODELS
               \<and> c \<in> set (snd (attemptProvider_optimized w (initializeClients_optimized w cl)
                                 (promptOf messages) (elements messages)
                                 (withDefault maxTokens (JNum 200)) (FALLBACK_MODELS ! i)))
               \<and> validAnswer w c
               \<and> (\<forall>j<i. \<forall>c' \<in> set (snd (attemptProvider_optimized w
                                              (initializeClients_optimized w cl) (promptOf messages)
                                              (elements messages) (withDefault maxTokens (JNum 200))
                                              (FALLBACK_MODELS ! j))). \<not> validAnswer w c')
            \<longrightarrow> (\<exists>r. result (callModel_optimized w cl modelName messages maxTokens) = Inr r
                      \<and> responseContent r = answerContent w c)
                \<and> map call_target (calls (callModel_optimized w cl modelName messages maxTokens))
                    = filter (clientReady (initializeClients_optimized w cl))
                        (take (Suc i) FALLBACK_MODELS)"
proof -
  let ?run = "fallbackLoop_optimized w (initializeClients_optimized w cl) (promptOf messages)
                (elements messages) (withDefault maxTokens (JNum 200)) []"
  obtain contents where rc: "readContents (elements messages) = Inr contents"
    using readContents_request [OF assms(1)] by blast
  have r: "result (callModel_optimized w cl modelName messages maxTokens) = fst (?run FALLBACK_MODELS)"
    and c: "calls (callModel_optimized w cl modelName messages maxTokens) = snd (?run FALLBACK_MODELS)"
    by (simp_all add: callModel_optimized_runs [OF assms] split: prod.splits)
  show ?thesis
    unfolding r c
    using traversal_optimized_loop [OF rc, of w "initializeClients_optimized w cl"
            "promptOf messages" "withDefault maxTokens (JNum 200)"]
    by blast
qed

lemma order_optimized:
  "\<exists>k \<le> length FALLBACK_MODELS.
      map call_target (calls (callModel_optimized w cl modelName messages maxTokens))
        = filter (clientReady (initializeClients_optimized w cl)) (take k FALLBACK_MODELS)"
proof -
  let ?run = "fallbackLoop_optimized w (initializeClients_optimized w cl) (promptOf messages)
                (elements messages) (withDefault maxTokens (JNum 200)) []"
  from callModel_optimized_steps [of w cl modelName messages maxTokens]
  consider (stop) "calls (callModel_optimized w cl modelName messages maxTokens) = []"
    | (loop) contents where "readContents (elements messages) = Inr contents"
        "calls (callModel_optimized w cl modelName messages maxTokens) = snd (?run FALLBACK_MODELS)"
    by (auto split: prod.splits)
  then show ?thesis
  proof cases
    case stop
    then have "map call_target (calls (callModel_optimized w cl modelName messages maxTokens))
               = filter (clientReady (initializeClients_optimized w cl)) (take 0 FALLBACK_MODELS)"
      by simp
    then show ?thesis
      by blast
  next
    case loop
    show ?thesis
      unfolding loop(2)
      using traversal_optimized_loop [OF loop(1), of w "initializeClients_optimized w cl"
              "promptOf messages" "withDefault maxTokens (JNum 200)"]
      by blast
  qed
qed

lemma distinct_fallback: "distinct (filter ready (take k FALLBACK_MODELS))"
proof -
  have "distinct FALLBACK_MODELS"
    by (simp add: FALLBACK_MODELS_def)
  then show ?thesis
    by (simp add: distinct_take)
qed

text \<open>
  C4. In both router modules, with the budget the caller gave or with none (the default
  200):
  \<^item> the requests issued go to the attempted entries (client set, or Ollama) among the first
    \<open>k\<close> entries of \<open>FALLBACK_MODELS\<close>, in the order of the list and at most one to each;
  \<^item> \<open>callModel\<close> returns only a response whose content is a string that is not blank;
  \<^item> for a request that reaches the loop (valid messages, a budget the module accepts, a
    prompt that is not blank, outside mock mode): when entry \<open>i\<close> is the first whose
    provider answers its request with a response that validates, \<open>callModel\<close> returns a
    response with the content that provider answered, and \<open>k = i + 1\<close>: no request goes to
    an entry after \<open>i\<close>.
\<close>

theorem first_success_wins:
  "((\<exists>k \<le> length FALLBACK_MODELS.
        map call_target (calls (callModel w st modelName messages maxTokens))
          = filter (clientReady (initializeClients w st)) (take k FALLBACK_MODELS))
     \<and> distinct (map call_target (calls (callModel w st modelName messages maxTokens)))
     \<and> (\<forall>r. result (callModel w st modelName messages maxTokens) = Inr r
            \<longrightarrow> nonBlankString (responseContent r))
     \<and> (validMessages messages \<and> budgetAccepted maxTokens \<and> nonBlankPrompt messages
          \<and> \<not> mockMode w
        \<longrightarrow> (\<forall>i c. i < length FALLBACK_MODELS
               \<and> c \<in> set (snd (attemptProvider w (initializeClients w st) (promptOf messages)
                                 (withDefault maxTokens (JNum 200)) (FALLBACK_MODELS ! i)))
               \<and> validAnswer w c
               \<and> (\<forall>j<i. \<forall>c' \<in> set (snd (attemptProvider w (initializeClients w st)
                                              (promptOf messages) (withDefault maxTokens (JNum 200))
                                              (FALLBACK_MODELS ! j))). \<not> validAnswer w c')
            \<longrightarrow> (\<exists>r. result (callModel w st modelName messages maxTokens) = Inr r
                      \<and> responseContent r = answerContent w c)
                \<and> map call_target (calls (callModel w st modelName messages maxTokens))
                    = filter (clientReady (initializeClients w st)) (take (Suc i) FALLBACK_MODELS))))
   \<and> ((\<exists>k \<le> length FALLBACK_MODELS.
        map call_target (calls (callModel_optimized w cl modelName messages maxTokens))
          = filter (clientReady (initializeClients_optimized w cl)) (take k FALLBACK_MODELS))
     \<and> distinct (map call_target (calls (callModel_optimized w cl modelName messages maxTokens)))
     \<and> (\<forall>r. result (callModel_optimized w cl modelName messages maxTokens) = Inr r
            \<longrightarrow> nonBlankString (responseContent r))
     \<and> (validMessages messages \<and> nonBlankPrompt messages \<and> \<not> mockMode w
        \<longrightarrow> (\<forall>i c. i < length FALLBACK_MODELS
               \<and> c \<in> set (snd (attemptProvider_optimized w (initializeClients_optimized w cl)
                                 (promptOf messages) (elements messages)
                                 (withDefault maxTokens (JNum 200)) (FALLBACK_MODELS ! i)))
               \<and> validAnswer w c
               \<and> (\<forall>j<i. \<forall>c' \<in> set (snd (attemptProvider_optimized w
                                              (initializeClients_optimized w cl) (promptOf messages)
                                              (elements messages) (withDefault maxTokens (JNum 200))
                                              (FALLBACK_MODELS ! j))). \<not> validAnswer w c')
            \<longrightarrow> (\<exists>r. result (callModel_optimized w cl modelName messages maxTokens) = Inr r
                      \<and> responseContent r = answerContent w c)
                \<and> map call_target (calls (callModel_optimized w cl modelName messages maxTokens))
                    = filter (clientReady (initializeClients_optimized w cl))
                        (take (Suc i) FALLBACK_MODELS))))"
proof -
  have d1: "distinct (map call_target (calls (callModel w st modelName messages maxTokens)))"
    using order_modelRouter [of w st modelName messages maxTokens] distinct_fallback by metis
  have d2: "distinct (map call_target (calls (callModel_optimized w cl modelName messages maxTokens)))"
    using order_optimized [of w cl modelName messages maxTokens] distinct_fallback by metis
  show ?thesis
    using order_modelRouter [of w st modelName messages maxTokens] d1
      callModel_content [of w st modelName messages maxTokens]
      traversal_modelRouter [of messages maxTokens w st modelName]
      order_optimized [of w cl modelName messages maxTokens] d2
      callModel_optimized_content [of w cl modelName messages maxTokens]
      traversal_optimized [of messages w cl maxTokens modelName]
    by blast
qed

lemma sample_state:
  "initializeClients sampleWorld initial_state
     = \<lparr> gemini = False, groq = True, openai = True, clientsInitialized = True \<rparr>"
  "initializeClients_optimized sampleWorld initial_clients
     = \<lparr> gemini = False, groq = True, openai = True \<rparr>"
  by (simp_all add: router_eval optimized_eval)

lemma all_less_3: "(\<forall>j<3. P j) \<longleftrightarrow> P 0 \<and> P 1 \<and> P (2::nat)"
  by (auto simp: less_Suc_eq numeral_3_eq_3 numeral_2_eq_2)

lemmas answer_eval =
  validAnswer_def answerContent_def responseContent_def nonBlankString_def

theorem first_success_wins_witness:
  "validMessages sampleMessages \<and> budgetAccepted JUndefined \<and> nonBlankPrompt sampleMessages
   \<and> \<not> mockMode sampleWorld
   \<and> \<not> validAnswer sampleWorld
         (ChatCall (str ''groq'') (str ''llama-3.1-70b-versatile'') (userMessage (str ''hello''))
            (JNum 200) (Some 0.7))
   \<and> validAnswer sampleWorld
         (ChatCall (str ''openai'') (str ''gpt-4.1-mini'') (userMessage (str ''hello''))
            (JNum 200) (Some 0.7))
   \<and> (\<exists>r. result (callModel sampleWorld initial_state (JStr (str ''gemini-2.0-pro''))
                    sampleMessages JUndefined) = Inr r
          \<and> responseContent r = JStr (str ''Hello!''))
   \<and> map call_target
         (calls (callModel sampleWorld initial_state (JStr (str ''gemini-2.0-pro'')) sampleMessages
                   JUndefined))
       = [\<lparr> provider = str ''groq'', model = str ''llama-3.1-70b-versatile'' \<rparr>,
          \<lparr> provider = str ''openai'', model = str ''gpt-4.1-mini'' \<rparr>]
   \<and> (\<exists>r. result (callModel_optimized sampleWorld initial_clients (JStr (str ''gemini-2.0-pro''))
                    sampleMessages JUndefined) = Inr r
          \<and> responseContent r = JStr (str ''Hello!''))
   \<and> map call_target
         (calls (callModel_optimized sampleWorld initial_clients (JStr (str ''gemini-2.0-pro''))
                   sampleMessages JUndefined))
       = [\<lparr> provider = str ''groq'', model = str ''llama-3.1-70b-versatile'' \<rparr>,
          \<lparr> provider = str ''openai'', model = str ''gpt-4.1-mini'' \<rparr>]"
proof -
  let ?st = "\<lparr> gemini = False, groq = True, openai = True, clientsInitialized = True \<rparr>"
  let ?cl = "\<lparr> gemini = False, groq = True, openai = True \<rparr>"
  let ?g = "ChatCall (str ''groq'') (str ''llama-3.1-70b-versatile'') (userMessage (str ''hello''))
              (JNum 200) (Some 0.7)"
  let ?o = "ChatCall (str ''openai'') (str ''gpt-4.1-mini'') (userMessage (str ''hello''))
              (JNum 200) (Some 0.7)"
  let ?o' = "ChatCall (str ''openai'') (str ''gpt-4.1-mini'') (userMessage (str ''hello''))
              (JNum 200) None"
  have a: "validMessages sampleMessages" and b: "budgetAccepted JUndefined"
    and c: "nonBlankPrompt sampleMessages"
    by (simp_all add: request_eval)
  have d: "\<not> mockMode sampleWorld"
    by (simp add: mockMode_def sampleWorld_def)
  have i: "3 < length FALLBACK_MODELS"
    by (simp add: FALLBACK_MODELS_def)
  have g: "\<not> validAnswer sampleWorld ?g" and o: "validAnswer sampleWorld ?o"
    and o': "validAnswer sampleWorld ?o'"
    and ac: "answerContent sampleWorld ?o = JStr (str ''Hello!'')"
    and ac': "answerContent sampleWorld ?o' = JStr (str ''Hello!'')"
    by (simp_all add: answer_eval sampleWorld_def completion_def trim_def isWhiteSpace_def str_def)
  have s1: "?o \<in> set (snd (attemptProvider sampleWorld ?st (promptOf sampleMessages) (JNum 200)
                             (FALLBACK_MODELS ! 3)))"
    by (simp add: router_eval)
  have p1: "\<forall>j<3. \<forall>c' \<in> set (snd (attemptProvider sampleWorld ?st (promptOf sampleMessages)
                                      (JNum 200) (FALLBACK_MODELS ! j))).
               \<not> validAnswer sampleWorld c'"
    unfolding all_less_3 by (simp add: router_eval answer_eval)
  have s2: "?o' \<in> set (snd (attemptProvider_optimized sampleWorld ?cl (promptOf sampleMessages)
                   (elements sampleMessages) (JNum 200) (FALLBACK_MODELS ! 3)))"
    by (simp add: optimized_eval)
  have p2: "\<forall>j<3. \<forall>c' \<in> set (snd (attemptProvider_optimized sampleWorld ?cl
                     (promptOf sampleMessages) (elements sampleMessages) (JNum 200)
                     (FALLBACK_MODELS ! j))).
               \<not> validAnswer sampleWorld c'"
    unfolding all_less_3 by (simp add: optimized_eval answer_eval)
  have f1: "filter (clientReady ?st) (take (Suc 3) FALLBACK_MODELS)
              = [\<lparr> provider = str ''groq'', model = str ''llama-3.1-70b-versatile'' \<rparr>,
                 \<lparr> provider = str ''openai'', model = str ''gpt-4.1-mini'' \<rparr>]"
    by (simp add: FALLBACK_MODELS_def clientReady_def)
  have f2: "filter (clientReady ?cl) (take (Suc 3) FALLBACK_MODELS)
              = [\<lparr> provider = str ''groq'', model = str ''llama-3.1-70b-versatile'' \<rparr>,
                 \<lparr> provider = str ''openai'', model = str ''gpt-4.1-mini'' \<rparr>]"
    by (simp add: FALLBACK_MODELS_def clientReady_def)
  note inst = first_success_wins [of sampleWorld initial_state "JStr (str ''gemini-2.0-pro'')"
      sampleMessages JUndefined initial_clients, unfolded sample_state withDefault_simps]
  from inst a b c d i s1 o p1 have
    "(\<exists>r. result (callModel sampleWorld initial_state (JStr (str ''gemini-2.0-pro''))
                    sampleMessages JUndefined) = Inr r
          \<and> responseContent r = answerContent sampleWorld ?o)
     \<and> map call_target (calls (callModel sampleWorld initial_state (JStr (str ''gemini-2.0-pro''))
           sampleMessages JUndefined)) = filter (clientReady ?st) (take (Suc 3) FALLBACK_MODELS)"
    by blast
  moreover from inst a c d i s2 o' p2 have
    "(\<exists>r. result (callModel_optimized sampleWorld initial_clients (JStr (str ''gemini-2.0-pro''))
                    sampleMessages JUndefined) = Inr r
          \<and> responseContent r = answerContent sampleWorld ?o')
     \<and> map call_target (calls (callModel_optimized sampleWorld initial_clients
           (JStr (str ''gemini-2.0-pro'')) sampleMessages JUndefined))
         = filter (clientReady ?cl) (take (Suc 3) FALLBACK_MODELS)"
    by blast
  ultimately show ?thesis
    using a b c d g o unfolding f1 f2 ac ac' by blast
qed

section \<open>The routers: every attempt fails\<close>

lemma failureEntries_ready:
  "failureEntries (\<lambda>a. fst (attemptProvider_optimized w cl prompt ms n a)) as
     = map (\<lambda>a. failureEntry a (failureReason (fst (attemptProvider_optimized w cl prompt ms n a))))
         (filter (clientReady cl) as)"
  by (simp add: failureEntries_def attemptProvider_optimized_skipped)

text \<open>
  C1 (as amended). For a request that reaches the loop (valid messages, a prompt that is
  not blank, outside mock mode, and in \<open>modelRouter.js\<close> a budget the module accepts),
  with the budget the caller gave or with none, when no provider answers its request
  with a response that validates: \<open>callModel\<close> of \<open>modelRouter_optimized.js\<close> throws the
  aggregate Error whose message lists one \<open>provider:model (reason)\<close> entry for each
  attempted entry of the fallback list, in order, and none for a skipped entry;
  \<open>callModel\<close> of \<open>modelRouter.js\<close> throws the Error with its fixed message. Each issues
  one request per attempted entry.
\<close>

theorem aggregate_failure:
  "(validMessages messages \<and> nonBlankPrompt messages \<and> \<not> mockMode w
      \<and> (\<forall>a \<in> set FALLBACK_MODELS.
            \<forall>c \<in> set (snd (attemptProvider_optimized w (initializeClients_optimized w cl)
                              (promptOf messages) (elements messages)
                              (withDefault maxTokens (JNum 200)) a)). \<not> validAnswer w c)
    \<longrightarrow> result (callModel_optimized w cl modelName messages maxTokens)
          = Inl (aggregateFailure
                   (map (\<lambda>a. failureEntry a
                           (failureReason (fst (attemptProvider_optimized w
                              (initializeClients_optimized w cl) (promptOf messages)
                              (elements messages) (withDefault maxTokens (JNum 200)) a))))
                      (filter (clientReady (initializeClients_optimized w cl)) FALLBACK_MODELS)))
        \<and> (\<forall>a \<in> set (filter (clientReady (initializeClients_optimized w cl)) FALLBACK_MODELS).
              \<exists>reason. fst (attemptProvider_optimized w (initializeClients_optimized w cl)
                              (promptOf messages) (elements messages)
                              (withDefault maxTokens (JNum 200)) a) = Failed reason)
        \<and> map call_target (calls (callModel_optimized w cl modelName messages maxTokens))
          = filter (clientReady (initializeClients_optimized w cl)) FALLBACK_MODELS)
   \<and> (validMessages messages \<and> budgetAccepted maxTokens \<and> nonBlankPrompt messages
        \<and> \<not> mockMode w
        \<and> (\<forall>a \<in> set FALLBACK_MODELS.
              \<forall>c \<in> set (snd (attemptProvider w (initializeClients w st) (promptOf messages)
                                (withDefault maxTokens (JNum 200)) a)). \<not> validAnswer w c)
      \<longrightarrow> result (callModel w st modelName messages maxTokens) = Inl allFailed
          \<and> map call_target (calls (callModel w st modelName messages maxTokens))
            = filter (clientReady (initializeClients w st)) FALLBACK_MODELS)"
proof (intro conjI impI)
  assume h: "validMessages messages \<and> nonBlankPrompt messages \<and> \<not> mockMode w
      \<and> (\<forall>a \<in> set FALLBACK_MODELS.
            \<forall>c \<in> set (snd (attemptProvider_optimized w (initializeClients_optimized w cl)
                              (promptOf messages) (elements messages)
                              (withDefault maxTokens (JNum 200)) a)). \<not> validAnswer w c)"
  let ?att = "attemptProvider_optimized w (initializeClients_optimized w cl)
                (promptOf messages) (elements messages) (withDefault maxTokens (JNum 200))"
  obtain contents where rc: "readContents (elements messages) = Inr contents"
    using readContents_request h by blast
  have none: "\<forall>a \<in> set FALLBACK_MODELS. \<not> succeeded (fst (?att a))"
    using h by (simp add: attemptProvider_optimized_succeeded_iff [OF rc])
  from fallbackLoop_optimized_none [OF this, of "[]"]
  have run: "callModel_optimized w cl modelName messages maxTokens
     = \<lparr> result = Inl (aggregateFailure (failureEntries (\<lambda>a. fst (?att a)) FALLBACK_MODELS)),
         calls = concat (map (\<lambda>a. snd (?att a)) FALLBACK_MODELS),
         state = initializeClients_optimized w cl \<rparr>"
    using h by (simp add: callModel_optimized_runs)
  show "result (callModel_optimized w cl modelName messages maxTokens)
          = Inl (aggregateFailure
                   (map (\<lambda>a. failureEntry a (failureReason (fst (?att a))))
                      (filter (clientReady (initializeClients_optimized w cl)) FALLBACK_MODELS)))"
    by (simp add: run failureEntries_ready)
  show "map call_target (calls (callModel_optimized w cl modelName messages maxTokens))
          = filter (clientReady (initializeClients_optimized w cl)) FALLBACK_MODELS"
    by (simp add: run targets_concat_optimized [OF rc])
  show "\<forall>a \<in> set (filter (clientReady (initializeClients_optimized w cl)) FALLBACK_MODELS).
              \<exists>reason. fst (?att a) = Failed reason"
  proof
    fix a
    assume "a \<in> set (filter (clientReady (initializeClients_optimized w cl)) FALLBACK_MODELS)"
    then have "a \<in> set FALLBACK_MODELS" and "fst (?att a) \<noteq> Skipped"
      by (simp_all add: attemptProvider_optimized_skipped)
    with none show "\<exists>reason. fst (?att a) = Failed reason"
      by (cases "fst (?att a)") auto
  qed
next
  assume h: "validMessages messages \<and> budgetAccepted maxTokens \<and> nonBlankPrompt messages
        \<and> \<not> mockMode w
        \<and> (\<forall>a \<in> set FALLBACK_MODELS.
              \<forall>c \<in> set (snd (attemptProvider w (initializeClients w st) (promptOf messages)
                                (withDefault maxTokens (JNum 200)) a)). \<not> validAnswer w c)"
  let ?att = "attemptProvider w (initializeClients w st) (promptOf messages)
                (withDefault maxTokens (JNum 200))"
  have "\<forall>a \<in> set FALLBACK_MODELS. \<not> succeeded (fst (?att a))"
    using h by (simp add: attemptProvider_succeeded_iff)
  from fallbackLoop_none [OF this]
  have run: "callModel w st modelName messages maxTokens
     = \<lparr> result = Inl allFailed,
         calls = concat (map (\<lambda>a. snd (?att a)) FALLBACK_MODELS),
         state = initializeClients w st \<rparr>"
    using h by (simp add: callModel_steps)
  show "result (callModel w st modelName messages maxTokens) = Inl allFailed"
    by (simp add: run)
  show "map call_target (calls (callModel w st modelName messages maxTokens))
          = filter (clientReady (initializeClients w st)) FALLBACK_MODELS"
    by (simp add: run targets_concat)
qed

lemma failing_state:
  "initializeClients failingWorld initial_state
     = \<lparr> gemini = False, groq = True, openai = True, clientsInitialized = True \<rparr>"
  "initializeClients_optimized failingWorld initial_clients
     = \<lparr> gemini = False, groq = True, openai = True \<rparr>"
  by (simp_all add: failingWorld_def router_eval optimized_eval)

theorem aggregate_failure_witness:
  "validMessages sampleMessages \<and> budgetAccepted JUndefined \<and> nonBlankPrompt sampleMessages
   \<and> \<not> mockMode failingWorld
   \<and> result (callModel_optimized failingWorld initial_clients (JStr (str ''gemini-2.0-pro''))
         sampleMessages JUndefined)
       = Inl (Error (str ''All AI providers failed. Attempted: groq:llama-3.1-70b-versatile (Groq error: 429 rate limit), openai:gpt-4.1-mini (Invalid response structure), ollama:llama3 (Ollama error: connect ECONNREFUSED)''))
   \<and> map call_target
         (calls (callModel_optimized failingWorld initial_clients (JStr (str ''gemini-2.0-pro''))
            sampleMessages JUndefined))
       = [\<lparr> provider = str ''groq'', model = str ''llama-3.1-70b-versatile'' \<rparr>,
          \<lparr> provider = str ''openai'', model = str ''gpt-4.1-mini'' \<rparr>,
          \<lparr> provider = str ''ollama'', model = str ''llama3'' \<rparr>]
   \<and> result (callModel failingWorld initial_state (JStr (str ''gemini-2.0-pro'')) sampleMessages
         JUndefined)
       = Inl allFailed"
proof -
  let ?st = "\<lparr> gemini = False, groq = True, openai = True, clientsInitialized = True \<rparr>"
  let ?cl = "\<lparr> gemini = False, groq = True, openai = True \<rparr>"
  have a: "validMessages sampleMessages" and b: "budgetAccepted JUndefined"
    and c: "nonBlankPrompt sampleMessages"
    by (simp_all add: request_eval)
  have d: "\<not> mockMode failingWorld"
    by (simp add: mockMode_def failingWorld_def sampleWorld_def)
  have n1: "\<forall>a \<in> set FALLBACK_MODELS.
             \<forall>c \<in> set (snd (attemptProvider_optimized failingWorld ?cl
                               (promptOf sampleMessages) (elements sampleMessages) (JNum 200) a)).
               \<not> validAnswer failingWorld c"
    by (simp add: failingWorld_def optimized_eval answer_eval)
  have n2: "\<forall>a \<in> set FALLBACK_MODELS.
             \<forall>c \<in> set (snd (attemptProvider failingWorld ?st (promptOf sampleMessages)
                               (JNum 200) a)).
               \<not> validAnswer failingWorld c"
    by (simp add: failingWorld_def router_eval answer_eval)
  have e: "aggregateFailure
             (map (\<lambda>a. failureEntry a
                     (failureReason (fst (attemptProvider_optimized failingWorld ?cl
                        (promptOf sampleMessages) (elements sampleMessages) (JNum 200) a))))
                [\<lparr> provider = str ''groq'', model = str ''llama-3.1-70b-versatile'' \<rparr>,
                 \<lparr> provider = str ''openai'', model = str ''gpt-4.1-mini'' \<rparr>,
                 \<lparr> provider = str ''ollama'', model = str ''llama3'' \<rparr>])
           = Error (str ''All AI providers failed. Attempted: groq:llama-3.1-70b-versatile (Groq error: 429 rate limit), openai:gpt-4.1-mini (Invalid response structure), ollama:llama3 (Ollama error: connect ECONNREFUSED)'')"
    by (simp add: failingWorld_def optimized_eval clientReady_def)
  have f: "filter (clientReady ?cl) FALLBACK_MODELS
           = [\<lparr> provider = str ''groq'', model = str ''llama-3.1-70b-versatile'' \<rparr>,
              \<lparr> provider = str ''openai'', model = str ''gpt-4.1-mini'' \<rparr>,
              \<lparr> provider = str ''ollama'', model = str ''llama3'' \<rparr>]"
    by (simp add: FALLBACK_MODELS_def clientReady_def)
  note inst = aggregate_failure [of sampleMessages failingWorld initial_clients JUndefined
      "JStr (str ''gemini-2.0-pro'')" initial_state, unfolded failing_state withDefault_simps]
  from inst a c d n1 have
    "result (callModel_optimized failingWorld initial_clients (JStr (str ''gemini-2.0-pro''))
         sampleMessages JUndefined)
       = Inl (aggregateFailure
             (map (\<lambda>a. failureEntry a
                     (failureReason (fst (attemptProvider_optimized failingWorld ?cl
                        (promptOf sampleMessages) (elements sampleMessages) (JNum 200) a))))
                (filter (clientReady ?cl) FALLBACK_MODELS)))
     \<and> map call_target
         (calls (callModel_optimized failingWorld initial_clients (JStr (str ''gemini-2.0-pro''))
            sampleMessages JUndefined))
       = filter (clientReady ?cl) FALLBACK_MODELS"
    by blast
  moreover from inst a b c d n2 have
    "result (callModel failingWorld initial_state (JStr (str ''gemini-2.0-pro'')) sampleMessages
       JUndefined) = Inl allFailed"
    by blast
  ultimately show ?thesis
    using a b c d unfolding e f by blast
qed

text \<open>
  C1 as stated fails for \<open>modelRouter.js\<close>: its Error is the same whether three entries
  were attempted or one, and carries no reason.
\<close>

theorem fixed_message_counterexample:
  "map call_target
     (calls (callModel failingWorld initial_state (JStr (str ''gemini-2.0-pro'')) sampleMessages (JNum 50)))
     = [\<lparr> provider = str ''groq'', model = str ''llama-3.1-70b-versatile'' \<rparr>,
        \<lparr> provider = str ''openai'', model = str ''gpt-4.1-mini'' \<rparr>,
        \<lparr> provider = str ''ollama'', model = str ''llama3'' \<rparr>]
   \<and> map call_target
     (calls (callModel (failingWorld \<lparr> GROQ_API_KEY := None, OPENAI_API_KEY := None \<rparr>) initial_state
               (JStr (str ''gemini-2.0-pro'')) sampleMessages (JNum 50)))
     = [\<lparr> provider = str ''ollama'', model = str ''llama3'' \<rparr>]
   \<and> result (callModel failingWorld initial_state (JStr (str ''gemini-2.0-pro'')) sampleMessages (JNum 50))
     = Inl (Error (0x274C # str '' All AI providers failed - no response generated. Check API keys and connectivity.''))
   \<and> result (callModel (failingWorld \<lparr> GROQ_API_KEY := None, OPENAI_API_KEY := None \<rparr>) initial_state
               (JStr (str ''gemini-2.0-pro'')) sampleMessages (JNum 50))
     = Inl (Error (0x274C # str '' All AI providers failed - no response generated. Check API keys and connectivity.''))"
  by (simp add: failingWorld_def allFailed_def router_eval)

section \<open>The decoder: the direct parse comes first\<close>

text \<open>
  C8. When the trimmed text parses as JSON, \<open>extractJSON\<close> returns that value, whatever a
  fenced block inside the text holds: in particular never the value of a fenced block
  that differs from it. \<open>JSON.parse\<close> is any function.
\<close>

theorem direct_parse_wins:
  assumes "trim text \<noteq> []" and "JSON_parse (trim text) = Some v"
  shows "extractJSON JSON_parse (JStr text) = Inr v
       \<and> (\<forall>v'. parseGroup JSON_parse codeBlockPattern trim text = Some v' \<and> v' \<noteq> v
              \<longrightarrow> extractJSON JSON_parse (JStr text) \<noteq> Inr v')"
proof -
  have "text \<noteq> []"
    using assms(1) by auto
  with assms have "extractJSON JSON_parse (JStr text) = Inr v"
    by (simp add: extractJSON_def)
  then show ?thesis
    by auto
qed

text \<open>The equations that evaluate the three patterns.\<close>

lemmas regex_eval =
  codeBlockPattern_def bracketPattern_def labeledPattern_def labeledTail_def anyChar_def
  dquote_def newline_def fenced_def parseGroup_def isWhiteSpace_def str_def

lemma sample_block: "regexMatch codeBlockPattern sampleText = Some (str ''[1]'')"
  by (simp add: sampleText_def regex_eval)

theorem direct_parse_wins_witness:
  "trim sampleText \<noteq> []
   \<and> map_of [(sampleText, JObj [(str ''note'', JStr (str ''```json[1]```''))]),
              (str ''[1]'', JArr [JNum 1])] (trim sampleText)
       = Some (JObj [(str ''note'', JStr (str ''```json[1]```''))])
   \<and> parseGroup (map_of [(sampleText, JObj [(str ''note'', JStr (str ''```json[1]```''))]),
                          (str ''[1]'', JArr [JNum 1])]) codeBlockPattern trim sampleText
       = Some (JArr [JNum 1])
   \<and> extractJSON (map_of [(sampleText, JObj [(str ''note'', JStr (str ''```json[1]```''))]),
                           (str ''[1]'', JArr [JNum 1])]) (JStr sampleText)
       = Inr (JObj [(str ''note'', JStr (str ''```json[1]```''))])"
proof -
  let ?parse = "map_of [(sampleText, JObj [(str ''note'', JStr (str ''```json[1]```''))]),
                        (str ''[1]'', JArr [JNum 1])]"
  have t: "trim sampleText = sampleText"
    by (rule trim_id) (simp_all add: sampleText_def regex_eval)
  have a: "trim sampleText \<noteq> []"
    unfolding t by (simp add: sampleText_def str_def)
  have b: "?parse (trim sampleText) = Some (JObj [(str ''note'', JStr (str ''```json[1]```''))])"
    unfolding t by simp
  have c: "parseGroup ?parse codeBlockPattern trim sampleText = Some (JArr [JNum 1])"
    by (simp add: parseGroup_def sample_block) (simp add: sampleText_def trim_def regex_eval)
  from direct_parse_wins [of sampleText ?parse "JObj [(str ''note'', JStr (str ''```json[1]```''))]"]
    a b c show ?thesis
    by blast
qed

section \<open>The decoder: round trip\<close>

text \<open>
  How the matcher runs on \<open>fenced s\<close> when \<open>s\<close> is \<open>{\<close> body \<open>}\<close>: the fence pattern finds
  the opening fence at the start and its lazy group is a prefix of \<open>s\<close> (all of \<open>s\<close>
  unless \<open>s\<close> itself holds a fence); the bracket pattern finds \<open>s\<close> itself.
\<close>

lemma star_lit_keeps_group:
  "matchHere [Star C, Lit l] x mark grp = Some g \<Longrightarrow> g = grp"
  by (induction x) (auto split: if_splits option.splits)

lemma close_group:
  assumes "matchHere [Close, Star C, Lit l] x mark grp = Some g"
  shows "g = take (length mark - length x) mark"
  using assms star_lit_keeps_group by simp

lemma lazy_first:
  assumes "matchHere r T mark grp \<noteq> None"
  shows "\<exists>k \<le> length u. matchHere (Lazy anyChar # r) (u @ T) mark grp
                           = matchHere r (drop k (u @ T)) mark grp
                        \<and> matchHere r (drop k (u @ T)) mark grp \<noteq> None"
proof (induction u)
  case Nil
  have "matchHere (Lazy anyChar # r) T mark grp = matchHere r T mark grp"
    using assms by (cases T) (auto simp: anyChar_def split: option.splits)
  with assms show ?case by simp
next
  case (Cons c u)
  show ?case
  proof (cases "matchHere r (c # u @ T) mark grp")
    case None
    then have "matchHere (Lazy anyChar # r) ((c # u) @ T) mark grp
                 = matchHere (Lazy anyChar # r) (u @ T) mark grp"
      by (simp add: anyChar_def)
    moreover from Cons obtain k where "k \<le> length u"
      and "matchHere (Lazy anyChar # r) (u @ T) mark grp = matchHere r (drop k (u @ T)) mark grp"
      and "matchHere r (drop k (u @ T)) mark grp \<noteq> None"
      by blast
    ultimately have "Suc k \<le> length (c # u)
      \<and> matchHere (Lazy anyChar # r) ((c # u) @ T) mark grp
           = matchHere r (drop (Suc k) ((c # u) @ T)) mark grp
      \<and> matchHere r (drop (Suc k) ((c # u) @ T)) mark grp \<noteq> None"
      by simp
    then show ?thesis by blast
  next
    case (Some g)
    then have "0 \<le> length (c # u)
      \<and> matchHere (Lazy anyChar # r) ((c # u) @ T) mark grp
           = matchHere r (drop 0 ((c # u) @ T)) mark grp
      \<and> matchHere r (drop 0 ((c # u) @ T)) mark grp \<noteq> None"
      by simp
    then show ?thesis by blast
  qed
qed

lemma star_any_no_brace:
  assumes "b \<notin> set T"
  shows "matchHere [Star anyChar, Lit [b], Close] T mark grp = None"
  using assms unfolding anyChar_def by (induction T) auto

lemma star_any_last_brace:
  assumes "b \<notin> set T"
  shows "matchHere [Star anyChar, Lit [b], Close] (u @ b # T) mark grp
           = Some (take (length mark - length T) mark)"
  using star_any_no_brace [OF assms, of mark grp] unfolding anyChar_def
  by (induction u) simp_all

lemma lit_step: "matchHere (Lit l # r) (l @ x) mk grp = matchHere r x mk grp"
  by simp

lemma opt_step:
  "matchHere r x mk grp = Some g \<Longrightarrow> matchHere (Opt l # r) (l @ x) mk grp = Some g"
  by simp

lemma star_skip: "\<not> C c \<Longrightarrow> matchHere (Star C # r) (c # x) mk grp = matchHere r (c # x) mk grp"
  by simp

lemma star_take:
  "C c \<Longrightarrow> matchHere (Star C # r) x mk grp = Some g
     \<Longrightarrow> matchHere (Star C # r) (c # x) mk grp = Some g"
  by simp

lemma search_here:
  "matchHere alt (c # x) (c # x) [] = Some g \<Longrightarrow> regexMatch (alt # alts) (c # x) = Some g"
  by simp

lemma bracket_skip:
  "c \<noteq> 0x7B \<Longrightarrow> c \<noteq> 0x5B \<Longrightarrow> regexMatch bracketPattern (c # x) = regexMatch bracketPattern x"
  by (simp add: bracketPattern_def str_def)

lemma fenced_cons:
  "fenced s = str ''```'' @ str ''json'' @ 0x0A # s @ newline @ str ''```''"
  "fenced s = 0x60 # 0x60 # 0x60 # 0x6A # 0x73 # 0x6F # 0x6E # 0x0A # s @ newline @ str ''```''"
  by (simp_all add: fenced_def str_def newline_def)

lemma codeBlock_fenced:
  assumes "\<not> isWhiteSpace c"
  shows "\<exists>k \<le> length (c # s). regexMatch codeBlockPattern (fenced (c # s)) = Some (take k (c # s))"
proof -
  let ?T = "newline @ str ''```''"
  let ?r = "[Close, Star isWhiteSpace, Lit (str ''```'')]"
  let ?m = "(c # s) @ ?T"
  let ?r3 = "Open # Lazy anyChar # ?r"
  let ?f = "fenced (c # s)"
  have ws: "isWhiteSpace 0x0A"
    by (simp add: isWhiteSpace_def)
  have tail: "matchHere ?r ?T ?m [] \<noteq> None"
    using ws by (simp add: newline_def str_def)
  from lazy_first [OF tail, of "c # s"] obtain k where k: "k \<le> length (c # s)"
    and eq: "matchHere (Lazy anyChar # ?r) ?m ?m [] = matchHere ?r (drop k ?m) ?m []"
    and ne: "matchHere ?r (drop k ?m) ?m [] \<noteq> None"
    by blast
  from ne obtain g where g: "matchHere ?r (drop k ?m) ?m [] = Some g"
    by blast
  have "length ?m - length (drop k ?m) = k"
    using k by simp
  moreover have "take k ?m = take k (c # s)"
    using k by (simp only: take_append) simp
  ultimately have "g = take k (c # s)"
    using close_group [OF g] by simp
  with eq g have inner: "matchHere (Lazy anyChar # ?r) ?m ?m [] = Some (take k (c # s))"
    by simp
  have "matchHere ?r3 ?m ?f [] = matchHere (Lazy anyChar # ?r) ?m ?m []"
    by (simp only: matchHere.simps)
  with inner have "matchHere ?r3 (c # (s @ ?T)) ?f [] = Some (take k (c # s))"
    by simp
  then have "matchHere (Star isWhiteSpace # ?r3) (c # (s @ ?T)) ?f [] = Some (take k (c # s))"
    using assms by (simp only: star_skip [of isWhiteSpace c] simp_thms)
  then have "matchHere (Star isWhiteSpace # ?r3) (0x0A # c # (s @ ?T)) ?f [] = Some (take k (c # s))"
    using ws by (simp only: star_take [of isWhiteSpace "0x0A"])
  then have "matchHere (Opt (str ''json'') # Star isWhiteSpace # ?r3)
               (str ''json'' @ 0x0A # c # (s @ ?T)) ?f [] = Some (take k (c # s))"
    by (rule opt_step)
  then have "matchHere (Lit (str ''```'') # Opt (str ''json'') # Star isWhiteSpace # ?r3)
               (str ''```'' @ str ''json'' @ 0x0A # c # (s @ ?T)) ?f [] = Some (take k (c # s))"
    by (simp only: lit_step)
  moreover have f: "?f = str ''```'' @ str ''json'' @ 0x0A # c # (s @ ?T)"
    by (simp add: fenced_cons(1))
  moreover have "hd codeBlockPattern
                   = Lit (str ''```'') # Opt (str ''json'') # Star isWhiteSpace # ?r3"
    by (simp add: codeBlockPattern_def)
  ultimately have "matchHere (hd codeBlockPattern) ?f ?f [] = Some (take k (c # s))"
    by metis
  then have "regexMatch codeBlockPattern ?f = Some (take k (c # s))"
    unfolding fenced_cons(2) by (simp add: codeBlockPattern_def del: matchHere.simps)
  with k show ?thesis
    by blast
qed

lemma bracket_fenced:
  "regexMatch bracketPattern (fenced (str ''{'' @ body @ str ''}'')) = Some (str ''{'' @ body @ str ''}'')"
proof -
  let ?T = "newline @ str ''```''"
  let ?s = "0x7B # body @ 0x7D # ?T"
  have nb: "0x7D \<notin> set ?T"
    by (simp add: newline_def str_def)
  have "matchHere [Star anyChar, Lit [0x7D], Close] (body @ 0x7D # ?T) ?s []
        = Some (take (length ?s - length ?T) ?s)"
    by (rule star_any_last_brace [OF nb])
  also have "take (length ?s - length ?T) ?s = 0x7B # body @ [0x7D]"
    by simp
  finally have inner: "matchHere [Star anyChar, Lit [0x7D], Close] (body @ 0x7D # ?T) ?s []
      = Some (0x7B # body @ [0x7D])" .
  have "matchHere [Open, Lit [0x7B], Star anyChar, Lit [0x7D], Close] ?s ?s []
          = matchHere [Star anyChar, Lit [0x7D], Close] (body @ 0x7D # ?T) ?s []"
    by simp
  with inner have "matchHere (hd bracketPattern) ?s ?s [] = Some (0x7B # body @ [0x7D])"
    by (simp add: bracketPattern_def str_def del: matchHere.simps)
  then have here: "regexMatch bracketPattern ?s = Some (0x7B # body @ [0x7D])"
    by (simp add: bracketPattern_def del: matchHere.simps)
  have "regexMatch bracketPattern (fenced (str ''{'' @ body @ str ''}'')) = regexMatch bracketPattern ?s"
    unfolding fenced_cons(2) by (simp add: bracket_skip str_def del: regexMatch.simps)
  with here show ?thesis
    by (simp add: str_def)
qed


lemma fenced_trim: "trim (fenced s) = fenced s" "fenced s \<noteq> []"
proof -
  show ne: "fenced s \<noteq> []"
    by (simp add: fenced_def str_def)
  have "hd (fenced s) = 0x60" "last (fenced s) = 0x60"
    by (simp_all add: fenced_def str_def)
  then show "trim (fenced s) = fenced s"
    using ne by (intro trim_id) (simp_all add: isWhiteSpace_def)
qed

text \<open>
  C7. \<open>JSON.parse\<close> and \<open>JSON.stringify\<close> are the platform's and enter as parameters.
  For a value \<open>X\<close> that they round-trip and serialize as an object (\<open>{\<close> body \<open>}\<close>),
  \<open>extractJSON\<close> returns \<open>X\<close> on the serialization and on the serialization wrapped in a
  fenced block. Two facts of the JSON grammar are used of \<open>JSON.parse\<close>: the fenced text
  (it starts with a backquote) is not JSON, and no proper prefix of the serialization of
  an object is JSON. The second matters only when a string inside \<open>X\<close> holds a fence:
  then the second try reads a cut block, fails to parse it, and the third try finds the
  whole object.
\<close>

theorem decoder_round_trip:
  assumes rt: "JSON_parse (JSON_stringify X) = Some X"
    and obj: "JSON_stringify X = str ''{'' @ body @ str ''}''"
    and nf: "JSON_parse (fenced (JSON_stringify X)) = None"
    and pf: "\<And>k. k < length (JSON_stringify X)
                \<Longrightarrow> JSON_parse (trim (take k (JSON_stringify X))) = None"
  shows "extractJSON JSON_parse (JStr (JSON_stringify X)) = Inr X
       \<and> extractJSON JSON_parse (JStr (fenced (JSON_stringify X))) = Inr X"
proof
  let ?s = "JSON_stringify X"
  have s: "?s = 0x7B # (body @ [0x7D])"
    by (simp add: obj str_def)
  have ne: "?s \<noteq> []"
    by (simp add: s)
  have "hd ?s = 0x7B" "last ?s = 0x7D"
    by (simp_all add: s)
  then have tr: "trim ?s = ?s"
    using ne by (intro trim_id) (simp_all add: isWhiteSpace_def)
  show "extractJSON JSON_parse (JStr ?s) = Inr X"
    using ne rt by (simp add: extractJSON_def tr)
  have nws: "\<not> isWhiteSpace 0x7B"
    by (simp add: isWhiteSpace_def)
  from codeBlock_fenced [OF nws, of "body @ [0x7D]"] obtain k where k: "k \<le> length ?s"
    and blk: "regexMatch codeBlockPattern (fenced ?s) = Some (take k ?s)"
    unfolding s [symmetric] by blast
  have brk: "regexMatch bracketPattern (fenced ?s) = Some ?s"
    using bracket_fenced [of body] by (simp add: obj)
  have third: "parseGroup JSON_parse bracketPattern (\<lambda>g. g) (fenced ?s) = Some X"
    using ne rt by (simp add: parseGroup_def brk)
  have second: "parseGroup JSON_parse codeBlockPattern trim (fenced ?s) = Some X
              \<or> parseGroup JSON_parse codeBlockPattern trim (fenced ?s) = None"
  proof (cases "k = length ?s")
    case True
    then show ?thesis
      using ne rt by (simp add: parseGroup_def blk tr)
  next
    case False
    with k have "k < length ?s" by simp
    from pf [OF this] show ?thesis
      by (simp add: parseGroup_def blk)
  qed
  show "extractJSON JSON_parse (JStr (fenced ?s)) = Inr X"
    using second third nf by (auto simp: extractJSON_def fenced_trim)
qed

lemma fenced_neq: "fenced s \<noteq> s"
proof
  assume "fenced s = s"
  then have "length (fenced s) = length s"
    by simp
  then show False
    by (simp add: fenced_def str_def newline_def)
qed

lemma table_prefix:
  assumes "k < length s"
  shows "map_of [(s, X)] (trim (take k s)) = None"
proof -
  have "length (trim (take k s)) \<le> length (take k s)"
    by (rule length_trim_le)
  with assms have "trim (take k s) \<noteq> s"
    by auto
  then show ?thesis
    by simp
qed

theorem decoder_round_trip_witness:
  "map_of [(sampleSerialized, JObj [(str ''summary'', JStr (str ''ok''))])] sampleSerialized
     = Some (JObj [(str ''summary'', JStr (str ''ok''))])
   \<and> extractJSON (map_of [(sampleSerialized, JObj [(str ''summary'', JStr (str ''ok''))])])
         (JStr sampleSerialized)
       = Inr (JObj [(str ''summary'', JStr (str ''ok''))])
   \<and> extractJSON (map_of [(sampleSerialized, JObj [(str ''summary'', JStr (str ''ok''))])])
         (JStr (fenced sampleSerialized))
       = Inr (JObj [(str ''summary'', JStr (str ''ok''))])
   \<and> map_of [(sampleBackticks, JObj [(str ''a'', JStr (str ''```''))])] sampleBackticks
     = Some (JObj [(str ''a'', JStr (str ''```''))])
   \<and> extractJSON (map_of [(sampleBackticks, JObj [(str ''a'', JStr (str ''```''))])])
         (JStr sampleBackticks)
       = Inr (JObj [(str ''a'', JStr (str ''```''))])
   \<and> extractJSON (map_of [(sampleBackticks, JObj [(str ''a'', JStr (str ''```''))])])
         (JStr (fenced sampleBackticks))
       = Inr (JObj [(str ''a'', JStr (str ''```''))])"
proof -
  let ?X = "JObj [(str ''summary'', JStr (str ''ok''))]"
  let ?Y = "JObj [(str ''a'', JStr (str ''```''))]"
  have a: "map_of [(sampleSerialized, ?X)] sampleSerialized = Some ?X"
    and b: "map_of [(sampleBackticks, ?Y)] sampleBackticks = Some ?Y"
    by simp_all
  have nfa: "map_of [(sampleSerialized, ?X)] (fenced sampleSerialized) = None"
    and nfb: "map_of [(sampleBackticks, ?Y)] (fenced sampleBackticks) = None"
    by (simp_all add: fenced_neq)
  from decoder_round_trip [of "map_of [(sampleSerialized, ?X)]" "\<lambda>v. sampleSerialized" ?X
      "dquote @ str ''summary'' @ dquote @ str '':'' @ dquote @ str ''ok'' @ dquote"]
    a nfa table_prefix [of _ sampleSerialized ?X]
  have "extractJSON (map_of [(sampleSerialized, ?X)]) (JStr sampleSerialized) = Inr ?X
     \<and> extractJSON (map_of [(sampleSerialized, ?X)]) (JStr (fenced sampleSerialized)) = Inr ?X"
    by (simp add: sampleSerialized_def)
  moreover
  from decoder_round_trip [of "map_of [(sampleBackticks, ?Y)]" "\<lambda>v. sampleBackticks" ?Y
      "dquote @ str ''a'' @ dquote @ str '':'' @ dquote @ str ''```'' @ dquote"]
    b nfb table_prefix [of _ sampleBackticks ?Y]
  have "extractJSON (map_of [(sampleBackticks, ?Y)]) (JStr sampleBackticks) = Inr ?Y
     \<and> extractJSON (map_of [(sampleBackticks, ?Y)]) (JStr (fenced sampleBackticks)) = Inr ?Y"
    by (simp add: sampleBackticks_def)
  ultimately show ?thesis
    using a b by blast
qed

end
